(* ===== verification/Prelude.thy ===== *)
theory Prelude
  imports Main "HOL-Library.AList" "HOL-Library.Sublist"
begin

text \<open>
  Shared vocabulary of the ScanNet preprocessing model
  (\<^verbatim>\<open>src/lib/datasets/preprocessing/scannet.py\<close>): paths, the
  exceptions the script can raise, the sum-type bind that stands for
  Python's exception propagation, Python's \<^verbatim>\<open>assert\<close> statement (which
  \<^verbatim>\<open>python -O\<close> removes together with the expression it tests), the outcome
  of an effectful step (the exception that escaped, if any, and the file
  system it leaves behind), and Python's substring test \<^verbatim>\<open>s in f\<close>.
\<close>

named_theorems outcome_simps "equations that unfold the step combinators of the script model"

type_synonym path = "string list"

text \<open>The assertion sites of the script, by what each one checks.\<close>

datatype assert_site =
    AlphaConstant      \<comment> \<open>line 30: the alpha column holds a single value\<close>
  | PointCount         \<comment> \<open>line 36: geometry and label have the same vertex count\<close>
  | CoordsClose        \<comment> \<open>line 37: geometry and label coordinates agree\<close>
  | CropCover          \<comment> \<open>line 48: the crop accumulator covers every point\<close>
  | TrainValDisjoint   \<comment> \<open>line 64\<close>
  | TrainListed        \<comment> \<open>line 65\<close>
  | ValListed          \<comment> \<open>line 66\<close>
  | TestListed         \<comment> \<open>line 67\<close>

text \<open>
  The exceptions the script can raise: a failed \<^verbatim>\<open>assert\<close>, numpy's
  \<^verbatim>\<open>IndexError\<close> and \<^verbatim>\<open>ValueError\<close> (column of an empty-width array,
  shapes that do not stack or broadcast), the \<^verbatim>\<open>OSError\<close>s of opening and
  creating files, and a file that is not a point cloud.
\<close>

datatype error =
    AssertionError assert_site
  | IndexError
  | ValueError
  | FileNotFoundError path
  | IsADirectoryError path
  | NotADirectoryError path
  | FileExistsError path
  | PlyParseError path

subsection \<open>Exception propagation\<close>

definition ebind :: "'e + 'a \<Rightarrow> ('a \<Rightarrow> 'e + 'b) \<Rightarrow> 'e + 'b" where
  "ebind m f = (case m of Inl e \<Rightarrow> Inl e | Inr a \<Rightarrow> f a)"

text \<open>
  \<^verbatim>\<open>assert c\<close>: with assertions enabled, the test is evaluated (it may raise
  on its own) and a false result raises \<^verbatim>\<open>AssertionError\<close>; under
  \<^verbatim>\<open>python -O\<close> the statement is skipped, its test never evaluated.
\<close>

definition py_assert :: "bool \<Rightarrow> error + bool \<Rightarrow> assert_site \<Rightarrow> error + unit" where
  "py_assert enabled test site =
     (if enabled then ebind test (\<lambda>b. if b then Inr () else Inl (AssertionError site))
      else Inr ())"

text \<open>
  An effectful step ends with the exception that escaped (\<open>Some e\<close>) or none,
  and with the state it leaves: a write done before the exception stays done.
\<close>

type_synonym 's outcome = "error option \<times> 's"

definition lift_outcome :: "error + 's \<Rightarrow> 's \<Rightarrow> 's outcome" where
  "lift_outcome r s = (case r of Inl e \<Rightarrow> (Some e, s) | Inr s' \<Rightarrow> (None, s'))"

definition then_outcome :: "'s outcome \<Rightarrow> ('s \<Rightarrow> 's outcome) \<Rightarrow> 's outcome" where
  "then_outcome r g = (case r of (None, s) \<Rightarrow> g s | (Some e, s) \<Rightarrow> (Some e, s))"

subsection \<open>Python's substring test\<close>

text \<open>\<^verbatim>\<open>s in f\<close> for strings, scanning the start positions of \<open>f\<close> in order.\<close>

fun py_in :: "string \<Rightarrow> string \<Rightarrow> bool" where
  "py_in s [] = (s = [])"
| "py_in s (c # cs) = (prefix s (c # cs) \<or> py_in s cs)"

subsection \<open>Lemmas on the combinators\<close>

lemma ebind_Inl [simp, outcome_simps]: "ebind (Inl e) f = Inl e"
  by (simp add: ebind_def)

lemma ebind_Inr [simp, outcome_simps]: "ebind (Inr a) f = f a"
  by (simp add: ebind_def)

lemma ebind_eq_Inr:
  "ebind m f = Inr b \<longleftrightarrow> (\<exists>a. m = Inr a \<and> f a = Inr b)"
  by (cases m) auto

lemma ebind_eq_Inl:
  "ebind m f = Inl e \<longleftrightarrow> m = Inl e \<or> (\<exists>a. m = Inr a \<and> f a = Inl e)"
  by (cases m) auto

lemma py_assert_disabled [simp, outcome_simps]: "py_assert False t site = Inr ()"
  by (simp add: py_assert_def)

lemma py_assert_enabled [simp, outcome_simps]:
  "py_assert True (Inr b) site = (if b then Inr () else Inl (AssertionError site))"
  "py_assert True (Inl e) site = Inl e"
  by (simp_all add: py_assert_def)

lemma py_assert_pass [simp, outcome_simps]: "py_assert en (Inr True) site = Inr ()"
  by (simp add: py_assert_def)

lemma py_assert_eq_Inr:
  "py_assert en t site = Inr u \<longleftrightarrow> \<not> en \<or> t = Inr True"
  by (cases t) (auto simp: py_assert_def)

lemma py_assert_Inl: "py_assert en t site = Inl e \<Longrightarrow> e = AssertionError site \<or> t = Inl e"
  by (cases t) (auto simp: py_assert_def split: if_splits)

lemma lift_outcome_simps [simp, outcome_simps]:
  "lift_outcome (Inl e) s = (Some e, s)"
  "lift_outcome (Inr s') s = (None, s')"
  by (simp_all add: lift_outcome_def)

lemma then_outcome_simps [simp, outcome_simps]:
  "then_outcome (None, s) g = g s"
  "then_outcome (Some e, s) g = (Some e, s)"
  by (simp_all add: then_outcome_def)

lemma fst_lift_outcome_not: "r \<noteq> Inl e \<Longrightarrow> fst (lift_outcome r s) \<noteq> Some e"
  by (cases r) auto

lemma then_outcome_None:
  "then_outcome r g = (None, s') \<longleftrightarrow> (\<exists>s. r = (None, s) \<and> g s = (None, s'))"
  by (cases r) (auto simp: then_outcome_def split: option.splits)

text \<open>A property of the state that every step keeps holds of the state an
  outcome chain leaves, whether or not an exception escaped.\<close>

lemma snd_then_outcome_pres:
  "P (snd r) \<Longrightarrow> (\<And>s. P s \<Longrightarrow> P (snd (g s))) \<Longrightarrow> P (snd (then_outcome r g))"
  by (cases r) (auto simp: then_outcome_def split: option.split)

lemma snd_lift_outcome_pres:
  "P s \<Longrightarrow> (\<And>s'. r = Inr s' \<Longrightarrow> P s') \<Longrightarrow> P (snd (lift_outcome r s))"
  by (cases r) auto

text \<open>The scanning test is exactly the library's contiguous-sublist relation.\<close>

lemma py_in_iff_sublist: "py_in s f \<longleftrightarrow> sublist s f"
  by (induction s f rule: py_in.induct) (auto simp: sublist_Cons_right)

lemma py_in_prefix [intro]: "prefix s f \<Longrightarrow> py_in s f"
  by (simp add: py_in_iff_sublist prefix_imp_sublist)

subsection \<open>Listing order\<close>

text \<open>Adding names one by one to a listing that keeps the position of a name
  already present yields the names in order of first occurrence.\<close>

lemma remdups_dup_mid: "n \<in> set ys \<Longrightarrow> remdups (xs @ n # ys) = remdups (xs @ ys)"
  by (induction xs) auto

lemma fold_add_name:
  "distinct cs \<Longrightarrow> fold (\<lambda>n cs. if n \<in> set cs then cs else cs @ [n]) ns cs = rev (remdups (rev (cs @ ns)))"
proof (induction ns arbitrary: cs)
  case Nil
  then show ?case by (simp add: distinct_remdups_id)
next
  case (Cons n ns)
  show ?case
  proof (cases "n \<in> set cs")
    case True
    with Cons have "fold (\<lambda>n cs. if n \<in> set cs then cs else cs @ [n]) (n # ns) cs = rev (remdups (rev (cs @ ns)))"
      by simp
    also have "\<dots> = rev (remdups (rev (cs @ n # ns)))"
      using True by (simp add: remdups_dup_mid)
    finally show ?thesis .
  next
    case False
    with Cons show ?thesis by simp
  qed
qed

subsection \<open>Lists and paths\<close>

lemma butlast_neq_self [simp]: "xs \<noteq> [] \<Longrightarrow> butlast xs \<noteq> xs"
proof
  assume "xs \<noteq> []" and eq: "butlast xs = xs"
  from \<open>xs \<noteq> []\<close> have "length (butlast xs) < length xs" by simp
  with eq show False by simp
qed

lemma not_prefix_butlast: "xs \<noteq> [] \<Longrightarrow> \<not> prefix xs (butlast xs)"
proof
  assume "xs \<noteq> []" and "prefix xs (butlast xs)"
  then have "length xs \<le> length (butlast xs)" by (rule_tac prefix_length_le)
  moreover from \<open>xs \<noteq> []\<close> have "length (butlast xs) < length xs" by simp
  ultimately show False by linarith
qed

lemma prefix_butlast_self [simp]: "prefix (butlast xs) xs"
  by (induction xs) auto

end
