(* ===== verification/Numpy_Table.thy ===== *)
theory Numpy_Table
  imports Complex_Main Prelude
begin

text \<open>
  The two-dimensional numpy arrays of the script. A point cloud read by
  \<^verbatim>\<open>read_plyfile\<close> is an \<open>N \<times> k\<close> array of floats; the script slices
  columns (\<^verbatim>\<open>a[:, :3]\<close>, \<^verbatim>\<open>a[:, :6]\<close>, \<^verbatim>\<open>a[:, -1]\<close>), builds a zero
  array of the same shape (\<^verbatim>\<open>np.zeros_like\<close>), turns a vector into a column
  (\<^verbatim>\<open>np.array([v]).T\<close>), stacks columns (\<^verbatim>\<open>np.hstack\<close>), counts distinct
  values (\<^verbatim>\<open>np.unique(v).size\<close>) and compares coordinates
  (\<^verbatim>\<open>np.allclose\<close>, with numpy's broadcasting and default tolerances).
  An array is its column count and its rows; it is well formed when every row
  has that many entries, which is the invariant numpy keeps and every
  operation here preserves. Floats are modelled as reals: NaN and infinities
  are outside the model.
\<close>

record table =
  ncols :: nat
  rows :: "real list list"

definition wf_table :: "table \<Rightarrow> bool" where
  "wf_table t \<longleftrightarrow> list_all (\<lambda>r. length r = ncols t) (rows t)"

text \<open>\<^verbatim>\<open>a.shape[0]\<close>.\<close>

definition nrows :: "table \<Rightarrow> nat" where
  "nrows t = length (rows t)"

text \<open>\<^verbatim>\<open>a[:, -1]\<close>: the last column; an array of width 0 has none.\<close>

definition col_last :: "table \<Rightarrow> error + real list" where
  "col_last t = (if ncols t = 0 then Inl IndexError else Inr (map last (rows t)))"

text \<open>\<^verbatim>\<open>a[:, :k]\<close>: slicing clamps to the width, it never raises.\<close>

definition cols_take :: "nat \<Rightarrow> table \<Rightarrow> table" where
  "cols_take k t = \<lparr>ncols = min k (ncols t), rows = map (take k) (rows t)\<rparr>"

text \<open>\<^verbatim>\<open>np.zeros_like(a)\<close>.\<close>

definition zeros_like :: "table \<Rightarrow> table" where
  "zeros_like t = \<lparr>ncols = ncols t, rows = replicate (nrows t) (replicate (ncols t) 0)\<rparr>"

text \<open>\<^verbatim>\<open>np.array([v]).T\<close>: a vector of length \<open>N\<close> as an \<open>N \<times> 1\<close> array.\<close>

definition column_vec :: "real list \<Rightarrow> table" where
  "column_vec v = \<lparr>ncols = 1, rows = map (\<lambda>x. [x]) v\<rparr>"

text \<open>\<^verbatim>\<open>np.hstack((a, b))\<close> of two 2-D arrays: the row counts must agree.\<close>

definition hstack :: "table \<Rightarrow> table \<Rightarrow> error + table" where
  "hstack a b =
     (if nrows a = nrows b
      then Inr \<lparr>ncols = ncols a + ncols b, rows = map2 (@) (rows a) (rows b)\<rparr>
      else Inl ValueError)"

text \<open>\<^verbatim>\<open>np.unique(v).size\<close>.\<close>

definition unique_size :: "real list \<Rightarrow> nat" where
  "unique_size v = length (remdups v)"

subsection \<open>\<^verbatim>\<open>np.allclose\<close>\<close>

text \<open>
  numpy's defaults \<^verbatim>\<open>rtol=1e-05\<close>, \<^verbatim>\<open>atol=1e-08\<close>; the test is not
  symmetric: the tolerance scales with the second argument.
\<close>

definition rtol :: real where "rtol = 1 / 100000"

definition atol :: real where "atol = 1 / 100000000"

definition isclose :: "real \<Rightarrow> real \<Rightarrow> bool" where
  "isclose x y \<longleftrightarrow> \<bar>x - y\<bar> \<le> atol + rtol * \<bar>y\<bar>"

text \<open>Broadcasting of one dimension: equal, or one of them is 1.\<close>

definition bdim :: "nat \<Rightarrow> nat \<Rightarrow> nat option" where
  "bdim m n = (if m = n then Some m else if m = 1 then Some n else if n = 1 then Some m else None)"

text \<open>Entry \<open>(i, j)\<close> of an array broadcast along its dimensions of size 1.\<close>

definition bentry :: "table \<Rightarrow> nat \<Rightarrow> nat \<Rightarrow> real" where
  "bentry t i j = rows t ! (if nrows t = 1 then 0 else i) ! (if ncols t = 1 then 0 else j)"

definition allclose :: "table \<Rightarrow> table \<Rightarrow> error + bool" where
  "allclose a b =
     (case (bdim (nrows a) (nrows b), bdim (ncols a) (ncols b)) of
        (Some n, Some c) \<Rightarrow>
          Inr (list_all (\<lambda>i. list_all (\<lambda>j. isclose (bentry a i j) (bentry b i j)) [0..<c]) [0..<n])
      | _ \<Rightarrow> Inl ValueError)"

subsection \<open>Shapes\<close>

lemmas table_defs = nrows_def cols_take_def zeros_like_def column_vec_def

text \<open>Everything needed to evaluate the array operations on concrete arrays.\<close>

lemmas table_eval = table_defs col_last_def hstack_def unique_size_def allclose_def bdim_def
  bentry_def isclose_def atol_def rtol_def list_all_iff

lemma wf_table_iff: "wf_table t \<longleftrightarrow> (\<forall>r \<in> set (rows t). length r = ncols t)"
  by (simp add: wf_table_def list_all_iff)

lemma nrows_cols_take [simp]: "nrows (cols_take k t) = nrows t"
  by (simp add: table_defs)

lemma nrows_zeros_like [simp]: "nrows (zeros_like t) = nrows t"
  by (simp add: table_defs)

lemma ncols_zeros_like [simp]: "ncols (zeros_like t) = ncols t"
  by (simp add: zeros_like_def)

lemma nrows_column_vec [simp]: "nrows (column_vec v) = length v"
  by (simp add: table_defs)

lemma wf_cols_take: "wf_table t \<Longrightarrow> wf_table (cols_take k t)"
  by (auto simp: wf_table_iff cols_take_def)

lemma wf_zeros_like: "wf_table (zeros_like t)"
  by (simp add: wf_table_iff zeros_like_def)

lemma wf_column_vec: "wf_table (column_vec v)"
  by (auto simp: wf_table_iff column_vec_def)

lemma hstack_eq_Inr:
  "hstack a b = Inr c \<longleftrightarrow>
     nrows a = nrows b \<and> c = \<lparr>ncols = ncols a + ncols b, rows = map2 (@) (rows a) (rows b)\<rparr>"
  by (auto simp: hstack_def)

lemma wf_hstack:
  assumes "wf_table a" and "wf_table b" and "hstack a b = Inr c"
  shows "wf_table c"
proof -
  have "\<forall>(r, s) \<in> set (zip (rows a) (rows b)). length (r @ s) = ncols a + ncols b"
    using assms(1,2) by (fastforce simp: wf_table_iff dest: set_zip_leftD set_zip_rightD)
  with assms(3) show ?thesis
    by (auto simp: hstack_eq_Inr wf_table_iff)
qed

lemma nrows_hstack: "hstack a b = Inr c \<Longrightarrow> nrows c = nrows a"
  by (auto simp: hstack_eq_Inr nrows_def)

lemma col_last_eq_Inr: "col_last t = Inr v \<longleftrightarrow> 0 < ncols t \<and> v = map last (rows t)"
  by (auto simp: col_last_def)

lemma length_col_last: "col_last t = Inr v \<Longrightarrow> length v = nrows t"
  by (auto simp: col_last_eq_Inr nrows_def)

lemma col_last_zeros_like:
  "0 < ncols t \<Longrightarrow> col_last (zeros_like t) = Inr (replicate (nrows t) 0)"
  by (simp add: col_last_def zeros_like_def)

text \<open>The array operations raise only \<^verbatim>\<open>IndexError\<close> and \<^verbatim>\<open>ValueError\<close>.\<close>

lemma table_ops_not_assert [simp]:
  "col_last t \<noteq> Inl (AssertionError s)"
  "hstack a b \<noteq> Inl (AssertionError s)"
  "allclose a b \<noteq> Inl (AssertionError s)"
  by (auto simp: col_last_def hstack_def allclose_def split: option.split)

text \<open>Every entry is close to itself, so a well-formed array is close to itself.\<close>

lemma isclose_refl [simp]: "isclose x x"
  by (simp add: isclose_def atol_def rtol_def)

lemma allclose_refl:
  assumes "wf_table t" and "nrows t \<noteq> 1" and "ncols t \<noteq> 1"
  shows "allclose t t = Inr True"
  using assms by (simp add: allclose_def bdim_def list_all_iff)

end
