(* ===== verification/Pathlib_FS.thy ===== *)
theory Pathlib_FS
  imports Numpy_Table
begin

text \<open>
  The file system the script reads and writes, and the parts of
  \<^verbatim>\<open>pathlib\<close> it calls. A path is the list of its components from the root.
  The file system is an association list from paths to entries (a directory,
  a point-cloud file, a text file) in the order the entries were created,
  which is the order a directory listing returns them in this model. It is
  well formed (\<open>wf_fs\<close>) when no path is listed twice and the parent of every
  entry is a directory. The operations: \<^verbatim>\<open>Path.name\<close>, \<^verbatim>\<open>.parent\<close>,
  \<^verbatim>\<open>.stem\<close>, \<^verbatim>\<open>.suffix\<close>, \<^verbatim>\<open>.is_file()\<close>, \<^verbatim>\<open>.glob('*/*' + s)\<close> and
  \<^verbatim>\<open>.glob('*' + s)\<close>, \<^verbatim>\<open>.mkdir(parents=True, exist_ok=True)\<close>, opening a
  file for writing, and the point-cloud codec \<^verbatim>\<open>read_plyfile\<close> /
  \<^verbatim>\<open>save_point_cloud\<close> of \<^verbatim>\<open>lib/pc_utils\<close> (not under \<^verbatim>\<open>src/\<close>; modelled
  from the spec's contract "parse file to a table", "write a table with a
  label flag to a file").
\<close>

subsection \<open>Path names\<close>

definition name :: "path \<Rightarrow> string" where
  "name p = (if p = [] then [] else last p)"

definition parent :: "path \<Rightarrow> path" where
  "parent p = butlast p"

text \<open>\<^verbatim>\<open>str.rfind('.')\<close>, with \<open>None\<close> for Python's \<open>-1\<close>.\<close>

definition rfind_dot :: "string \<Rightarrow> nat option" where
  "rfind_dot s =
     (let k = length (takeWhile (\<lambda>c. c \<noteq> CHR ''.'') (rev s))
      in if k = length s then None else Some (length s - 1 - k))"

text \<open>\<^verbatim>\<open>PurePath.suffix\<close> and \<^verbatim>\<open>PurePath.stem\<close> of a name: the last dot
  counts only when it is neither the first nor the last character.\<close>

definition path_suffix :: "string \<Rightarrow> string" where
  "path_suffix n =
     (case rfind_dot n of
        Some i \<Rightarrow> if 0 < i \<and> i < length n - 1 then drop i n else []
      | None \<Rightarrow> [])"

definition path_stem :: "string \<Rightarrow> string" where
  "path_stem n =
     (case rfind_dot n of
        Some i \<Rightarrow> if 0 < i \<and> i < length n - 1 then take i n else n
      | None \<Rightarrow> n)"

text \<open>\<^verbatim>\<open>str.split(c)\<close>.\<close>

fun split_on :: "char \<Rightarrow> string \<Rightarrow> string list" where
  "split_on c [] = [[]]"
| "split_on c (x # xs) =
     (if x = c then [] # split_on c xs
      else (case split_on c xs of w # ws \<Rightarrow> (x # w) # ws | [] \<Rightarrow> [[x]]))"

text \<open>The components \<^verbatim>\<open>pathlib\<close> makes of a relative path string: empty and
  \<^verbatim>\<open>.\<close> components are dropped.\<close>

definition path_parts :: "string \<Rightarrow> path" where
  "path_parts s = filter (\<lambda>w. w \<noteq> [] \<and> w \<noteq> ''.'') (split_on CHR ''/'' s)"

subsection \<open>The file system\<close>

datatype fentry = Dir | PlyFile bool table | TextFile string

type_synonym fs = "(path \<times> fentry) list"

definition is_file :: "fs \<Rightarrow> path \<Rightarrow> bool" where
  "is_file fs p = (case map_of fs p of Some Dir \<Rightarrow> False | Some _ \<Rightarrow> True | None \<Rightarrow> False)"

definition is_dir :: "fs \<Rightarrow> path \<Rightarrow> bool" where
  "is_dir fs p \<longleftrightarrow> p = [] \<or> map_of fs p = Some Dir"

definition has_file_ancestor :: "fs \<Rightarrow> path \<Rightarrow> bool" where
  "has_file_ancestor fs p = list_ex (\<lambda>(q, e). e \<noteq> Dir \<and> strict_prefix q p) fs"

definition wf_fs :: "fs \<Rightarrow> bool" where
  "wf_fs fs \<longleftrightarrow> distinct (map fst fs) \<and> list_all (\<lambda>(q, e). q \<noteq> [] \<and> is_dir fs (butlast q)) fs"

text \<open>The names in directory \<open>d\<close>, in listing order.\<close>

definition children :: "fs \<Rightarrow> path \<Rightarrow> string list" where
  "children fs d = map (\<lambda>(q, e). last q) (filter (\<lambda>(q, e). q \<noteq> [] \<and> butlast q = d) fs)"

text \<open>
  \<^verbatim>\<open>root.glob('*/*' + s)\<close>: a wildcard followed by more components selects
  directories only; the last component selects every entry whose name ends
  with \<open>s\<close> (\<^verbatim>\<open>*\<close> matches any name, hidden ones included). A missing root
  yields nothing.
\<close>

definition glob_star_dir :: "fs \<Rightarrow> path \<Rightarrow> string \<Rightarrow> path list" where
  "glob_star_dir fs base s =
     concat (map (\<lambda>d. map (\<lambda>n. base @ [d, n]) (filter (suffix s) (children fs (base @ [d]))))
                 (filter (\<lambda>d. is_dir fs (base @ [d])) (children fs base)))"

text \<open>\<^verbatim>\<open>d.glob('*' + s)\<close>.\<close>

definition glob_flat :: "fs \<Rightarrow> path \<Rightarrow> string \<Rightarrow> path list" where
  "glob_flat fs d s = map (\<lambda>n. d @ [n]) (filter (suffix s) (children fs d))"

text \<open>
  The error of opening a path that is not there: the walk down the path meets
  a file first (\<^verbatim>\<open>NotADirectoryError\<close>) or a missing component.
\<close>

definition open_error :: "fs \<Rightarrow> path \<Rightarrow> error" where
  "open_error fs p = (if has_file_ancestor fs p then NotADirectoryError p else FileNotFoundError p)"

definition read_plyfile :: "fs \<Rightarrow> path \<Rightarrow> error + table" where
  "read_plyfile fs p =
     (case map_of fs p of
        Some (PlyFile _ t) \<Rightarrow> Inr t
      | Some (TextFile _) \<Rightarrow> Inl (PlyParseError p)
      | Some Dir \<Rightarrow> Inl (IsADirectoryError p)
      | None \<Rightarrow> Inl (if p = [] then IsADirectoryError p else open_error fs p))"

text \<open>\<^verbatim>\<open>open(p, 'w')\<close> followed by the write: creates or truncates the file.\<close>

definition write_file :: "fs \<Rightarrow> path \<Rightarrow> fentry \<Rightarrow> error + fs" where
  "write_file fs p e =
     (if has_file_ancestor fs p then Inl (NotADirectoryError p)
      else if \<not> is_dir fs (butlast p) then Inl (FileNotFoundError p)
      else if is_dir fs p then Inl (IsADirectoryError p)
      else Inr (AList.update p e fs))"

definition save_point_cloud :: "fs \<Rightarrow> table \<Rightarrow> path \<Rightarrow> bool \<Rightarrow> error + fs" where
  "save_point_cloud fs t p with_label = write_file fs p (PlyFile with_label t)"

definition write_text :: "fs \<Rightarrow> path \<Rightarrow> string \<Rightarrow> error + fs" where
  "write_text fs p s = write_file fs p (TextFile s)"

text \<open>
  \<^verbatim>\<open>Path.mkdir(parents=True, exist_ok=True)\<close>: an existing directory is
  fine, an existing file raises; a missing parent is created first,
  recursively.
\<close>

function (domintros) mkdir_parents :: "fs \<Rightarrow> path \<Rightarrow> error + fs" where
  "mkdir_parents fs p =
     (if p = [] then Inr fs
      else case map_of fs p of
        Some Dir \<Rightarrow> Inr fs
      | Some _ \<Rightarrow> Inl (FileExistsError p)
      | None \<Rightarrow>
          if has_file_ancestor fs p then Inl (NotADirectoryError p)
          else if is_dir fs (butlast p) then Inr (fs @ [(p, Dir)])
          else ebind (mkdir_parents fs (butlast p)) (\<lambda>fs'. Inr (fs' @ [(p, Dir)])))"
  by pat_completeness auto
termination
  by (relation "measure (\<lambda>(fs, p). length p)") auto

text \<open>
  The contract of \<^verbatim>\<open>mkdir(parents=True, exist_ok=True)\<close> on the file system
  seen as a map: every ancestor of the target, and the target, is a directory
  afterwards; the ones that were missing are added, nothing else changes.
\<close>

definition mkdirs_spec :: "path \<Rightarrow> (path \<rightharpoonup> fentry) \<Rightarrow> (path \<rightharpoonup> fentry)" where
  "mkdirs_spec p m = (\<lambda>q. if q \<noteq> [] \<and> prefix q p \<and> m q = None then Some Dir else m q)"

declare mkdir_parents.simps [simp del]

lemma mkdir_parents_Nil [simp]: "mkdir_parents fs [] = Inr fs"
  by (simp add: mkdir_parents.simps)

subsection \<open>Evaluation\<close>

lemmas pathlib_eval = name_def parent_def rfind_dot_def path_suffix_def path_stem_def is_file_def
  is_dir_def has_file_ancestor_def children_def glob_star_dir_def glob_flat_def open_error_def
  read_plyfile_def write_file_def save_point_cloud_def write_text_def suffix_to_prefix

lemma read_plyfile_PlyFile [simp]: "map_of fs p = Some (PlyFile b t) \<Longrightarrow> read_plyfile fs p = Inr t"
  by (simp add: read_plyfile_def)

lemma read_plyfile_Inr: "read_plyfile fs p = Inr t \<Longrightarrow> \<exists>b. map_of fs p = Some (PlyFile b t)"
  by (auto simp: read_plyfile_def split: option.splits fentry.splits)

text \<open>\<^verbatim>\<open>rfind\<close> finds the last dot.\<close>

lemma rfind_dot_last:
  assumes "CHR ''.'' \<notin> set y"
  shows "rfind_dot (x @ CHR ''.'' # y) = Some (length x)"
proof -
  have "takeWhile (\<lambda>c. c \<noteq> CHR ''.'') (rev y @ CHR ''.'' # rev x)
          = rev y @ takeWhile (\<lambda>c. c \<noteq> CHR ''.'') (CHR ''.'' # rev x)"
    by (rule takeWhile_append2) (use assms in auto)
  then have "takeWhile (\<lambda>c. c \<noteq> CHR ''.'') (rev (x @ CHR ''.'' # y)) = rev y"
    by simp
  then show ?thesis by (simp add: rfind_dot_def)
qed

lemma split_on_nonempty [simp]: "split_on c s \<noteq> []"
  by (induction c s rule: split_on.induct) (auto split: list.split)

lemma split_on_no_sep: "c \<notin> set w \<Longrightarrow> split_on c w = [w]"
  by (induction w) auto

lemma split_on_sep: "c \<notin> set w \<Longrightarrow> split_on c (w @ c # r) = w # split_on c r"
  by (induction w) auto

subsection \<open>Writes and directory creation\<close>

lemma set_update_cases:
  "x \<in> set (AList.update k v al) \<Longrightarrow> x = (k, v) \<or> x \<in> set al"
  by (induction al) (auto split: if_splits)

lemma is_dir_update [simp]: "q \<noteq> p \<Longrightarrow> is_dir (AList.update p e fs) q = is_dir fs q"
  by (simp add: is_dir_def update_conv')

lemma is_dir_append: "is_dir fs q \<Longrightarrow> is_dir (fs @ xs) q"
  by (auto simp: is_dir_def)

lemma write_file_eq_Inr:
  "write_file fs p e = Inr fs' \<longleftrightarrow>
     \<not> has_file_ancestor fs p \<and> is_dir fs (butlast p) \<and> \<not> is_dir fs p \<and> fs' = AList.update p e fs"
  by (auto simp: write_file_def)

lemma map_of_write_file:
  "write_file fs p e = Inr fs' \<Longrightarrow> map_of fs' = (map_of fs)(p \<mapsto> e)"
  by (auto simp: write_file_eq_Inr update_conv')

lemma wf_fs_write_file:
  assumes wf: "wf_fs fs" and w: "write_file fs p e = Inr fs'"
  shows "wf_fs fs'"
proof -
  from w have anc: "is_dir fs (butlast p)" and nd: "\<not> is_dir fs p"
    and fs': "fs' = AList.update p e fs"
    by (auto simp: write_file_eq_Inr)
  from nd have "p \<noteq> []" by (simp add: is_dir_def)
  then have "butlast p \<noteq> p" by simp
  with anc have new: "is_dir fs' (butlast p)" by (simp add: fs')
  have old: "q \<noteq> [] \<and> is_dir fs' (butlast q)" if "(q, e') \<in> set fs" for q e'
  proof (cases "q = p")
    case True
    with new \<open>p \<noteq> []\<close> show ?thesis by simp
  next
    case False
    from wf that have q: "q \<noteq> [] \<and> is_dir fs (butlast q)" by (auto simp: wf_fs_def list_all_iff)
    with nd have "butlast q \<noteq> p" by auto
    with q show ?thesis by (simp add: fs')
  qed
  have "list_all (\<lambda>(q, e). q \<noteq> [] \<and> is_dir fs' (butlast q)) fs'"
    unfolding list_all_iff
  proof
    fix x assume "x \<in> set fs'"
    then have "x = (p, e) \<or> x \<in> set fs"
      by (simp add: fs' set_update_cases)
    with new old \<open>p \<noteq> []\<close> show "case x of (q, e) \<Rightarrow> q \<noteq> [] \<and> is_dir fs' (butlast q)"
      by (cases x) auto
  qed
  moreover from wf have "distinct (map fst fs')" by (simp add: fs' wf_fs_def distinct_update)
  ultimately show ?thesis by (simp add: wf_fs_def)
qed

lemma wf_fs_snoc_dir:
  assumes "wf_fs fs" and "map_of fs p = None" and "p \<noteq> []" and "is_dir fs (butlast p)"
  shows "wf_fs (fs @ [(p, Dir)])"
proof -
  from assms(2) have "p \<notin> fst ` set fs" by (simp add: map_of_eq_None_iff)
  with assms show ?thesis
    by (auto simp: wf_fs_def list_all_iff intro: is_dir_append)
qed

text \<open>
  A successful \<open>mkdir\<close> keeps the file system well formed, leaves the target a
  directory and only appends directories on the way to it.
\<close>

lemma mkdir_parents_Inr:
  "wf_fs fs \<Longrightarrow> mkdir_parents fs p = Inr fs' \<Longrightarrow>
     wf_fs fs' \<and> is_dir fs' p \<and> (\<exists>new. fs' = fs @ new \<and> (\<forall>(q, e) \<in> set new. e = Dir \<and> prefix q p))"
proof (induction fs p arbitrary: fs' rule: mkdir_parents.induct)
  case (1 fs p)
  show ?case
  proof (cases "p = [] \<or> map_of fs p = Some Dir")
    case True
    with "1.prems"(2) have "fs' = fs"
      by (cases "p = []") (simp_all add: mkdir_parents.simps[of fs p])
    with True "1.prems"(1) show ?thesis
      by (auto simp: is_dir_def)
  next
    case False
    then have ne: "p \<noteq> []" by simp
    have none: "map_of fs p = None"
    proof (cases "map_of fs p")
      case (Some e)
      with False "1.prems"(2) ne show ?thesis
        by (cases e) (simp_all add: mkdir_parents.simps[of fs p])
    qed
    from "1.prems"(2) ne none have nf: "\<not> has_file_ancestor fs p"
      by (auto simp: mkdir_parents.simps[of fs p])
    show ?thesis
    proof (cases "is_dir fs (butlast p)")
      case True
      with "1.prems" none ne nf have "fs' = fs @ [(p, Dir)]"
        by (simp add: mkdir_parents.simps[of fs p])
      with "1.prems"(1) none ne True show ?thesis
        by (auto simp: wf_fs_snoc_dir is_dir_def map_add_def)
    next
      case par: False
      with "1.prems"(2) none ne nf obtain fs1 where
        rec: "mkdir_parents fs (butlast p) = Inr fs1" and fs': "fs' = fs1 @ [(p, Dir)]"
        by (auto simp: mkdir_parents.simps[of fs p] ebind_eq_Inr)
      from "1.IH"[OF ne none nf par "1.prems"(1) rec]
      obtain new where wf1: "wf_fs fs1" and d1: "is_dir fs1 (butlast p)"
        and fs1: "fs1 = fs @ new" and new: "\<forall>(q, e) \<in> set new. e = Dir \<and> prefix q (butlast p)"
        by auto
      have none1: "map_of fs1 p = None"
      proof -
        have "\<not> prefix p (butlast p)" using ne by (rule not_prefix_butlast)
        with new have "p \<notin> fst ` set new" by auto
        with none show ?thesis by (simp add: fs1 map_of_eq_None_iff)
      qed
      with wf1 d1 ne have "wf_fs fs'" by (simp add: fs' wf_fs_snoc_dir)
      moreover have "\<forall>(q, e) \<in> set (new @ [(p, Dir)]). e = Dir \<and> prefix q p"
        using new by (auto intro: prefix_order.trans[OF _ prefix_butlast_self])
      moreover from none1 have "is_dir fs' p" by (simp add: fs' is_dir_def map_add_def)
      ultimately show ?thesis by (auto simp: fs' fs1)
    qed
  qed
qed

text \<open>Only entries on the way to the new directory appear.\<close>

lemma mkdir_parents_frame:
  assumes "wf_fs fs" and "mkdir_parents fs p = Inr fs'" and "\<not> prefix q p"
  shows "map_of fs' q = map_of fs q"
proof -
  from mkdir_parents_Inr[OF assms(1,2)] obtain new where
    fs': "fs' = fs @ new" and new: "\<forall>(r, e) \<in> set new. e = Dir \<and> prefix r p"
    by blast
  from new assms(3) have "map_of new q = None"
    by (auto simp: map_of_eq_None_iff)
  then show ?thesis by (simp add: fs' map_add_def split: option.split)
qed

text \<open>A write outside a subtree leaves every listing inside it unchanged.\<close>

lemma children_update:
  "butlast p \<noteq> d \<Longrightarrow> children (AList.update p e fs) d = children fs d"
  by (induction fs) (auto simp: children_def)

lemma prefix_butlast_prefix: "prefix base (butlast p) \<Longrightarrow> prefix base p"
  using prefix_order.trans prefix_butlast_self by blast

lemma children_update_outside:
  assumes "\<not> prefix base p"
  shows "children (AList.update p e fs) (base @ ds) = children fs (base @ ds)"
proof (rule children_update)
  show "butlast p \<noteq> base @ ds"
  proof
    assume "butlast p = base @ ds"
    then have "prefix base (butlast p)" by simp
    with assms show False by (blast dest: prefix_butlast_prefix)
  qed
qed

lemma is_dir_update_outside:
  "\<not> prefix base p \<Longrightarrow> is_dir (AList.update p e fs) (base @ ds) = is_dir fs (base @ ds)"
  by (rule is_dir_update) auto

lemma glob_star_dir_update:
  assumes "\<not> prefix base p"
  shows "glob_star_dir (AList.update p e fs) base s = glob_star_dir fs base s"
proof -
  have "children (AList.update p e fs) base = children fs base"
    using children_update_outside[OF assms, of e fs "[]"] by simp
  with assms show ?thesis
    by (simp add: glob_star_dir_def children_update_outside is_dir_update_outside)
qed

subsection \<open>Directories of a well-formed tree\<close>

text \<open>Every ancestor of a directory is a directory, so nothing on the way to it
  is a file.\<close>

lemma wf_is_dir_parent: "wf_fs fs \<Longrightarrow> is_dir fs p \<Longrightarrow> is_dir fs (butlast p)"
  by (auto simp: wf_fs_def is_dir_def list_all_iff dest: map_of_SomeD)

lemma wf_is_dir_prefix:
  assumes "wf_fs fs" and "is_dir fs p" and "prefix q p"
  shows "is_dir fs q"
  using assms(2,3)
proof (induction p rule: rev_induct)
  case Nil
  then show ?case by simp
next
  case (snoc x p)
  from wf_is_dir_parent[OF assms(1) snoc.prems(1)] have "is_dir fs p" by simp
  with snoc show ?case by (auto simp: prefix_snoc)
qed

lemma wf_dir_child_no_file_ancestor:
  assumes "wf_fs fs" and "is_dir fs p"
  shows "\<not> has_file_ancestor fs (p @ [n])"
proof
  assume "has_file_ancestor fs (p @ [n])"
  then obtain q e where qe: "(q, e) \<in> set fs" and e: "e \<noteq> Dir" and sp: "strict_prefix q (p @ [n])"
    by (auto simp: has_file_ancestor_def list_ex_iff)
  from sp have "prefix q p" by (auto simp: strict_prefix_def prefix_snoc)
  with assms have "is_dir fs q" by (rule wf_is_dir_prefix)
  moreover from assms(1) qe have "q \<noteq> []" by (auto simp: wf_fs_def list_all_iff)
  moreover from assms(1) qe have "map_of fs q = Some e" by (simp add: wf_fs_def)
  ultimately show False using e by (simp add: is_dir_def)
qed

subsection \<open>Frames of a single update\<close>

lemma has_file_ancestor_update:
  "\<not> strict_prefix k p \<Longrightarrow> has_file_ancestor (AList.update k v fs) p = has_file_ancestor fs p"
  by (induction fs) (auto simp: has_file_ancestor_def)

lemma read_plyfile_update:
  assumes "\<not> prefix k p"
  shows "read_plyfile (AList.update k v fs) p = read_plyfile fs p"
proof -
  from assms have "k \<noteq> p" and "\<not> strict_prefix k p" by (auto simp: strict_prefix_def)
  moreover from this(2) have "open_error (AList.update k v fs) p = open_error fs p"
    by (simp add: open_error_def has_file_ancestor_update)
  ultimately show ?thesis by (simp add: read_plyfile_def update_conv' split: option.split)
qed

lemma is_file_update: "k \<noteq> p \<Longrightarrow> is_file (AList.update k v fs) p = is_file fs p"
  by (simp add: is_file_def update_conv')

lemma is_dir_update_file:
  "v \<noteq> Dir \<Longrightarrow> k \<noteq> [] \<Longrightarrow> is_dir (AList.update k v fs) q \<longleftrightarrow> q \<noteq> k \<and> is_dir fs q"
  by (auto simp: is_dir_def update_conv')

lemma length_update_bounds:
  "length al \<le> length (AList.update k v al) \<and> length (AList.update k v al) \<le> Suc (length al)"
  by (induction al) auto

text \<open>Writing a file into an existing directory of a well-formed tree fails
  only when the name is taken by a directory.\<close>

lemma write_file_in_dir:
  assumes "wf_fs fs" and "is_dir fs d"
  shows "write_file fs (d @ [n]) e =
           (if is_dir fs (d @ [n]) then Inl (IsADirectoryError (d @ [n]))
            else Inr (AList.update (d @ [n]) e fs))"
  using assms wf_dir_child_no_file_ancestor[OF assms] by (simp add: write_file_def)

lemma wf_fs_update_in_dir:
  assumes "wf_fs fs" and "is_dir fs d" and "\<not> is_dir fs (d @ [n])"
  shows "wf_fs (AList.update (d @ [n]) e fs)"
proof -
  have "write_file fs (d @ [n]) e = Inr (AList.update (d @ [n]) e fs)"
    using write_file_in_dir[OF assms(1,2)] assms(3) by simp
  then show ?thesis by (rule wf_fs_write_file[OF assms(1)])
qed

lemma is_dir_write_file:
  assumes "write_file fs p e = Inr fs'" and "is_dir fs q"
  shows "is_dir fs' q"
proof -
  from assms(1) have "\<not> is_dir fs p" and fs': "fs' = AList.update p e fs"
    by (simp_all add: write_file_eq_Inr)
  with assms(2) have "q \<noteq> p" by auto
  with assms(2) show ?thesis by (simp add: fs')
qed

lemma is_dir_mkdir_parents:
  assumes "wf_fs fs" and "mkdir_parents fs p = Inr fs'" and "is_dir fs q"
  shows "is_dir fs' q"
proof -
  from mkdir_parents_Inr[OF assms(1,2)] obtain new where "fs' = fs @ new" by blast
  with assms(3) show ?thesis by (simp add: is_dir_append)
qed

text \<open>How a directory listing changes: a write of an entry in the directory
  keeps the position of a name already listed and appends a new one; entries
  appended to the tree are listed after the old ones.\<close>

lemma children_update_child:
  "children (AList.update (d @ [n]) e fs) d =
     (if n \<in> set (children fs d) then children fs d else children fs d @ [n])"
proof (induction fs)
  case Nil
  then show ?case by (simp add: children_def)
next
  case (Cons x fs)
  obtain q e' where x: "x = (q, e')" by fastforce
  show ?case
  proof (cases "q = d @ [n]")
    case True
    then show ?thesis by (simp add: x children_def)
  next
    case False
    have "(q \<noteq> [] \<and> butlast q = d \<and> last q = n) \<longleftrightarrow> q = d @ [n]"
      by (metis append_butlast_last_id butlast_snoc last_snoc snoc_eq_iff_butlast)
    with False Cons.IH show ?thesis by (auto simp: x children_def)
  qed
qed

lemma children_append: "children (fs @ new) d = children fs d @ children new d"
  by (simp add: children_def)

text \<open>Names in a directory of a well-formed tree are distinct.\<close>

lemma distinct_children: "wf_fs fs \<Longrightarrow> distinct (children fs d)"
proof -
  assume "wf_fs fs"
  then have "distinct (map fst fs)" by (simp add: wf_fs_def)
  then show ?thesis
  proof (induction fs)
    case Nil then show ?case by (simp add: children_def)
  next
    case (Cons a fs)
    obtain q e where a: "a = (q, e)" by fastforce
    have "last q \<notin> set (children fs d)" if "q \<noteq> []" "butlast q = d"
    proof
      assume "last q \<in> set (children fs d)"
      then obtain q' e' where "(q', e') \<in> set fs" "q' \<noteq> []" "butlast q' = d" "last q' = last q"
        by (auto simp: children_def)
      with that have "q' = q" by (metis append_butlast_last_id)
      with \<open>(q', e') \<in> set fs\<close> Cons.prems a show False by force
    qed
    with Cons show ?case by (auto simp: children_def a)
  qed
qed

subsection \<open>The contract of \<open>mkdir\<close>\<close>

lemma wf_map_of_Nil: "wf_fs fs \<Longrightarrow> map_of fs [] = None"
  by (auto simp: wf_fs_def list_all_iff map_of_eq_None_iff)

lemma strict_prefix_butlast: "strict_prefix q p \<Longrightarrow> prefix q (butlast p)"
  by (auto simp: strict_prefix_def prefix_def butlast_append)

text \<open>With no file on the way, \<open>mkdir\<close> succeeds.\<close>

lemma mkdir_parents_no_file:
  "wf_fs fs \<Longrightarrow> (\<forall>q. prefix q p \<longrightarrow> q \<noteq> [] \<longrightarrow> map_of fs q = None \<or> map_of fs q = Some Dir) \<Longrightarrow>
     \<exists>fs'. mkdir_parents fs p = Inr fs'"
proof (induction fs p rule: mkdir_parents.induct)
  case (1 fs p)
  show ?case
  proof (cases "p = [] \<or> map_of fs p = Some Dir")
    case True
    then show ?thesis by (auto simp: mkdir_parents.simps[of fs p])
  next
    case False
    with "1.prems"(2) have ne: "p \<noteq> []" and none: "map_of fs p = None" by auto
    have nf: "\<not> has_file_ancestor fs p"
    proof
      assume "has_file_ancestor fs p"
      then obtain q e where qe: "(q, e) \<in> set fs" and e: "e \<noteq> Dir" and sp: "strict_prefix q p"
        by (auto simp: has_file_ancestor_def list_ex_iff)
      from "1.prems"(1) qe have "q \<noteq> []" and "map_of fs q = Some e"
        by (auto simp: wf_fs_def list_all_iff)
      with "1.prems"(2) sp e show False by (auto simp: strict_prefix_def)
    qed
    show ?thesis
    proof (cases "is_dir fs (butlast p)")
      case True
      with ne none nf show ?thesis by (simp add: mkdir_parents.simps[of fs p])
    next
      case par: False
      have "\<forall>q. prefix q (butlast p) \<longrightarrow> q \<noteq> [] \<longrightarrow> map_of fs q = None \<or> map_of fs q = Some Dir"
        using "1.prems"(2) by (auto intro: prefix_butlast_prefix)
      from "1.IH"[OF ne none nf par "1.prems"(1) this] obtain fs1 where "mkdir_parents fs (butlast p) = Inr fs1"
        by blast
      with ne none nf par show ?thesis by (simp add: mkdir_parents.simps[of fs p])
    qed
  qed
qed

text \<open>A successful \<open>mkdir\<close> on a path with no file on it leaves the map of
  its contract.\<close>

lemma mkdir_parents_map_of:
  assumes "wf_fs fs" and "mkdir_parents fs p = Inr fs'"
    and "\<forall>q. prefix q p \<longrightarrow> q \<noteq> [] \<longrightarrow> map_of fs q = None \<or> map_of fs q = Some Dir"
  shows "map_of fs' = mkdirs_spec p (map_of fs)"
proof
  fix q
  from mkdir_parents_Inr[OF assms(1,2)] obtain new where wf': "wf_fs fs'" and d: "is_dir fs' p"
    and fs': "fs' = fs @ new" by blast
  show "map_of fs' q = mkdirs_spec p (map_of fs) q"
  proof (cases "q \<noteq> [] \<and> prefix q p")
    case True
    with wf_is_dir_prefix[OF wf' d, of q] have "is_dir fs' q" by simp
    with True have "map_of fs' q = Some Dir" by (simp add: is_dir_def)
    moreover from True fs' have "map_of fs q \<noteq> None \<Longrightarrow> map_of fs' q = map_of fs q" by auto
    ultimately show ?thesis using True assms(3) by (auto simp: mkdirs_spec_def)
  next
    case False
    then show ?thesis
    proof (cases "q = []")
      case True
      with wf_map_of_Nil[OF wf'] wf_map_of_Nil[OF assms(1)] show ?thesis by (simp add: mkdirs_spec_def)
    next
      case q: False
      with False mkdir_parents_frame[OF assms(1,2)] show ?thesis by (simp add: mkdirs_spec_def)
    qed
  qed
qed

text \<open>
  C23: Refinement of \<^verbatim>\<open>mkdir(parents=True, exist_ok=True)\<close> (line 25). On a
  well-formed tree with no file on the way to the target, the call succeeds,
  keeps the tree well formed, and leaves the map \<open>mkdirs_spec\<close>: the target
  and all its ancestors are directories, the missing ones added, every other
  path as it was.
\<close>

theorem mkdir_parents_refines:
  assumes "wf_fs fs" and "\<forall>q. prefix q p \<longrightarrow> q \<noteq> [] \<longrightarrow> map_of fs q = None \<or> map_of fs q = Some Dir"
  shows "\<exists>fs'. mkdir_parents fs p = Inr fs' \<and> wf_fs fs' \<and> map_of fs' = mkdirs_spec p (map_of fs)"
proof -
  from mkdir_parents_no_file[OF assms] obtain fs' where m: "mkdir_parents fs p = Inr fs'" by blast
  with mkdir_parents_Inr[OF assms(1) m] mkdir_parents_map_of[OF assms(1) m assms(2)] show ?thesis
    by blast
qed

theorem mkdir_parents_refines_witness:
  "\<exists>fs'. mkdir_parents [([''a''], Dir)] [''a'', ''b'', ''c''] = Inr fs' \<and> wf_fs fs' \<and>
         map_of fs' = mkdirs_spec [''a'', ''b'', ''c''] (map_of [([''a''], Dir)])"
proof (rule mkdir_parents_refines)
  show "wf_fs [([''a''], Dir)]" by (simp add: wf_fs_def is_dir_def)
  show "\<forall>q. prefix q [''a'', ''b'', ''c''] \<longrightarrow> q \<noteq> [] \<longrightarrow>
          map_of [([''a''], Dir)] q = None \<or> map_of [([''a''], Dir)] q = Some Dir"
    by simp
qed

text \<open>
  C24: Error path of line 25. When a file lies on the way to the target, the
  call raises and changes nothing: \<^verbatim>\<open>FileExistsError\<close> when the target itself
  is a file (\<^verbatim>\<open>exist_ok\<close> covers directories only), \<^verbatim>\<open>NotADirectoryError\<close>
  when an ancestor is.
\<close>

theorem mkdir_parents_file_on_path:
  assumes "wf_fs fs" and "prefix q p" and "q \<noteq> []" and "map_of fs q = Some e" and "e \<noteq> Dir"
  shows "mkdir_parents fs p = Inl (if q = p then FileExistsError p else NotADirectoryError p)"
proof (cases "q = p")
  case True
  with assms(3-5) show ?thesis by (cases e) (simp_all add: mkdir_parents.simps[of fs p])
next
  case False
  with assms(2) have sp: "strict_prefix q p" by (simp add: strict_prefix_def)
  then have ne: "p \<noteq> []" by auto
  have none: "map_of fs p = None"
  proof (rule ccontr)
    assume "map_of fs p \<noteq> None"
    then obtain e' where "(p, e') \<in> set fs" by (auto dest: map_of_SomeD)
    with assms(1) have "is_dir fs (butlast p)" by (auto simp: wf_fs_def list_all_iff)
    from wf_is_dir_prefix[OF assms(1) this strict_prefix_butlast[OF sp]] assms(3-5)
    show False by (simp add: is_dir_def)
  qed
  from assms(4) have "(q, e) \<in> set fs" by (rule map_of_SomeD)
  with assms(5) sp have "has_file_ancestor fs p" by (auto simp: has_file_ancestor_def list_ex_iff)
  with False ne none show ?thesis by (simp add: mkdir_parents.simps[of fs p])
qed

theorem mkdir_parents_file_on_path_witness:
  "mkdir_parents [([''a''], TextFile ''x'')] [''a'', ''b''] = Inl (NotADirectoryError [''a'', ''b''])"
proof -
  have "mkdir_parents [([''a''], TextFile ''x'')] [''a'', ''b'']
          = Inl (if [''a''] = [''a'', ''b''] then FileExistsError [''a'', ''b''] else NotADirectoryError [''a'', ''b''])"
    by (rule mkdir_parents_file_on_path[where e = "TextFile ''x''"]) (simp_all add: wf_fs_def is_dir_def)
  then show ?thesis by simp
qed

text \<open>File-system operations raise \<^verbatim>\<open>OSError\<close>s and parse errors, never an
  assertion.\<close>

lemma read_plyfile_not_assert [simp]: "read_plyfile fs p \<noteq> Inl (AssertionError s)"
  by (auto simp: read_plyfile_def open_error_def split: option.split fentry.split)

lemma write_file_not_assert [simp]: "write_file fs p e \<noteq> Inl (AssertionError s)"
  by (simp add: write_file_def)

lemma mkdir_parents_not_assert [simp]: "mkdir_parents fs p \<noteq> Inl (AssertionError s)"
proof (induction fs p rule: mkdir_parents.induct)
  case (1 fs p)
  then show ?case
    by (subst mkdir_parents.simps) (auto simp: ebind_eq_Inl split: option.split fentry.split)
qed

end
