(* ===== verification/Record_Builder.thy ===== *)
theory Record_Builder
  imports Pathlib_FS
begin

text \<open>
  The preprocessing pass of \<^verbatim>\<open>scannet.py\<close> (lines 9--48): the script's
  constants, and for each raw point cloud: read it, check that its alpha column
  is constant, read or synthesise the label table and check it against the
  geometry, stack position, colour and label into a seven-column table, save
  it under the output directory, and run the crop-coverage check. The run's
  configuration (the two roots and whether \<^verbatim>\<open>assert\<close> statements run, i.e.
  whether Python was started without \<^verbatim>\<open>-O\<close>) is a record; the script's own
  constants are one instance of it.
\<close>

subsection \<open>Constants (lines 9--14)\<close>

definition SCANNET_RAW_PATH :: path where
  "SCANNET_RAW_PATH = [''data'', ''chrischoy'', ''datasets'', ''scannet_raw'']"

definition SCANNET_OUT_PATH :: path where
  "SCANNET_OUT_PATH = [''data'', ''chrischoy'', ''datasets'', ''scannet_processed'']"

definition TRAIN_DEST :: string where "TRAIN_DEST = ''train''"

definition TEST_DEST :: string where "TEST_DEST = ''test''"

text \<open>The dict \<^verbatim>\<open>SUBSETS\<close> in its insertion order, which \<^verbatim>\<open>items()\<close> follows.\<close>

definition SUBSETS :: "(string \<times> string) list" where
  "SUBSETS = [(TRAIN_DEST, ''scans''), (TEST_DEST, ''scans_test'')]"

definition POINTCLOUD_FILE :: string where "POINTCLOUD_FILE = ''_vh_clean_2.ply''"

record config =
  raw_path :: path
  out_path :: path
  asserts :: bool

definition scannet_config :: config where
  "scannet_config = \<lparr>raw_path = SCANNET_RAW_PATH, out_path = SCANNET_OUT_PATH, asserts = True\<rparr>"

subsection \<open>One point cloud (lines 27--48)\<close>

text \<open>Line 32: \<^verbatim>\<open>f.parent / (f.stem + '.labels' + f.suffix)\<close>.\<close>

definition label_path :: "path \<Rightarrow> path" where
  "label_path f = parent f @ [path_stem (name f) @ ''.labels'' @ path_suffix (name f)]"

text \<open>Line 43: \<^verbatim>\<open>f.name[:-len(POINTCLOUD_FILE)] + f.suffix\<close>; a name shorter than
  the suffix slices to the empty string, as \<open>nat\<close> subtraction does.\<close>

definition out_name :: "path \<Rightarrow> string" where
  "out_name f = take (length (name f) - length POINTCLOUD_FILE) (name f) @ path_suffix (name f)"

text \<open>Line 42: \<^verbatim>\<open>np.empty((0, 3))\<close>, the crop accumulator nothing ever fills.\<close>

definition all_points :: table where
  "all_points = \<lparr>ncols = 3, rows = []\<rparr>"

text \<open>Line 30: \<^verbatim>\<open>assert np.unique(pointcloud[:, -1]).size == 1\<close>.\<close>

definition alpha_check :: "config \<Rightarrow> table \<Rightarrow> error + unit" where
  "alpha_check cfg pc =
     py_assert (asserts cfg) (map_sum id (\<lambda>a. unique_size a = 1) (col_last pc)) AlphaConstant"

text \<open>Lines 32--39: the label table, read and checked, or all zeros when the
  label file is missing.\<close>

definition load_label :: "config \<Rightarrow> fs \<Rightarrow> path \<Rightarrow> table \<Rightarrow> error + table" where
  "load_label cfg fs f pc =
     (let label_f = label_path f in
      if is_file fs label_f then
        ebind (read_plyfile fs label_f) (\<lambda>label.
        ebind (py_assert (asserts cfg) (Inr (nrows pc = nrows label)) PointCount) (\<lambda>_.
        ebind (py_assert (asserts cfg) (allclose (cols_take 3 pc) (cols_take 3 label)) CoordsClose) (\<lambda>_.
        Inr label)))
      else Inr (zeros_like pc))"

text \<open>Lines 28--44: everything before the write; the result is the output path,
  the processed table and the coordinates \<^verbatim>\<open>xyz\<close>.\<close>

definition build_record :: "config \<Rightarrow> path \<Rightarrow> fs \<Rightarrow> path \<Rightarrow> error + path \<times> table \<times> table" where
  "build_record cfg phase_out fs f =
     ebind (read_plyfile fs f) (\<lambda>pc.
     ebind (alpha_check cfg pc) (\<lambda>_.
     ebind (load_label cfg fs f pc) (\<lambda>label.
     (let xyz = cols_take 3 pc;
          out_f = phase_out @ [out_name f]
      in ebind (col_last label) (\<lambda>lab.
         ebind (hstack (cols_take 6 pc) (column_vec lab)) (\<lambda>processed.
         Inr (out_f, processed, xyz)))))))"

text \<open>Line 48: \<^verbatim>\<open>assert set(all_points) == set(xyz)\<close>, as sets of row tuples.\<close>

definition crop_check :: "config \<Rightarrow> table \<Rightarrow> error + unit" where
  "crop_check cfg xyz =
     py_assert (asserts cfg) (Inr (set (rows all_points) = set (rows xyz))) CropCover"

text \<open>Lines 27--48: the write of line 45 happens before the check of line 48,
  so a failing check leaves the file written.\<close>

definition process_file :: "config \<Rightarrow> path \<Rightarrow> path \<Rightarrow> fs \<Rightarrow> fs outcome" where
  "process_file cfg phase_out f fs =
     (case build_record cfg phase_out fs f of
        Inl e \<Rightarrow> (Some e, fs)
      | Inr (out_f, processed, xyz) \<Rightarrow>
          then_outcome (lift_outcome (save_point_cloud fs processed out_f True) fs)
            (\<lambda>fs'. lift_outcome (ebind (crop_check cfg xyz) (\<lambda>_. Inr fs')) fs'))"

subsection \<open>The loops (lines 23--26)\<close>

text \<open>Line 26: the files of one subset, processed in discovery order; the first
  exception ends the run.\<close>

fun process_files :: "config \<Rightarrow> path \<Rightarrow> path list \<Rightarrow> fs \<Rightarrow> fs outcome" where
  "process_files cfg phase_out [] fs = (None, fs)"
| "process_files cfg phase_out (f # fls) fs =
     then_outcome (process_file cfg phase_out f fs) (process_files cfg phase_out fls)"

text \<open>Lines 24--26 for one entry of \<^verbatim>\<open>SUBSETS\<close>.\<close>

definition preprocess_subset :: "config \<Rightarrow> string \<times> string \<Rightarrow> fs \<Rightarrow> fs outcome" where
  "preprocess_subset cfg sub fs =
     (let phase_out = out_path cfg @ [fst sub] in
      then_outcome (lift_outcome (mkdir_parents fs phase_out) fs)
        (\<lambda>fs'. process_files cfg phase_out
                 (glob_star_dir fs' (raw_path cfg @ [snd sub]) POINTCLOUD_FILE) fs'))"

text \<open>Line 23: the subsets in order.\<close>

fun preprocess_all :: "config \<Rightarrow> (string \<times> string) list \<Rightarrow> fs \<Rightarrow> fs outcome" where
  "preprocess_all cfg [] fs = (None, fs)"
| "preprocess_all cfg (sub # subs) fs =
     then_outcome (preprocess_subset cfg sub fs) (preprocess_all cfg subs)"

definition preprocess :: "config \<Rightarrow> fs \<Rightarrow> fs outcome" where
  "preprocess cfg fs = preprocess_all cfg SUBSETS fs"

subsection \<open>A sample scan\<close>

text \<open>
  The spec's example (section 8): two points with constant alpha 128, their
  label file with the same coordinates and labels 5 and 7, stored as scene
  \<^verbatim>\<open>scene0000_00\<close> under the raw training root.
\<close>

definition ex_pc :: table where
  "ex_pc = \<lparr>ncols = 7, rows = [[0, 0, 0, 255, 0, 0, 128], [1, 1, 1, 0, 255, 0, 128]]\<rparr>"

definition ex_label :: table where
  "ex_label = \<lparr>ncols = 8, rows = [[0, 0, 0, 255, 0, 0, 128, 5], [1, 1, 1, 0, 255, 0, 128, 7]]\<rparr>"

text \<open>Faulty inputs: a label file with one point missing, one whose second point
  has moved, and a point cloud whose alpha column is not constant.\<close>

definition ex_label_short :: table where
  "ex_label_short = \<lparr>ncols = 8, rows = [[0, 0, 0, 255, 0, 0, 128, 5]]\<rparr>"

definition ex_label_moved :: table where
  "ex_label_moved = \<lparr>ncols = 8, rows = [[0, 0, 0, 255, 0, 0, 128, 5], [2, 1, 1, 0, 255, 0, 128, 7]]\<rparr>"

definition ex_pc_alpha :: table where
  "ex_pc_alpha = \<lparr>ncols = 7, rows = [[0, 0, 0, 255, 0, 0, 128], [1, 1, 1, 0, 255, 0, 200]]\<rparr>"

definition ex_scene_dir :: path where
  "ex_scene_dir = SCANNET_RAW_PATH @ [''scans'', ''scene0000_00'']"

definition ex_scan :: path where
  "ex_scan = ex_scene_dir @ [''scene0000_00_vh_clean_2.ply'']"

definition ex_label_path :: path where
  "ex_label_path = ex_scene_dir @ [''scene0000_00_vh_clean_2.labels.ply'']"

text \<open>A test scene, which has no label file.\<close>

definition ex_test_dir :: path where
  "ex_test_dir = SCANNET_RAW_PATH @ [''scans_test'', ''scene0707_00'']"

definition ex_test_scan :: path where
  "ex_test_scan = ex_test_dir @ [''scene0707_00_vh_clean_2.ply'']"

definition ex_fs :: fs where
  "ex_fs =
     [([''data''], Dir), ([''data'', ''chrischoy''], Dir),
      ([''data'', ''chrischoy'', ''datasets''], Dir), (SCANNET_RAW_PATH, Dir),
      (SCANNET_RAW_PATH @ [''scans''], Dir), (ex_scene_dir, Dir),
      (ex_scan, PlyFile False ex_pc), (ex_label_path, PlyFile False ex_label),
      (SCANNET_RAW_PATH @ [''scans_test''], Dir), (ex_test_dir, Dir),
      (ex_test_scan, PlyFile False ex_pc)]"

text \<open>The same tree once line 25 has created the training output directory.\<close>

definition ex_fs_ready :: fs where
  "ex_fs_ready = ex_fs @ [(SCANNET_OUT_PATH, Dir), (SCANNET_OUT_PATH @ [TRAIN_DEST], Dir)]"

subsection \<open>File names\<close>

lemmas record_builder_eval = label_path_def out_name_def POINTCLOUD_FILE_def all_points_def
  alpha_check_def load_label_def build_record_def crop_check_def process_file_def
  scannet_config_def SCANNET_RAW_PATH_def SCANNET_OUT_PATH_def SUBSETS_def TRAIN_DEST_def
  TEST_DEST_def

lemmas builder_eval = record_builder_eval pathlib_eval table_eval

lemmas sample_eval = ex_pc_def ex_label_def ex_scene_dir_def ex_scan_def ex_fs_def ex_fs_ready_def
  ex_label_short_def ex_label_moved_def ex_pc_alpha_def ex_label_path_def ex_test_dir_def
  ex_test_scan_def

lemma POINTCLOUD_FILE_split: "POINTCLOUD_FILE = ''_vh_clean_2'' @ CHR ''.'' # ''ply''"
  by (simp add: POINTCLOUD_FILE_def)

lemma rfind_dot_pointcloud: "rfind_dot (x @ POINTCLOUD_FILE) = Some (length x + 11)"
proof -
  have "rfind_dot ((x @ ''_vh_clean_2'') @ CHR ''.'' # ''ply'') = Some (length x + 11)"
    by (subst rfind_dot_last) simp_all
  then show ?thesis by (simp add: POINTCLOUD_FILE_split)
qed

lemma path_suffix_pointcloud: "path_suffix (x @ POINTCLOUD_FILE) = ''.ply''"
  by (simp add: path_suffix_def rfind_dot_pointcloud) (simp add: POINTCLOUD_FILE_def)

lemma path_stem_pointcloud: "path_stem (x @ POINTCLOUD_FILE) = x @ ''_vh_clean_2''"
  by (simp add: path_stem_def rfind_dot_pointcloud) (simp add: POINTCLOUD_FILE_def)

lemma out_name_pointcloud: "out_name (d @ [x @ POINTCLOUD_FILE]) = x @ ''.ply''"
  by (simp add: out_name_def name_def path_suffix_pointcloud)

lemma label_path_pointcloud:
  "label_path (d @ [x @ POINTCLOUD_FILE]) = d @ [x @ ''_vh_clean_2.labels.ply'']"
  by (simp add: label_path_def parent_def name_def path_suffix_pointcloud path_stem_pointcloud)

subsection \<open>The checks and the builder, step by step\<close>

lemma unique_size_one_nonempty: "unique_size v = 1 \<Longrightarrow> v \<noteq> []"
  by (auto simp: unique_size_def)

lemma alpha_check_pass:
  "0 < ncols pc \<Longrightarrow> unique_size (map last (rows pc)) = 1 \<Longrightarrow> alpha_check cfg pc = Inr ()"
  by (cases "asserts cfg") (simp_all add: alpha_check_def col_last_def)

lemma alpha_check_Inr:
  "asserts cfg \<Longrightarrow> alpha_check cfg pc = Inr u \<Longrightarrow>
     0 < ncols pc \<and> unique_size (map last (rows pc)) = 1"
  by (auto simp: alpha_check_def col_last_def split: if_splits)

lemma load_label_present:
  assumes "is_file fs (label_path f)" and "read_plyfile fs (label_path f) = Inr label"
    and "nrows pc = nrows label" and "allclose (cols_take 3 pc) (cols_take 3 label) = Inr True"
  shows "load_label cfg fs f pc = Inr label"
  using assms by (cases "asserts cfg") (simp_all add: load_label_def)

lemma load_label_absent: "\<not> is_file fs (label_path f) \<Longrightarrow> load_label cfg fs f pc = Inr (zeros_like pc)"
  by (simp add: load_label_def)

lemma build_record_eq:
  assumes "read_plyfile fs f = Inr pc" and "alpha_check cfg pc = Inr ()"
    and "load_label cfg fs f pc = Inr label" and "0 < ncols label" and "nrows pc = nrows label"
  shows "build_record cfg phase_out fs f =
           Inr (phase_out @ [out_name f],
                \<lparr>ncols = min 6 (ncols pc) + 1,
                 rows = map2 (\<lambda>r l. take 6 r @ [last l]) (rows pc) (rows label)\<rparr>,
                cols_take 3 pc)"
  using assms
  by (simp add: build_record_def col_last_def hstack_def column_vec_def cols_take_def nrows_def
      zip_map1 zip_map2 case_prod_beta)

lemma build_record_Inr:
  "build_record cfg phase_out fs f = Inr (out_f, processed, xyz) \<Longrightarrow>
     \<exists>pc. read_plyfile fs f = Inr pc \<and> alpha_check cfg pc = Inr () \<and> xyz = cols_take 3 pc
        \<and> out_f = phase_out @ [out_name f]"
  by (auto simp: build_record_def ebind_eq_Inr Let_def)

lemma process_file_build_error:
  "build_record cfg phase_out fs f = Inl e \<Longrightarrow> process_file cfg phase_out f fs = (Some e, fs)"
  by (simp add: process_file_def)

lemma process_file_built:
  "build_record cfg phase_out fs f = Inr (out_f, processed, xyz) \<Longrightarrow>
     process_file cfg phase_out f fs =
       (case save_point_cloud fs processed out_f True of
          Inl e \<Rightarrow> (Some e, fs)
        | Inr fs' \<Rightarrow> (case crop_check cfg xyz of Inl e \<Rightarrow> (Some e, fs') | Inr _ \<Rightarrow> (None, fs')))"
  by (simp add: process_file_def split: sum.split)

text \<open>The crop accumulator is empty, so the check of line 48 passes only for an
  empty point cloud.\<close>

lemma crop_check_fails:
  "asserts cfg \<Longrightarrow> rows xyz \<noteq> [] \<Longrightarrow> crop_check cfg xyz = Inl (AssertionError CropCover)"
  by (simp add: crop_check_def all_points_def)

lemma built_crop_fails:
  assumes "asserts cfg" and "build_record cfg phase_out fs f = Inr (out_f, processed, xyz)"
  shows "crop_check cfg xyz = Inl (AssertionError CropCover)"
proof -
  from build_record_Inr[OF assms(2)] obtain pc where
    a: "alpha_check cfg pc = Inr ()" and xyz: "xyz = cols_take 3 pc"
    by blast
  from alpha_check_Inr[OF assms(1) a] have "map last (rows pc) \<noteq> []"
    by (auto simp: unique_size_def)
  then have "rows xyz \<noteq> []" by (simp add: xyz cols_take_def)
  with assms(1) show ?thesis by (rule crop_check_fails)
qed

lemma wf_fs_process_file:
  assumes "wf_fs fs"
  shows "wf_fs (snd (process_file cfg phase_out f fs))"
proof (cases "build_record cfg phase_out fs f")
  case (Inl e)
  with assms show ?thesis by (simp add: process_file_build_error)
next
  case (Inr r)
  then obtain out_f processed xyz where b: "build_record cfg phase_out fs f = Inr (out_f, processed, xyz)"
    by (cases r) auto
  show ?thesis
  proof (cases "save_point_cloud fs processed out_f True")
    case (Inl e)
    with assms b show ?thesis by (simp add: process_file_built)
  next
    case (Inr fs')
    with assms have "wf_fs fs'" by (simp add: save_point_cloud_def wf_fs_write_file)
    with b Inr show ?thesis by (simp add: process_file_built split: sum.split)
  qed
qed

text \<open>Processing a file writes at most the one output path.\<close>

lemma process_file_frame:
  assumes "\<forall>n. q \<noteq> phase_out @ [n]"
  shows "map_of (snd (process_file cfg phase_out f fs)) q = map_of fs q"
proof (cases "build_record cfg phase_out fs f")
  case (Inl e)
  then show ?thesis by (simp add: process_file_build_error)
next
  case (Inr r)
  then obtain out_f processed xyz where b: "build_record cfg phase_out fs f = Inr (out_f, processed, xyz)"
    by (cases r) auto
  from build_record_Inr[OF b] assms have "q \<noteq> out_f" by auto
  with b show ?thesis
    by (auto simp: process_file_built save_point_cloud_def write_file_eq_Inr update_conv'
        split: sum.split)
qed

text \<open>With assertions on, the first file's exception ends whatever follows.\<close>

lemma process_file_stops:
  assumes "asserts cfg"
  shows "then_outcome (process_file cfg phase_out f fs) g = process_file cfg phase_out f fs"
proof (cases "build_record cfg phase_out fs f")
  case (Inl e)
  then show ?thesis by (simp add: process_file_build_error)
next
  case (Inr r)
  then obtain out_f processed xyz where b: "build_record cfg phase_out fs f = Inr (out_f, processed, xyz)"
    by (cases r) auto
  with built_crop_fails[OF assms b] show ?thesis
    by (simp add: process_file_built split: sum.split)
qed

lemma wf_fs_then_outcome:
  "wf_fs (snd r) \<Longrightarrow> (\<And>s. wf_fs s \<Longrightarrow> wf_fs (snd (g s))) \<Longrightarrow> wf_fs (snd (then_outcome r g))"
  by (cases r) (auto simp: then_outcome_def split: option.split)

lemma wf_fs_lift_outcome:
  "wf_fs s \<Longrightarrow> (\<And>s'. r = Inr s' \<Longrightarrow> wf_fs s') \<Longrightarrow> wf_fs (snd (lift_outcome r s))"
  by (cases r) auto

lemma wf_fs_process_files: "wf_fs fs \<Longrightarrow> wf_fs (snd (process_files cfg phase_out fls fs))"
  by (induction fls arbitrary: fs) (auto intro!: wf_fs_then_outcome wf_fs_process_file)

lemma wf_fs_preprocess_all: "wf_fs fs \<Longrightarrow> wf_fs (snd (preprocess_all cfg subs fs))"
proof (induction subs arbitrary: fs)
  case Nil
  then show ?case by simp
next
  case (Cons sub subs)
  have "wf_fs (snd (preprocess_subset cfg sub fs))"
    unfolding preprocess_subset_def Let_def
    using Cons.prems
    by (auto intro!: wf_fs_then_outcome wf_fs_lift_outcome wf_fs_process_files
        dest: mkdir_parents_Inr)
  then show ?case by (auto intro: wf_fs_then_outcome Cons.IH)
qed

text \<open>A file's processing leaves the tree as it was or has written one entry of
  the output directory.\<close>

lemma process_file_snd:
  "snd (process_file cfg phase_out f fs) = fs \<or>
   (\<exists>n e. snd (process_file cfg phase_out f fs) = AList.update (phase_out @ [n]) e fs)"
proof (cases "build_record cfg phase_out fs f")
  case (Inl e)
  then show ?thesis by (simp add: process_file_build_error)
next
  case (Inr r)
  then obtain out_f processed xyz where b: "build_record cfg phase_out fs f = Inr (out_f, processed, xyz)"
    by (cases r) auto
  from build_record_Inr[OF b] have "out_f = phase_out @ [out_name f]" by blast
  with b show ?thesis
    by (auto simp: process_file_built save_point_cloud_def write_file_eq_Inr split: sum.split)
qed

lemma process_file_keeps_glob:
  assumes "\<not> prefix base phase_out" and "\<not> prefix phase_out base"
  shows "glob_star_dir (snd (process_file cfg phase_out f fs)) base s = glob_star_dir fs base s"
proof -
  have "\<not> prefix base (phase_out @ [n])" for n
    using assms by (auto simp: prefix_snoc)
  with process_file_snd[of cfg phase_out f fs] show ?thesis
    by (auto simp: glob_star_dir_update)
qed

text \<open>The preprocessing pass never raises the assertion of line 64.\<close>

lemma alpha_check_not_TVD: "alpha_check cfg pc \<noteq> Inl (AssertionError TrainValDisjoint)"
  by (auto simp: alpha_check_def py_assert_def col_last_def split: if_splits)

lemma load_label_not_TVD: "load_label cfg fs f pc \<noteq> Inl (AssertionError TrainValDisjoint)"
  by (auto simp: load_label_def Let_def ebind_eq_Inl dest!: py_assert_Inl)

lemma build_record_not_TVD: "build_record cfg phase_out fs f \<noteq> Inl (AssertionError TrainValDisjoint)"
  by (auto simp: build_record_def Let_def ebind_eq_Inl alpha_check_not_TVD load_label_not_TVD)

lemma process_file_not_TVD:
  "fst (process_file cfg phase_out f fs) \<noteq> Some (AssertionError TrainValDisjoint)"
proof (cases "build_record cfg phase_out fs f")
  case (Inl e)
  then show ?thesis using build_record_not_TVD[of cfg phase_out fs f]
    by (simp add: process_file_build_error)
next
  case (Inr r)
  then obtain out_f processed xyz where b: "build_record cfg phase_out fs f = Inr (out_f, processed, xyz)"
    by (cases r) auto
  have "crop_check cfg xyz \<noteq> Inl (AssertionError TrainValDisjoint)"
    by (auto simp: crop_check_def dest!: py_assert_Inl)
  with b show ?thesis
    by (auto simp: process_file_built save_point_cloud_def split: sum.split)
qed

lemma then_outcome_not:
  "fst r \<noteq> Some e \<Longrightarrow> (\<And>s. fst (g s) \<noteq> Some e) \<Longrightarrow> fst (then_outcome r g) \<noteq> Some e"
  by (cases r) (auto simp: then_outcome_def split: option.split)

lemma preprocess_all_not_TVD:
  "fst (preprocess_all cfg subs fs) \<noteq> Some (AssertionError TrainValDisjoint)"
proof (induction subs arbitrary: fs)
  case Nil
  then show ?case by simp
next
  case (Cons sub subs)
  have files: "fst (process_files cfg po fls fs') \<noteq> Some (AssertionError TrainValDisjoint)" for po fls fs'
  proof (induction fls arbitrary: fs')
    case Nil
    then show ?case by simp
  next
    case (Cons f fls)
    show ?case
      unfolding process_files.simps by (rule then_outcome_not[OF process_file_not_TVD Cons.IH])
  qed
  have "fst (preprocess_subset cfg sub fs) \<noteq> Some (AssertionError TrainValDisjoint)"
    unfolding preprocess_subset_def Let_def
    by (rule then_outcome_not) (auto simp: lift_outcome_def files split: sum.split)
  then show ?case
    unfolding preprocess_all.simps by (rule then_outcome_not[OF _ Cons.IH])
qed

subsection \<open>Properties of the record builder\<close>

text \<open>
  C1: With a constant alpha column and a label file whose vertex count and
  coordinates agree with the geometry, the builder yields one output row per
  input point, holding the first six geometry columns followed by the label
  file's last column, and names the output after the input with
  \<^verbatim>\<open>_vh_clean_2\<close> stripped. This holds with and without \<^verbatim>\<open>-O\<close>.
\<close>

theorem build_record_labelled:
  assumes "read_plyfile fs f = Inr pc" and "0 < ncols pc"
    and "unique_size (map last (rows pc)) = 1"
    and "is_file fs (label_path f)" and "read_plyfile fs (label_path f) = Inr label"
    and "0 < ncols label" and "nrows pc = nrows label"
    and "allclose (cols_take 3 pc) (cols_take 3 label) = Inr True"
  shows "build_record cfg phase_out fs f =
           Inr (phase_out @ [out_name f],
                \<lparr>ncols = min 6 (ncols pc) + 1,
                 rows = map2 (\<lambda>r l. take 6 r @ [last l]) (rows pc) (rows label)\<rparr>,
                cols_take 3 pc)"
  using build_record_eq[OF assms(1) alpha_check_pass[OF assms(2,3)]
      load_label_present[OF assms(4,5,7,8)] assms(6,7)] .

theorem build_record_labelled_witness:
  "build_record scannet_config [''o''] ex_fs ex_scan =
     Inr ([''o'', ''scene0000_00.ply''],
          \<lparr>ncols = 7, rows = [[0, 0, 0, 255, 0, 0, 5], [1, 1, 1, 0, 255, 0, 7]]\<rparr>,
          \<lparr>ncols = 3, rows = [[0, 0, 0], [1, 1, 1]]\<rparr>)"
proof -
  have r: "read_plyfile ex_fs ex_scan = Inr ex_pc"
    and l: "read_plyfile ex_fs (label_path ex_scan) = Inr ex_label"
    and i: "is_file ex_fs (label_path ex_scan)"
    by (simp_all add: sample_eval builder_eval)
  have "unique_size (map last (rows ex_pc)) = 1"
    and "allclose (cols_take 3 ex_pc) (cols_take 3 ex_label) = Inr True"
    by (simp_all add: sample_eval table_eval)
  from build_record_labelled[OF r _ this(1) i l _ _ this(2), of scannet_config "[''o'']"]
  show ?thesis
    by (simp add: sample_eval builder_eval)
qed

text \<open>
  C2: When the label file is missing (the test scans), the builder still
  succeeds, and every output row carries the label 0.
\<close>

theorem build_record_unlabelled:
  assumes "read_plyfile fs f = Inr pc" and "0 < ncols pc"
    and "unique_size (map last (rows pc)) = 1" and "\<not> is_file fs (label_path f)"
  shows "build_record cfg phase_out fs f =
           Inr (phase_out @ [out_name f],
                \<lparr>ncols = min 6 (ncols pc) + 1, rows = map (\<lambda>r. take 6 r @ [0]) (rows pc)\<rparr>,
                cols_take 3 pc)"
proof -
  have "build_record cfg phase_out fs f =
          Inr (phase_out @ [out_name f],
               \<lparr>ncols = min 6 (ncols pc) + 1,
                rows = map2 (\<lambda>r l. take 6 r @ [last l]) (rows pc) (rows (zeros_like pc))\<rparr>,
               cols_take 3 pc)"
    using assms(2)
    by (intro build_record_eq[OF assms(1) alpha_check_pass[OF assms(2,3)] load_label_absent[OF assms(4)]])
      simp_all
  moreover have "map2 (\<lambda>r l. take 6 r @ [last l]) (rows pc) (rows (zeros_like pc))
                   = map (\<lambda>r. take 6 r @ [0]) (rows pc)"
    using assms(2) by (simp add: zeros_like_def nrows_def zip_replicate2)
  ultimately show ?thesis by simp
qed

theorem build_record_unlabelled_witness:
  "build_record scannet_config [''o''] ex_fs ex_test_scan =
     Inr ([''o'', ''scene0707_00.ply''],
          \<lparr>ncols = 7, rows = [[0, 0, 0, 255, 0, 0, 0], [1, 1, 1, 0, 255, 0, 0]]\<rparr>,
          \<lparr>ncols = 3, rows = [[0, 0, 0], [1, 1, 1]]\<rparr>)"
proof -
  have r: "read_plyfile ex_fs ex_test_scan = Inr ex_pc"
    and n: "\<not> is_file ex_fs (label_path ex_test_scan)"
    and u: "unique_size (map last (rows ex_pc)) = 1"
    by (simp_all add: sample_eval builder_eval)
  from build_record_unlabelled[OF r _ u n, of scannet_config "[''o'']"]
  show ?thesis by (simp add: sample_eval builder_eval)
qed

text \<open>
  C3: With assertions on, a label file whose vertex count differs from the
  geometry's stops the run at line 36, before anything is written.
\<close>

theorem process_file_point_count_error:
  assumes "asserts cfg" and "read_plyfile fs f = Inr pc" and "0 < ncols pc"
    and "unique_size (map last (rows pc)) = 1"
    and "is_file fs (label_path f)" and "read_plyfile fs (label_path f) = Inr label"
    and "nrows pc \<noteq> nrows label"
  shows "process_file cfg phase_out f fs = (Some (AssertionError PointCount), fs)"
proof -
  from assms(1,5,6,7) have "load_label cfg fs f pc = Inl (AssertionError PointCount)"
    by (simp add: load_label_def)
  with assms(2) alpha_check_pass[OF assms(3,4)]
  have "build_record cfg phase_out fs f = Inl (AssertionError PointCount)"
    by (simp add: build_record_def)
  then show ?thesis by (rule process_file_build_error)
qed

theorem process_file_point_count_error_witness:
  "process_file scannet_config [''o''] ex_scan (AList.update ex_label_path (PlyFile False ex_label_short) ex_fs)
     = (Some (AssertionError PointCount), AList.update ex_label_path (PlyFile False ex_label_short) ex_fs)"
proof -
  let ?fs = "AList.update ex_label_path (PlyFile False ex_label_short) ex_fs"
  have "asserts scannet_config" and "read_plyfile ?fs ex_scan = Inr ex_pc" and "0 < ncols ex_pc"
    and "unique_size (map last (rows ex_pc)) = 1" and "is_file ?fs (label_path ex_scan)"
    and "read_plyfile ?fs (label_path ex_scan) = Inr ex_label_short"
    and "nrows ex_pc \<noteq> nrows ex_label_short"
    by (simp_all add: sample_eval builder_eval)
  then show ?thesis by (rule process_file_point_count_error)
qed

text \<open>
  C4: With assertions on, a label file whose coordinates are not close to the
  geometry's stops the run at line 37, before anything is written.
\<close>

theorem process_file_coords_error:
  assumes "asserts cfg" and "read_plyfile fs f = Inr pc" and "0 < ncols pc"
    and "unique_size (map last (rows pc)) = 1"
    and "is_file fs (label_path f)" and "read_plyfile fs (label_path f) = Inr label"
    and "nrows pc = nrows label" and "allclose (cols_take 3 pc) (cols_take 3 label) = Inr False"
  shows "process_file cfg phase_out f fs = (Some (AssertionError CoordsClose), fs)"
proof -
  from assms(1,5-8) have "load_label cfg fs f pc = Inl (AssertionError CoordsClose)"
    by (simp add: load_label_def)
  with assms(2) alpha_check_pass[OF assms(3,4)]
  have "build_record cfg phase_out fs f = Inl (AssertionError CoordsClose)"
    by (simp add: build_record_def)
  then show ?thesis by (rule process_file_build_error)
qed

theorem process_file_coords_error_witness:
  "process_file scannet_config [''o''] ex_scan (AList.update ex_label_path (PlyFile False ex_label_moved) ex_fs)
     = (Some (AssertionError CoordsClose), AList.update ex_label_path (PlyFile False ex_label_moved) ex_fs)"
proof -
  let ?fs = "AList.update ex_label_path (PlyFile False ex_label_moved) ex_fs"
  have "asserts scannet_config" and "read_plyfile ?fs ex_scan = Inr ex_pc" and "0 < ncols ex_pc"
    and "unique_size (map last (rows ex_pc)) = 1" and "is_file ?fs (label_path ex_scan)"
    and "read_plyfile ?fs (label_path ex_scan) = Inr ex_label_moved"
    and "nrows ex_pc = nrows ex_label_moved"
    by (simp_all add: sample_eval builder_eval)
  moreover have "allclose (cols_take 3 ex_pc) (cols_take 3 ex_label_moved) = Inr False"
    by code_simp
  ultimately show ?thesis by (rule process_file_coords_error)
qed

text \<open>
  C5: With assertions on, a point cloud whose alpha column holds more than one
  value stops the run at line 30, before anything is written (the spec's
  alpha \<open>[128, 200]\<close> scenario).
\<close>

theorem process_file_alpha_error:
  assumes "asserts cfg" and "read_plyfile fs f = Inr pc" and "0 < ncols pc"
    and "unique_size (map last (rows pc)) \<noteq> 1"
  shows "process_file cfg phase_out f fs = (Some (AssertionError AlphaConstant), fs)"
proof -
  from assms(1,3,4) have "alpha_check cfg pc = Inl (AssertionError AlphaConstant)"
    by (simp add: alpha_check_def col_last_def)
  with assms(2) have "build_record cfg phase_out fs f = Inl (AssertionError AlphaConstant)"
    by (simp add: build_record_def)
  then show ?thesis by (rule process_file_build_error)
qed

theorem process_file_alpha_error_witness:
  "process_file scannet_config [''o''] ex_scan (AList.update ex_scan (PlyFile False ex_pc_alpha) ex_fs)
     = (Some (AssertionError AlphaConstant), AList.update ex_scan (PlyFile False ex_pc_alpha) ex_fs)"
proof -
  let ?fs = "AList.update ex_scan (PlyFile False ex_pc_alpha) ex_fs"
  have "asserts scannet_config" and "read_plyfile ?fs ex_scan = Inr ex_pc_alpha"
    and "0 < ncols ex_pc_alpha" and "unique_size (map last (rows ex_pc_alpha)) \<noteq> 1"
    by (simp_all add: sample_eval builder_eval)
  then show ?thesis by (rule process_file_alpha_error)
qed

text \<open>
  C6: With assertions on, processing a file never finishes normally: it
  raises either before writing or, once the record is built, at the crop
  check of line 48, whose accumulator \<^verbatim>\<open>all_points\<close> is always empty while
  a point cloud that passed the alpha check has at least one point.
\<close>

theorem process_file_always_raises:
  assumes "asserts cfg"
  shows "fst (process_file cfg phase_out f fs) \<noteq> None"
proof (cases "build_record cfg phase_out fs f")
  case (Inl e)
  then show ?thesis by (simp add: process_file_build_error)
next
  case (Inr r)
  then obtain out_f processed xyz where b: "build_record cfg phase_out fs f = Inr (out_f, processed, xyz)"
    by (cases r) auto
  with built_crop_fails[OF assms b] show ?thesis
    by (simp add: process_file_built split: sum.split)
qed

theorem process_file_always_raises_witness:
  "fst (process_file scannet_config (SCANNET_OUT_PATH @ [TRAIN_DEST]) ex_scan ex_fs_ready) \<noteq> None"
proof -
  have "asserts scannet_config" by (simp add: scannet_config_def)
  then show ?thesis by (rule process_file_always_raises)
qed

text \<open>
  C7: With assertions on, once the record is built and the write of line 45
  succeeds, the run stops at line 48 but the processed file stays written:
  the output tree keeps a file of the run that then aborted.
\<close>

theorem process_file_writes_before_raise:
  assumes "asserts cfg" and "build_record cfg phase_out fs f = Inr (out_f, processed, xyz)"
    and "save_point_cloud fs processed out_f True = Inr fs'"
  shows "process_file cfg phase_out f fs = (Some (AssertionError CropCover), fs') \<and>
         map_of fs' out_f = Some (PlyFile True processed)"
  using built_crop_fails[OF assms(1,2)] assms(2,3)
  by (simp add: process_file_built save_point_cloud_def map_of_write_file)

theorem process_file_writes_before_raise_witness:
  "process_file scannet_config (SCANNET_OUT_PATH @ [TEST_DEST]) ex_test_scan
       (ex_fs @ [(SCANNET_OUT_PATH, Dir), (SCANNET_OUT_PATH @ [TEST_DEST], Dir)])
     = (Some (AssertionError CropCover),
        ex_fs @ [(SCANNET_OUT_PATH, Dir), (SCANNET_OUT_PATH @ [TEST_DEST], Dir),
                 (SCANNET_OUT_PATH @ [TEST_DEST, ''scene0707_00.ply''],
                  PlyFile True \<lparr>ncols = 7, rows = [[0, 0, 0, 255, 0, 0, 0], [1, 1, 1, 0, 255, 0, 0]]\<rparr>)])
   \<and> map_of (ex_fs @ [(SCANNET_OUT_PATH, Dir), (SCANNET_OUT_PATH @ [TEST_DEST], Dir),
                 (SCANNET_OUT_PATH @ [TEST_DEST, ''scene0707_00.ply''],
                  PlyFile True \<lparr>ncols = 7, rows = [[0, 0, 0, 255, 0, 0, 0], [1, 1, 1, 0, 255, 0, 0]]\<rparr>)])
       (SCANNET_OUT_PATH @ [TEST_DEST, ''scene0707_00.ply''])
     = Some (PlyFile True \<lparr>ncols = 7, rows = [[0, 0, 0, 255, 0, 0, 0], [1, 1, 1, 0, 255, 0, 0]]\<rparr>)"
proof -
  let ?fs = "ex_fs @ [(SCANNET_OUT_PATH, Dir), (SCANNET_OUT_PATH @ [TEST_DEST], Dir)]"
  let ?t = "\<lparr>ncols = 7, rows = [[0, 0, 0, 255, 0, 0, 0], [1, 1, 1, 0, 255, 0, 0 :: real]]\<rparr>"
  let ?o = "SCANNET_OUT_PATH @ [TEST_DEST, ''scene0707_00.ply'']"
  have a: "asserts scannet_config" by (simp add: scannet_config_def)
  have b: "build_record scannet_config (SCANNET_OUT_PATH @ [TEST_DEST]) ?fs ex_test_scan
             = Inr (?o, ?t, \<lparr>ncols = 3, rows = [[0, 0, 0], [1, 1, 1]]\<rparr>)"
    by (simp add: sample_eval builder_eval)
  have s: "save_point_cloud ?fs ?t ?o True = Inr (?fs @ [(?o, PlyFile True ?t)])"
    by (simp add: sample_eval builder_eval)
  from process_file_writes_before_raise[OF a b s] show ?thesis by simp
qed

text \<open>
  C8: Under \<^verbatim>\<open>python -O\<close> none of the checks run: a built record is written
  and processing continues normally.
\<close>

theorem process_file_unchecked:
  assumes "\<not> asserts cfg" and "build_record cfg phase_out fs f = Inr (out_f, processed, xyz)"
    and "save_point_cloud fs processed out_f True = Inr fs'"
  shows "process_file cfg phase_out f fs = (None, fs')"
  using assms by (simp add: process_file_built crop_check_def)

theorem process_file_unchecked_witness:
  "process_file (scannet_config\<lparr>asserts := False\<rparr>) (SCANNET_OUT_PATH @ [TRAIN_DEST]) ex_scan ex_fs_ready =
     (None, ex_fs_ready @ [(SCANNET_OUT_PATH @ [TRAIN_DEST, ''scene0000_00.ply''],
                            PlyFile True \<lparr>ncols = 7, rows = [[0, 0, 0, 255, 0, 0, 5], [1, 1, 1, 0, 255, 0, 7]]\<rparr>)])"
proof -
  let ?c = "scannet_config\<lparr>asserts := False\<rparr>"
  let ?t = "\<lparr>ncols = 7, rows = [[0, 0, 0, 255, 0, 0, 5], [1, 1, 1, 0, 255, 0, 7 :: real]]\<rparr>"
  let ?o = "SCANNET_OUT_PATH @ [TRAIN_DEST, ''scene0000_00.ply'']"
  have a: "\<not> asserts ?c" by simp
  have b: "build_record ?c (SCANNET_OUT_PATH @ [TRAIN_DEST]) ex_fs_ready ex_scan
             = Inr (?o, ?t, \<lparr>ncols = 3, rows = [[0, 0, 0], [1, 1, 1]]\<rparr>)"
    by (simp add: sample_eval builder_eval)
  have s: "save_point_cloud ex_fs_ready ?t ?o True = Inr (ex_fs_ready @ [(?o, PlyFile True ?t)])"
    by (simp add: sample_eval builder_eval)
  show ?thesis by (rule process_file_unchecked[OF a b s])
qed

text \<open>
  C9: For a discovered scan \<open>d/x_vh_clean_2.ply\<close>, line 32 consults the label
  file \<open>d/x_vh_clean_2.labels.ply\<close> and line 43 names the output \<open>x.ply\<close>.
\<close>

theorem scan_file_names:
  "label_path (d @ [x @ POINTCLOUD_FILE]) = d @ [x @ ''_vh_clean_2.labels.ply''] \<and>
   out_name (d @ [x @ POINTCLOUD_FILE]) = x @ ''.ply''"
  by (simp add: label_path_pointcloud out_name_pointcloud)

end
