(* ===== verification/Scene_Partition.thy ===== *)
theory Scene_Partition
  imports Record_Builder "HOL-Library.Multiset"
begin

text \<open>
  The train/validation split of \<^verbatim>\<open>scannet.py\<close> (lines 50--60). The names
  of the processed training files are listed, each name's scene id is the text
  before its first underscore, the distinct ids are shuffled, the first
  \<^verbatim>\<open>num_train\<close> of them go to training and the rest to validation, and a file
  joins a list when any of that list's scene ids occurs in its name as a
  substring. The unseeded \<^verbatim>\<open>random.shuffle\<close> is not a function of its
  input: the partition takes the shuffled list as an argument, and the
  theorems hold for every permutation of the distinct ids (the order
  \<^verbatim>\<open>list(set(...))\<close> produces is itself arbitrary and is absorbed into it).
\<close>

subsection \<open>Definitions\<close>

text \<open>Line 52: \<^verbatim>\<open>f.split('_')[0]\<close>.\<close>

definition scene_id :: "string \<Rightarrow> string" where
  "scene_id f = takeWhile (\<lambda>c. c \<noteq> CHR ''_'') f"

text \<open>Line 51: the names of the entries of \<^verbatim>\<open>out/train\<close> matching \<^verbatim>\<open>*.ply\<close>.\<close>

definition trainval_files :: "config \<Rightarrow> fs \<Rightarrow> string list" where
  "trainval_files cfg fs = map name (glob_flat fs (out_path cfg @ [TRAIN_DEST]) ''.ply'')"

text \<open>Line 52 before the shuffle: the distinct scene ids.\<close>

definition trainval_scenes :: "string list \<Rightarrow> string list" where
  "trainval_scenes files = remdups (map scene_id files)"

text \<open>Lines 54--56: \<^verbatim>\<open>num_train = int(len(trainval_scenes))\<close> and the two slices.\<close>

definition split_scenes :: "string list \<Rightarrow> string list \<times> string list" where
  "split_scenes scenes =
     (let num_train = length scenes in (take num_train scenes, drop num_train scenes))"

text \<open>Lines 59--60: \<^verbatim>\<open>[f'{TRAIN_DEST}/{f}' for f in files if any(s in f for s in scenes)]\<close>.\<close>

definition select_files :: "string list \<Rightarrow> string list \<Rightarrow> string list" where
  "select_files scenes files =
     map (\<lambda>f. TRAIN_DEST @ ''/'' @ f) (filter (\<lambda>f. list_ex (\<lambda>s. py_in s f) scenes) files)"

text \<open>Lines 55--60 from the shuffled scene list: the train and validation lists.\<close>

definition partition_files :: "string list \<Rightarrow> string list \<Rightarrow> string list \<times> string list" where
  "partition_files shuffled files =
     (let (train_scenes, val_scenes) = split_scenes shuffled
      in (select_files train_scenes files, select_files val_scenes files))"

subsection \<open>Lemmas\<close>

lemma scene_id_prefix: "prefix (scene_id f) f"
  by (simp add: scene_id_def prefix_def) (metis takeWhile_dropWhile_id)

lemma scene_id_in_name: "py_in (scene_id f) f"
  by (rule py_in_prefix[OF scene_id_prefix])

lemma scene_id_of:
  assumes "CHR ''_'' \<notin> set s"
  shows "scene_id (s @ CHR ''_'' # r) = s"
proof -
  have "takeWhile (\<lambda>c. c \<noteq> CHR ''_'') (s @ CHR ''_'' # r)
          = s @ takeWhile (\<lambda>c. c \<noteq> CHR ''_'') (CHR ''_'' # r)"
    by (rule takeWhile_append2) (use assms in auto)
  then show ?thesis by (simp add: scene_id_def)
qed

lemma split_scenes_all: "split_scenes scenes = (scenes, [])"
  by (simp add: split_scenes_def)

lemma select_files_Nil [simp]: "select_files [] files = []"
  by (simp add: select_files_def)

lemma select_files_all:
  assumes "\<forall>f \<in> set files. scene_id f \<in> set scenes"
  shows "select_files scenes files = map (\<lambda>f. TRAIN_DEST @ ''/'' @ f) files"
proof -
  have "filter (\<lambda>f. list_ex (\<lambda>s. py_in s f) scenes) files = files"
    unfolding filter_id_conv list_ex_iff using assms scene_id_in_name by blast
  then show ?thesis by (simp add: select_files_def)
qed

lemma set_trainval_scenes: "set (trainval_scenes files) = scene_id ` set files"
  by (simp add: trainval_scenes_def)

text \<open>Selecting with any permutation of the scene ids keeps every file.\<close>

lemma select_files_perm:
  assumes "mset shuffled = mset (trainval_scenes files)"
  shows "select_files shuffled files = map (\<lambda>f. TRAIN_DEST @ ''/'' @ f) files"
proof -
  from assms have "set shuffled = scene_id ` set files"
    by (metis set_mset_mset set_trainval_scenes)
  then show ?thesis by (simp add: select_files_all)
qed

subsection \<open>Properties of the split\<close>

text \<open>
  C10: Whatever order the shuffle produces, \<^verbatim>\<open>num_train\<close> is the number of
  scenes, so every scene goes to training and the validation list is empty.
\<close>

theorem partition_all_train:
  "partition_files shuffled files = (select_files shuffled files, [])"
  by (simp add: partition_files_def split_scenes_all)

text \<open>
  C11: For any permutation of the distinct scene ids, the training list is
  every processed training file, in listing order, prefixed by \<^verbatim>\<open>train/\<close>:
  each name contains its own scene id.
\<close>

theorem partition_train_lists_all:
  assumes "mset shuffled = mset (trainval_scenes files)"
  shows "fst (partition_files shuffled files) = map (\<lambda>f. TRAIN_DEST @ ''/'' @ f) files"
  using select_files_perm[OF assms] by (simp add: partition_files_def split_scenes_all)

theorem partition_train_lists_all_witness:
  "fst (partition_files [''scene0001'', ''scene0000'']
          [''scene0000_00.ply'', ''scene0000_01.ply'', ''scene0001_00.ply''])
     = [''train/scene0000_00.ply'', ''train/scene0000_01.ply'', ''train/scene0001_00.ply'']"
proof -
  have "mset [''scene0001'', ''scene0000''] =
          mset (trainval_scenes [''scene0000_00.ply'', ''scene0000_01.ply'', ''scene0001_00.ply''])"
    by (simp add: trainval_scenes_def scene_id_def)
  from partition_train_lists_all[OF this] show ?thesis by (simp add: TRAIN_DEST_def)
qed

text \<open>
  The spec says the train and validation lists are disjoint for any split
  ratio. With the substring test of lines 59--60 they are not: splitting the
  scenes \<^verbatim>\<open>scene1\<close>, \<^verbatim>\<open>scene10\<close> one to each side puts
  \<^verbatim>\<open>scene10_00.ply\<close> in both lists, since it contains \<^verbatim>\<open>scene1\<close>.
\<close>

theorem substring_split_overlaps:
  "trainval_scenes [''scene1_00.ply'', ''scene10_00.ply''] = [''scene1'', ''scene10''] \<and>
   set (select_files [''scene1''] [''scene1_00.ply'', ''scene10_00.ply'']) \<inter>
   set (select_files [''scene10''] [''scene1_00.ply'', ''scene10_00.ply'']) = {''train/scene10_00.ply''}"
  by (simp add: trainval_scenes_def scene_id_def select_files_def TRAIN_DEST_def)

end
