(* ===== verification/Manifest_Writer.thy ===== *)
theory Manifest_Writer
  imports Scene_Partition
begin

text \<open>
  The end of \<^verbatim>\<open>scannet.py\<close> (lines 61--75): the test file list, the sanity
  asserts over the three lists (disjoint train and validation lists, every
  listed path an existing file under the output root), and the three manifests
  \<^verbatim>\<open>train.txt\<close>, \<^verbatim>\<open>val.txt\<close>, \<^verbatim>\<open>test.txt\<close>, one path per line. A listed
  path is a string such as \<^verbatim>\<open>train/x.ply\<close>; \<^verbatim>\<open>SCANNET_OUT_PATH / f\<close> splits
  it at slashes the way \<^verbatim>\<open>pathlib\<close> does. The manifest is read back by the
  training code one entry per line; \<open>read_manifest\<close> models that reader.
\<close>

subsection \<open>Definitions\<close>

text \<open>\<^verbatim>\<open>p / s\<close>: an absolute string replaces the base.\<close>

definition join_str :: "path \<Rightarrow> string \<Rightarrow> path" where
  "join_str p s = (if take 1 s = ''/'' then path_parts s else p @ path_parts s)"

text \<open>Line 61.\<close>

definition test_files :: "config \<Rightarrow> fs \<Rightarrow> string list" where
  "test_files cfg fs =
     map (\<lambda>f. TEST_DEST @ ''/'' @ name f) (glob_flat fs (out_path cfg @ [TEST_DEST]) ''.ply'')"

text \<open>Lines 65--67: \<^verbatim>\<open>all((SCANNET_OUT_PATH / f).is_file() for f in files)\<close>.\<close>

definition all_listed :: "config \<Rightarrow> fs \<Rightarrow> string list \<Rightarrow> bool" where
  "all_listed cfg fs files = list_all (\<lambda>f. is_file fs (join_str (out_path cfg) f)) files"

text \<open>Lines 63--67, in order.\<close>

definition sanity_checks :: "config \<Rightarrow> fs \<Rightarrow> string list \<Rightarrow> string list \<Rightarrow> string list \<Rightarrow> error + unit" where
  "sanity_checks cfg fs train val test =
     ebind (py_assert (asserts cfg) (Inr (set train \<inter> set val = {})) TrainValDisjoint) (\<lambda>_.
     ebind (py_assert (asserts cfg) (Inr (all_listed cfg fs train)) TrainListed) (\<lambda>_.
     ebind (py_assert (asserts cfg) (Inr (all_listed cfg fs val)) ValListed) (\<lambda>_.
     py_assert (asserts cfg) (Inr (all_listed cfg fs test)) TestListed)))"

text \<open>\<^verbatim>\<open>f.writelines([f + '\n' for f in files])\<close>.\<close>

definition manifest_text :: "string list \<Rightarrow> string" where
  "manifest_text files = concat (map (\<lambda>f. f @ ''\<newline>'') files)"

text \<open>Lines 69--75: three writes in order; a failing \<^verbatim>\<open>open\<close> leaves the
  earlier manifests written.\<close>

definition write_manifests :: "config \<Rightarrow> string list \<Rightarrow> string list \<Rightarrow> string list \<Rightarrow> fs \<Rightarrow> fs outcome" where
  "write_manifests cfg train val test fs =
     then_outcome (lift_outcome (write_text fs (out_path cfg @ [''train.txt'']) (manifest_text train)) fs)
       (\<lambda>fs1. then_outcome (lift_outcome (write_text fs1 (out_path cfg @ [''val.txt'']) (manifest_text val)) fs1)
         (\<lambda>fs2. lift_outcome (write_text fs2 (out_path cfg @ [''test.txt'']) (manifest_text test)) fs2))"

text \<open>The reader of a manifest: the lines before the final newline.\<close>

definition read_manifest :: "string \<Rightarrow> string list" where
  "read_manifest s = butlast (split_on CHR ''\<newline>'' s)"

subsection \<open>Lemmas\<close>

text \<open>A relative entry \<open>d/n\<close> with plain names lands on \<open>p/d/n\<close>.\<close>

lemma join_str_entry:
  assumes "CHR ''/'' \<notin> set d" and "d \<noteq> []" and "d \<noteq> ''.''"
    and "CHR ''/'' \<notin> set n" and "n \<noteq> []" and "n \<noteq> ''.''"
  shows "join_str p (d @ ''/'' @ n) = p @ [d, n]"
proof -
  have "split_on CHR ''/'' (d @ CHR ''/'' # n) = [d, n]"
    using assms by (simp add: split_on_sep split_on_no_sep)
  moreover have "take 1 (d @ ''/'' @ n) \<noteq> ''/''"
    using assms(1,2) by (cases d) auto
  ultimately show ?thesis using assms by (simp add: join_str_def path_parts_def)
qed

lemma wf_fs_write_manifests: "wf_fs fs \<Longrightarrow> wf_fs (snd (write_manifests cfg train val test fs))"
  unfolding write_manifests_def write_text_def
  by (auto intro!: wf_fs_then_outcome wf_fs_lift_outcome elim: wf_fs_write_file)

text \<open>With an empty validation list the disjointness assert of line 64 holds,
  and writing the manifests raises only \<^verbatim>\<open>OSError\<close>s.\<close>

lemma sanity_checks_no_val_not_TVD:
  "sanity_checks cfg fs train [] test \<noteq> Inl (AssertionError TrainValDisjoint)"
  by (auto simp: sanity_checks_def ebind_eq_Inl dest!: py_assert_Inl)

lemma write_manifests_not_assert:
  "fst (write_manifests cfg train val test fs) \<noteq> Some (AssertionError s)"
  unfolding write_manifests_def write_text_def
  by (intro then_outcome_not fst_lift_outcome_not write_file_not_assert)

lemma suffix_ply_name: "suffix ''.ply'' n \<Longrightarrow> n \<noteq> [] \<and> n \<noteq> ''.''"
  by (auto simp: suffix_def)

lemma trainval_files_eq:
  "trainval_files cfg fs = filter (suffix ''.ply'') (children fs (out_path cfg @ [TRAIN_DEST]))"
  by (simp add: trainval_files_def glob_flat_def name_def comp_def)

text \<open>A training entry \<^verbatim>\<open>train/n\<close> resolves to \<open>out/train/n\<close>.\<close>

lemma join_train_entry:
  assumes "suffix ''.ply'' n" and "CHR ''/'' \<notin> set n"
  shows "join_str p (TRAIN_DEST @ ''/'' @ n) = p @ [TRAIN_DEST, n]"
  using assms suffix_ply_name[OF assms(1)] by (intro join_str_entry) (simp_all add: TRAIN_DEST_def)

text \<open>After three successful writes the manifests hold the three texts.\<close>

lemma write_manifests_None:
  assumes "write_manifests cfg train val test fs = (None, fs')"
  shows "map_of fs' (out_path cfg @ [''train.txt'']) = Some (TextFile (manifest_text train)) \<and>
         map_of fs' (out_path cfg @ [''val.txt'']) = Some (TextFile (manifest_text val)) \<and>
         map_of fs' (out_path cfg @ [''test.txt'']) = Some (TextFile (manifest_text test))"
proof -
  from assms obtain fs1 fs2 where
    w1: "write_text fs (out_path cfg @ [''train.txt'']) (manifest_text train) = Inr fs1" and
    w2: "write_text fs1 (out_path cfg @ [''val.txt'']) (manifest_text val) = Inr fs2" and
    w3: "write_text fs2 (out_path cfg @ [''test.txt'']) (manifest_text test) = Inr fs'"
    by (auto simp: write_manifests_def lift_outcome_def then_outcome_None split: sum.splits)
  from w1 w2 w3 show ?thesis
    by (simp add: write_text_def map_of_write_file)
qed

text \<open>In an existing output directory the three writes succeed exactly when
  none of the three names is taken by a directory.\<close>

lemma write_manifests_ok_iff:
  assumes "wf_fs fs" and "is_dir fs (out_path cfg)"
  shows "fst (write_manifests cfg train val test fs) = None \<longleftrightarrow>
           \<not> is_dir fs (out_path cfg @ [''train.txt'']) \<and> \<not> is_dir fs (out_path cfg @ [''val.txt'']) \<and>
           \<not> is_dir fs (out_path cfg @ [''test.txt''])"
  using assms
  by (simp add: write_manifests_def write_text_def write_file_in_dir wf_fs_update_in_dir is_dir_update_file)

text \<open>When \<^verbatim>\<open>val.txt\<close> is a directory, the first write succeeds and the
  second raises: \<^verbatim>\<open>train.txt\<close> is written, nothing else changes.\<close>

lemma write_manifests_val_dir:
  assumes wf: "wf_fs fs" and d: "is_dir fs (out_path cfg)"
    and t: "\<not> is_dir fs (out_path cfg @ [''train.txt''])" and v: "is_dir fs (out_path cfg @ [''val.txt''])"
  shows "write_manifests cfg train val test fs =
           (Some (IsADirectoryError (out_path cfg @ [''val.txt''])),
            AList.update (out_path cfg @ [''train.txt'']) (TextFile (manifest_text train)) fs)"
proof -
  let ?fs1 = "AList.update (out_path cfg @ [''train.txt'']) (TextFile (manifest_text train)) fs"
  have wf1: "wf_fs ?fs1" by (rule wf_fs_update_in_dir[OF wf d t])
  have d1: "is_dir ?fs1 (out_path cfg)" and v1: "is_dir ?fs1 (out_path cfg @ [''val.txt''])"
    using d v by (simp_all add: is_dir_update_file)
  show ?thesis
    using t v1 by (simp add: write_manifests_def write_text_def write_file_in_dir[OF wf d]
        write_file_in_dir[OF wf1 d1])
qed

subsection \<open>Properties of the manifests\<close>

text \<open>
  C12: A manifest read back line by line gives exactly the list that was
  written, in order, when no listed path contains a newline.
\<close>

theorem manifest_roundtrip:
  assumes "\<forall>f \<in> set files. CHR ''\<newline>'' \<notin> set f"
  shows "read_manifest (manifest_text files) = files"
  using assms
proof (induction files)
  case Nil
  then show ?case by (simp add: read_manifest_def manifest_text_def)
next
  case (Cons f files)
  then have "split_on CHR ''\<newline>'' (manifest_text (f # files))
               = f # split_on CHR ''\<newline>'' (manifest_text files)"
    by (simp add: manifest_text_def split_on_sep)
  with Cons show ?case by (simp add: read_manifest_def)
qed

theorem manifest_roundtrip_witness:
  "read_manifest (manifest_text [''train/scene0000_00.ply'', ''train/scene0001_00.ply''])
     = [''train/scene0000_00.ply'', ''train/scene0001_00.ply'']"
proof -
  have "\<forall>f \<in> set [''train/scene0000_00.ply'', ''train/scene0001_00.ply'']. CHR ''\<newline>'' \<notin> set f"
    by simp
  then show ?thesis by (rule manifest_roundtrip)
qed

text \<open>
  C15: The listed-path assert of line 65 holds exactly when every entry of
  the training output directory that matches \<^verbatim>\<open>*.ply\<close> is a file: the glob
  of line 51 also returns directories, and those fail \<^verbatim>\<open>is_file\<close>.
\<close>

theorem train_listed_iff_files:
  assumes "\<forall>n \<in> set (trainval_files cfg fs). CHR ''/'' \<notin> set n"
  shows "all_listed cfg fs (map (\<lambda>n. TRAIN_DEST @ ''/'' @ n) (trainval_files cfg fs)) \<longleftrightarrow>
         (\<forall>p \<in> set (glob_flat fs (out_path cfg @ [TRAIN_DEST]) ''.ply''). is_file fs p)"
proof -
  have "join_str (out_path cfg) (TRAIN_DEST @ ''/'' @ n) = out_path cfg @ [TRAIN_DEST, n]"
    if "n \<in> set (trainval_files cfg fs)" for n
    using that assms by (intro join_train_entry) (auto simp: trainval_files_eq)
  then show ?thesis
    by (auto simp: all_listed_def list_all_iff glob_flat_def trainval_files_eq)
qed

theorem train_listed_iff_files_witness:
  "all_listed scannet_config
     (ex_fs_ready @ [(SCANNET_OUT_PATH @ [TRAIN_DEST, ''scene0000_00.ply''], PlyFile True ex_pc)])
     (map (\<lambda>n. TRAIN_DEST @ ''/'' @ n)
        (trainval_files scannet_config
           (ex_fs_ready @ [(SCANNET_OUT_PATH @ [TRAIN_DEST, ''scene0000_00.ply''], PlyFile True ex_pc)])))"
proof -
  let ?fs = "ex_fs_ready @ [(SCANNET_OUT_PATH @ [TRAIN_DEST, ''scene0000_00.ply''], PlyFile True ex_pc)]"
  have h: "\<forall>n \<in> set (trainval_files scannet_config ?fs). CHR ''/'' \<notin> set n"
    by (simp add: trainval_files_def builder_eval sample_eval)
  have "\<forall>p \<in> set (glob_flat ?fs (out_path scannet_config @ [TRAIN_DEST]) ''.ply''). is_file ?fs p"
    by (simp add: builder_eval sample_eval)
  with train_listed_iff_files[OF h] show ?thesis by blast
qed

end
