(* ===== verification/Pathlib_Glob.thy ===== *)
theory Pathlib_Glob
  imports Pathlib_FS
begin

text \<open>
  \<^verbatim>\<open>Path.glob(pattern)\<close> in general, as the label bug-fix pass of
  \<^verbatim>\<open>scannet.py\<close> (lines 78--79) calls it with patterns of two components such
  as \<^verbatim>\<open>train/scene0270_00_*.ply\<close>. The pattern is split into components the
  way \<^verbatim>\<open>pathlib\<close> parses a path; each component is matched against the names
  of a directory listing with \<^verbatim>\<open>fnmatch\<close> on POSIX (case-sensitive,
  \<^verbatim>\<open>*\<close> any string, \<^verbatim>\<open>?\<close> one character, hidden names included); a
  component that is followed by another selects directories only. Character
  classes \<^verbatim>\<open>[...]\<close> are not modelled: no pattern of the script has one.
  The two globs of lines 26 and 51, modelled directly in \<open>Pathlib_FS\<close>, are
  shown to be instances of this one.
\<close>

subsection \<open>Definitions\<close>

text \<open>\<^verbatim>\<open>fnmatch.fnmatchcase(name, pat)\<close> for patterns without \<^verbatim>\<open>[\<close>.\<close>

fun fnmatch :: "string \<Rightarrow> string \<Rightarrow> bool" where
  "fnmatch [] n = (n = [])"
| "fnmatch (c # p) [] = (c = CHR ''*'' \<and> fnmatch p [])"
| "fnmatch (c # p) (d # n) =
     (if c = CHR ''*'' then fnmatch p (d # n) \<or> fnmatch (c # p) n
      else (c = CHR ''?'' \<or> c = d) \<and> fnmatch p n)"

text \<open>The selectors of \<^verbatim>\<open>pathlib\<close>, one per pattern component, in listing order.\<close>

fun glob_parts :: "fs \<Rightarrow> path \<Rightarrow> string list \<Rightarrow> path list" where
  "glob_parts fs d [] = [d]"
| "glob_parts fs d (c # cs) =
     concat (map (\<lambda>n. glob_parts fs (d @ [n]) cs)
       (filter (\<lambda>n. fnmatch c n \<and> (cs = [] \<or> is_dir fs (d @ [n]))) (children fs d)))"

definition glob :: "fs \<Rightarrow> path \<Rightarrow> string \<Rightarrow> path list" where
  "glob fs d pat = glob_parts fs d (path_parts pat)"

text \<open>A pattern component with no wildcard character.\<close>

definition literal :: "string \<Rightarrow> bool" where
  "literal s \<longleftrightarrow> CHR ''*'' \<notin> set s \<and> CHR ''?'' \<notin> set s"

subsection \<open>Matching\<close>

lemma fnmatch_literal_append:
  assumes "literal s"
  shows "fnmatch (s @ p) n \<longleftrightarrow> prefix s n \<and> fnmatch p (drop (length s) n)"
  using assms
proof (induction s arbitrary: n)
  case Nil
  then show ?case by simp
next
  case (Cons c s)
  then show ?case by (cases n) (auto simp: literal_def)
qed

lemma fnmatch_literal: "literal s \<Longrightarrow> fnmatch s n \<longleftrightarrow> n = s"
  using fnmatch_literal_append[of s "[]" n]
  by (auto simp: prefix_def)

lemma fnmatch_star: "fnmatch (CHR ''*'' # p) n \<longleftrightarrow> (\<exists>k \<le> length n. fnmatch p (drop k n))"
proof (induction n)
  case Nil
  then show ?case by simp
next
  case (Cons d n)
  have "(\<exists>k \<le> length (d # n). fnmatch p (drop k (d # n)))
          \<longleftrightarrow> fnmatch p (d # n) \<or> (\<exists>k \<le> length n. fnmatch p (drop k n))"
  proof
    assume "\<exists>k \<le> length (d # n). fnmatch p (drop k (d # n))"
    then obtain k where "k \<le> Suc (length n)" and "fnmatch p (drop k (d # n))" by auto
    then show "fnmatch p (d # n) \<or> (\<exists>k \<le> length n. fnmatch p (drop k n))"
      by (cases k) auto
  next
    assume "fnmatch p (d # n) \<or> (\<exists>k \<le> length n. fnmatch p (drop k n))"
    then show "\<exists>k \<le> length (d # n). fnmatch p (drop k (d # n))"
    proof
      assume "fnmatch p (d # n)"
      then show ?thesis by (intro exI[of _ 0]) simp
    next
      assume "\<exists>k \<le> length n. fnmatch p (drop k n)"
      then obtain k where "k \<le> length n" and "fnmatch p (drop k n)" by blast
      then show ?thesis by (intro exI[of _ "Suc k"]) simp
    qed
  qed
  with Cons show ?case by simp
qed

text \<open>A wildcard followed by a literal selects the names with that suffix.\<close>

lemma fnmatch_star_suffix: "literal s \<Longrightarrow> fnmatch (CHR ''*'' # s) n \<longleftrightarrow> suffix s n"
proof -
  assume "literal s"
  then have "fnmatch (CHR ''*'' # s) n \<longleftrightarrow> (\<exists>k \<le> length n. drop k n = s)"
    by (simp add: fnmatch_star fnmatch_literal)
  also have "\<dots> \<longleftrightarrow> suffix s n"
  proof
    assume "\<exists>k \<le> length n. drop k n = s"
    then obtain k where "drop k n = s" by blast
    then show "suffix s n" by (metis suffix_drop)
  next
    assume "suffix s n"
    then obtain zs where "n = zs @ s" by (auto simp: suffix_def)
    then show "\<exists>k \<le> length n. drop k n = s" by (intro exI[of _ "length zs"]) simp
  qed
  finally show ?thesis .
qed

lemma fnmatch_star_only [simp]: "fnmatch ''*'' n"
  using fnmatch_star_suffix[of "[]" n] by (simp add: literal_def)

subsection \<open>Pattern components and selectors\<close>

lemma path_parts_single:
  "CHR ''/'' \<notin> set w \<Longrightarrow> w \<noteq> [] \<Longrightarrow> w \<noteq> ''.'' \<Longrightarrow> path_parts w = [w]"
  by (simp add: path_parts_def split_on_no_sep)

lemma path_parts_two:
  assumes "CHR ''/'' \<notin> set v" and "v \<noteq> []" and "v \<noteq> ''.''"
    and "CHR ''/'' \<notin> set w" and "w \<noteq> []" and "w \<noteq> ''.''"
  shows "path_parts (v @ ''/'' @ w) = [v, w]"
  using assms by (simp add: path_parts_def split_on_sep split_on_no_sep)

lemma glob_parts_single:
  "glob_parts fs d [c] = map (\<lambda>n. d @ [n]) (filter (fnmatch c) (children fs d))"
  by (induction "children fs d") (simp_all add: concat_map_singleton)

text \<open>The two globs of the script are instances of the general one.\<close>

lemma glob_instances:
  assumes "literal s" and "CHR ''/'' \<notin> set s"
  shows "glob fs d (CHR ''*'' # s) = glob_flat fs d s \<and>
         glob fs d (''*/*'' @ s) = glob_star_dir fs d s"
proof
  have "path_parts (CHR ''*'' # s) = [CHR ''*'' # s]"
    using assms(2) by (intro path_parts_single) auto
  then show "glob fs d (CHR ''*'' # s) = glob_flat fs d s"
    using assms(1) by (simp add: glob_def glob_parts_single glob_flat_def fnmatch_star_suffix)
next
  have "path_parts (''*'' @ ''/'' @ CHR ''*'' # s) = [''*'', CHR ''*'' # s]"
    using assms(2) by (intro path_parts_two) auto
  then show "glob fs d (''*/*'' @ s) = glob_star_dir fs d s"
    using assms(1)
    by (simp add: glob_def glob_parts_single glob_star_dir_def fnmatch_star_suffix comp_def)
qed

end
