(* ===== verification/Label_Fix.thy ===== *)
theory Label_Fix
  imports Record_Builder Pathlib_Glob
begin

text \<open>
  The label bug-fix pass of \<^verbatim>\<open>scannet.py\<close>: the table \<^verbatim>\<open>BUGS\<close> (lines
  15--19) of glob patterns under the output root and the label value that is
  wrong in the files they match, and the loop of lines 77--84, which is
  commented out in the source and is therefore not part of the script's run
  (\<open>run\<close> in the root theory does not call it). It is modelled as the code
  would run if enabled: for each pattern in dict order, for each match, read
  the point cloud, set to 0 every label equal to the bugged value, and write
  the cloud back. The \<^verbatim>\<open>print\<close> of line 82 has no effect on the file system
  and is not modelled.
\<close>

subsection \<open>Definitions\<close>

text \<open>Lines 15--19, in insertion order.\<close>

definition BUGS :: "(string \<times> int) list" where
  "BUGS = [(''train/scene0270_00_*.ply'', 50), (''train/scene0270_02_*.ply'', 50),
           (''train/scene0384_00_*.ply'', 149)]"

text \<open>Lines 81 and 83: \<^verbatim>\<open>bug_mask = pointcloud[:, -1] == bug_index\<close> and
  \<^verbatim>\<open>pointcloud[bug_mask, -1] = 0\<close>; column \<^verbatim>\<open>-1\<close> is column \<open>ncols - 1\<close>.\<close>

definition fix_label :: "int \<Rightarrow> table \<Rightarrow> error + table" where
  "fix_label bug_index pc =
     ebind (col_last pc) (\<lambda>lab.
     Inr (pc\<lparr>rows := map2 (\<lambda>r l. if l = of_int bug_index then r[ncols pc - 1 := 0] else r)
                          (rows pc) lab\<rparr>))"

text \<open>Lines 80--84 for one matched file.\<close>

definition fix_file :: "int \<Rightarrow> path \<Rightarrow> fs \<Rightarrow> error + fs" where
  "fix_file bug_index f fs =
     ebind (read_plyfile fs f) (\<lambda>pc.
     ebind (fix_label bug_index pc) (\<lambda>pc'.
     save_point_cloud fs pc' f True))"

text \<open>Line 79: the matches of one pattern, in listing order.\<close>

fun fix_files :: "int \<Rightarrow> path list \<Rightarrow> fs \<Rightarrow> fs outcome" where
  "fix_files bug_index [] fs = (None, fs)"
| "fix_files bug_index (f # fls) fs =
     then_outcome (lift_outcome (fix_file bug_index f fs) fs) (fix_files bug_index fls)"

text \<open>Line 78: the patterns in order.\<close>

fun fix_bugs_all :: "config \<Rightarrow> (string \<times> int) list \<Rightarrow> fs \<Rightarrow> fs outcome" where
  "fix_bugs_all cfg [] fs = (None, fs)"
| "fix_bugs_all cfg ((pat, bug_index) # bugs) fs =
     then_outcome (fix_files bug_index (glob fs (out_path cfg) pat) fs) (fix_bugs_all cfg bugs)"

definition fix_bugs :: "config \<Rightarrow> fs \<Rightarrow> fs outcome" where
  "fix_bugs cfg fs = fix_bugs_all cfg BUGS fs"

subsection \<open>Sample output trees\<close>

text \<open>The bugged scene \<^verbatim>\<open>scene0270_00\<close> as line 43 names its output, and
  as a cropped file of the kind the patterns were written for; both carry the
  bugged label 50 on their first point.\<close>

definition ex_bug_pc :: table where
  "ex_bug_pc = \<lparr>ncols = 7, rows = [[0, 0, 0, 9, 9, 9, 50], [1, 1, 1, 9, 9, 9, 3]]\<rparr>"

definition ex_bug_fs :: fs where
  "ex_bug_fs = ex_fs_ready @ [(SCANNET_OUT_PATH @ [TRAIN_DEST, ''scene0270_00.ply''], PlyFile True ex_bug_pc)]"

subsection \<open>The relabelling of one table\<close>

lemma fix_label_row:
  assumes "length r = ncols pc" and "0 < ncols pc"
  shows "(if last r = x then r[ncols pc - 1 := 0] else r)
           = (if last r = x then butlast r @ [0] else r)"
proof -
  from assms have "r \<noteq> []" by auto
  then have "r[length r - 1 := 0] = butlast r @ [0]"
    by (metis append_butlast_last_id length_butlast list_update_length)
  with assms(1) show ?thesis by simp
qed

lemma map2_last: "map2 f xs (map last xs) = map (\<lambda>r. f r (last r)) xs"
  by (induction xs) auto

lemma fix_label_eq:
  assumes "wf_table pc" and "0 < ncols pc"
  shows "fix_label b pc =
           Inr \<lparr>ncols = ncols pc,
                rows = map (\<lambda>r. if last r = of_int b then butlast r @ [0] else r) (rows pc)\<rparr>"
proof -
  have eq: "map (\<lambda>r. if last r = of_int b then r[ncols pc - 1 := 0] else r) (rows pc)
              = map (\<lambda>r. if last r = of_int b then butlast r @ [0] else r) (rows pc)"
    using assms by (intro map_cong refl fix_label_row) (auto simp: wf_table_iff)
  have rec: "pc\<lparr>rows := y\<rparr> = \<lparr>ncols = ncols pc, rows = y\<rparr>" for y
    by (cases pc) simp
  from assms(2) show ?thesis
    unfolding fix_label_def col_last_def by (simp add: map2_last rec eq del: map_eq_conv)
qed

lemma wf_fix_rows:
  assumes "wf_table pc" and "0 < ncols pc"
  shows "wf_table \<lparr>ncols = ncols pc, rows = map (\<lambda>r. if last r = x then butlast r @ [0] else r) (rows pc)\<rparr>"
  using assms by (auto simp: wf_table_iff)

subsection \<open>Which files the patterns select\<close>

lemma fnmatch_literal_prefix: "literal s \<Longrightarrow> fnmatch (s @ p) n \<Longrightarrow> prefix s n"
  by (simp add: fnmatch_literal_append)

lemma count_prefix_le: "prefix xs ys \<Longrightarrow> length (filter P xs) \<le> length (filter P ys)"
  by (auto simp: prefix_def)

lemma glob_two_parts_none:
  assumes "path_parts pat = [dn, p]" and "literal dn"
    and "\<forall>n \<in> set (children fs (d @ [dn])). \<not> fnmatch p n"
  shows "glob fs d pat = []"
proof -
  have "glob_parts fs (d @ [n]) [p] = []" if "fnmatch dn n" for n
    using that assms(2,3) by (simp add: fnmatch_literal glob_parts_single filter_empty_conv)
  with assms(1) show ?thesis by (auto simp: glob_def)
qed

text \<open>Every pattern of \<^verbatim>\<open>BUGS\<close> is \<^verbatim>\<open>train/\<close> and a literal prefix with two
  underscores, then \<^verbatim>\<open>*.ply\<close>.\<close>

lemma BUGS_shape:
  "(pat, b) \<in> set BUGS \<Longrightarrow>
     \<exists>pre. path_parts pat = [TRAIN_DEST, pre @ ''*.ply''] \<and> literal pre \<and>
           length (filter (\<lambda>c. c = CHR ''_'') pre) = 2"
  by (auto simp: BUGS_def TRAIN_DEST_def path_parts_def literal_def
      intro: exI[of _ "''scene0270_00_''"] exI[of _ "''scene0270_02_''"] exI[of _ "''scene0384_00_''"])

lemma fix_bugs_all_none:
  "(\<forall>(pat, b) \<in> set bugs. glob fs (out_path cfg) pat = []) \<Longrightarrow> fix_bugs_all cfg bugs fs = (None, fs)"
  by (induction bugs) auto

subsection \<open>Properties of the bug-fix pass\<close>

text \<open>
  C18: On a well-formed cloud, line 83 replaces the last entry of every row whose
  label equals the bugged value by 0 and leaves every other row as it was; on a
  cloud with no column, line 81 raises \<^verbatim>\<open>IndexError\<close>.
\<close>

theorem fix_label_result:
  assumes "wf_table pc"
  shows "fix_label b pc =
           (if ncols pc = 0 then Inl IndexError
            else Inr \<lparr>ncols = ncols pc,
                      rows = map (\<lambda>r. if last r = of_int b then butlast r @ [0] else r) (rows pc)\<rparr>)"
  using fix_label_eq[OF assms] by (simp add: fix_label_def col_last_def)

theorem fix_label_result_witness:
  "fix_label 50 ex_bug_pc = Inr \<lparr>ncols = 7, rows = [[0, 0, 0, 9, 9, 9, 0], [1, 1, 1, 9, 9, 9, 3]]\<rparr>"
  using fix_label_result[of ex_bug_pc 50] by (simp add: ex_bug_pc_def wf_table_iff)

text \<open>
  C19: Every pattern of \<^verbatim>\<open>BUGS\<close> asks for a name with at least two
  underscores (\<^verbatim>\<open>scene0270_00_*.ply\<close>, the crops of an earlier version of
  the pipeline), while line 43 names the output of a scan \<^verbatim>\<open>sceneXXXX_YY\<close>
  as \<^verbatim>\<open>sceneXXXX_YY.ply\<close>, with one. On an output tree whose training names
  have at most one underscore the pass, if it were enabled, would select no
  file and change nothing: the bugged labels of \<^verbatim>\<open>scene0270_00\<close> stay.
\<close>

theorem fix_bugs_no_match:
  assumes "\<forall>n \<in> set (children fs (out_path cfg @ [TRAIN_DEST])). length (filter (\<lambda>c. c = CHR ''_'') n) \<le> 1"
  shows "fix_bugs cfg fs = (None, fs)"
proof -
  have "glob fs (out_path cfg) pat = []" if "(pat, b) \<in> set BUGS" for pat b
  proof -
    from BUGS_shape[OF that] obtain pre where pp: "path_parts pat = [TRAIN_DEST, pre @ ''*.ply'']"
      and lit: "literal pre" and cnt: "length (filter (\<lambda>c. c = CHR ''_'') pre) = 2"
      by blast
    have "\<not> fnmatch (pre @ ''*.ply'') n" if "n \<in> set (children fs (out_path cfg @ [TRAIN_DEST]))" for n
    proof
      assume "fnmatch (pre @ ''*.ply'') n"
      with lit have "prefix pre n" by (rule fnmatch_literal_prefix)
      then have "2 \<le> length (filter (\<lambda>c. c = CHR ''_'') n)"
        using cnt count_prefix_le by metis
      with assms that show False by fastforce
    qed
    then show ?thesis
      by (intro glob_two_parts_none[OF pp]) (auto simp: literal_def TRAIN_DEST_def)
  qed
  then show ?thesis by (auto simp: fix_bugs_def intro!: fix_bugs_all_none)
qed

theorem fix_bugs_no_match_witness: "fix_bugs scannet_config ex_bug_fs = (None, ex_bug_fs)"
  by (rule fix_bugs_no_match) (simp add: ex_bug_fs_def sample_eval builder_eval)

end
