(* ===== verification/Output_Spec.thy ===== *)
theory Output_Spec
  imports Record_Builder
begin

text \<open>
  What the scan loop of \<^verbatim>\<open>scannet.py\<close> (lines 26--48) promises, stated
  abstractly, and the proofs that the code keeps the promise. The abstract
  specification \<open>outputs_spec\<close> sees the file system as a finite map from paths
  to entries (\<open>map_of\<close> of the association list) and each scan as one
  independent map update: the record built from the tree as it was before the
  loop, stored under the scan's output name, a later scan with the same output
  name overriding an earlier one. The refinement theorem shows that the loop,
  which reads from the tree it is writing to, ends normally under
  \<^verbatim>\<open>python -O\<close> and yields exactly that map when the raw files lie outside the
  output directory, every record can be built, and no output name is a
  directory. The bound and the shape of the records complete the contract.
\<close>

subsection \<open>The abstract specification\<close>

text \<open>The records built from the tree \<open>fs\<close>, stored one by one into the map
  \<open>m\<close>.\<close>

definition outputs_upd :: "config \<Rightarrow> path \<Rightarrow> fs \<Rightarrow> path list \<Rightarrow> (path \<rightharpoonup> fentry) \<Rightarrow> (path \<rightharpoonup> fentry)" where
  "outputs_upd cfg phase_out fs files m =
     fold (\<lambda>f m. case build_record cfg phase_out fs f of
                   Inr (out_f, processed, xyz) \<Rightarrow> m(out_f \<mapsto> PlyFile True processed)
                 | Inl e \<Rightarrow> m)
          files m"

definition outputs_spec :: "config \<Rightarrow> path \<Rightarrow> fs \<Rightarrow> path list \<Rightarrow> path \<rightharpoonup> fentry" where
  "outputs_spec cfg phase_out fs files = outputs_upd cfg phase_out fs files (map_of fs)"

subsection \<open>Frames of the builder\<close>

text \<open>The builder reads only the scan and its label file, so a write into the
  output directory does not change what it builds from a raw file.\<close>

lemma build_record_update:
  assumes "\<not> prefix phase_out f" and "\<not> prefix phase_out (label_path f)"
  shows "build_record cfg phase_out (AList.update (phase_out @ [n]) e fs) f = build_record cfg phase_out fs f"
proof -
  let ?fs = "AList.update (phase_out @ [n]) e fs"
  from assms have a: "\<not> prefix (phase_out @ [n]) f" and b: "\<not> prefix (phase_out @ [n]) (label_path f)"
    by (auto dest: append_prefixD)
  have r: "read_plyfile ?fs f = read_plyfile fs f"
    and l: "read_plyfile ?fs (label_path f) = read_plyfile fs (label_path f)"
    using a b by (simp_all add: read_plyfile_update)
  from b have i: "is_file ?fs (label_path f) = is_file fs (label_path f)"
    by (intro is_file_update) auto
  have "load_label cfg ?fs f pc = load_label cfg fs f pc" for pc
    by (simp add: load_label_def Let_def l i)
  then show ?thesis by (simp add: build_record_def r)
qed

lemma build_record_out:
  "build_record cfg phase_out fs f = Inr r \<Longrightarrow> \<exists>processed xyz. r = (phase_out @ [out_name f], processed, xyz)"
  by (cases r) (auto dest: build_record_Inr)

text \<open>Under \<^verbatim>\<open>-O\<close>, a built record whose output path is free is written and
  processing goes on.\<close>

lemma process_file_writes:
  assumes "\<not> asserts cfg" and "wf_fs fs" and "is_dir fs phase_out"
    and "build_record cfg phase_out fs f = Inr (phase_out @ [out_name f], processed, xyz)"
    and "\<not> is_dir fs (phase_out @ [out_name f])"
  shows "process_file cfg phase_out f fs
           = (None, AList.update (phase_out @ [out_name f]) (PlyFile True processed) fs)"
proof -
  have "save_point_cloud fs processed (phase_out @ [out_name f]) True
          = Inr (AList.update (phase_out @ [out_name f]) (PlyFile True processed) fs)"
    using assms(3,5) wf_dir_child_no_file_ancestor[OF assms(2,3)]
    by (simp add: save_point_cloud_def write_file_eq_Inr)
  with assms(1,4) show ?thesis by (simp add: process_file_built crop_check_def)
qed

lemma process_file_length:
  "length fs \<le> length (snd (process_file cfg phase_out f fs)) \<and>
   length (snd (process_file cfg phase_out f fs)) \<le> Suc (length fs)"
  using process_file_snd[of cfg phase_out f fs] length_update_bounds by fastforce

subsection \<open>Directories survive the pass\<close>

lemma is_dir_process_file:
  assumes "is_dir fs q"
  shows "is_dir (snd (process_file cfg phase_out f fs)) q"
proof (cases "build_record cfg phase_out fs f")
  case (Inl e)
  with assms show ?thesis by (simp add: process_file_build_error)
next
  case (Inr r)
  then obtain out_f processed xyz where b: "build_record cfg phase_out fs f = Inr (out_f, processed, xyz)"
    by (cases r) auto
  with assms show ?thesis
    by (auto simp: process_file_built save_point_cloud_def split: sum.split intro: is_dir_write_file)
qed

lemma is_dir_process_files: "is_dir fs q \<Longrightarrow> is_dir (snd (process_files cfg phase_out fls fs)) q"
proof (induction fls arbitrary: fs)
  case Nil
  then show ?case by simp
next
  case (Cons f fls)
  show ?case unfolding process_files.simps
    by (rule snd_then_outcome_pres[where P = "\<lambda>s. is_dir s q"]) (simp_all add: Cons is_dir_process_file)
qed

lemma preprocess_subset_dirs:
  assumes "wf_fs fs" and "is_dir fs q"
  shows "wf_fs (snd (preprocess_subset cfg sub fs)) \<and> is_dir (snd (preprocess_subset cfg sub fs)) q"
  unfolding preprocess_subset_def Let_def
proof (rule snd_then_outcome_pres[where P = "\<lambda>s. wf_fs s \<and> is_dir s q"])
  show "wf_fs (snd (lift_outcome (mkdir_parents fs (out_path cfg @ [fst sub])) fs)) \<and>
        is_dir (snd (lift_outcome (mkdir_parents fs (out_path cfg @ [fst sub])) fs)) q"
    using assms
    by (rule_tac snd_lift_outcome_pres[where P = "\<lambda>s. wf_fs s \<and> is_dir s q"])
      (auto dest: mkdir_parents_Inr is_dir_mkdir_parents)
qed (simp add: wf_fs_process_files is_dir_process_files)

lemma preprocess_all_dirs:
  "wf_fs fs \<Longrightarrow> is_dir fs q \<Longrightarrow>
     wf_fs (snd (preprocess_all cfg subs fs)) \<and> is_dir (snd (preprocess_all cfg subs fs)) q"
proof (induction subs arbitrary: fs)
  case Nil
  then show ?case by simp
next
  case (Cons sub subs)
  show ?case unfolding preprocess_all.simps
  proof (rule snd_then_outcome_pres[where P = "\<lambda>s. wf_fs s \<and> is_dir s q"])
    show "wf_fs (snd (preprocess_subset cfg sub fs)) \<and> is_dir (snd (preprocess_subset cfg sub fs)) q"
      by (rule preprocess_subset_dirs[OF Cons.prems])
  qed (simp add: Cons.IH)
qed

text \<open>A subset that was processed to the end has its output directory.\<close>

lemma preprocess_subset_None_dir:
  assumes "wf_fs fs" and "preprocess_subset cfg sub fs = (None, fs')"
  shows "wf_fs fs' \<and> is_dir fs' (out_path cfg @ [fst sub])"
proof -
  from assms(2) obtain s where m: "mkdir_parents fs (out_path cfg @ [fst sub]) = Inr s"
    and p: "process_files cfg (out_path cfg @ [fst sub])
              (glob_star_dir s (raw_path cfg @ [snd sub]) POINTCLOUD_FILE) s = (None, fs')"
    by (auto simp: preprocess_subset_def Let_def then_outcome_None lift_outcome_def split: sum.splits)
  from mkdir_parents_Inr[OF assms(1) m] have "wf_fs s" and "is_dir s (out_path cfg @ [fst sub])"
    by auto
  with p show ?thesis
    using wf_fs_process_files is_dir_process_files by (metis snd_conv)
qed

text \<open>After a normal end of the preprocessing pass the output root is a
  directory of a well-formed tree.\<close>

lemma preprocess_None_out_dir:
  assumes "wf_fs fs" and "preprocess cfg fs = (None, fs1)"
  shows "wf_fs fs1 \<and> is_dir fs1 (out_path cfg)"
proof -
  from assms(2) obtain s1 where s1: "preprocess_subset cfg (TRAIN_DEST, ''scans'') fs = (None, s1)"
    and rest: "preprocess_all cfg [(TEST_DEST, ''scans_test'')] s1 = (None, fs1)"
    by (auto simp: preprocess_def SUBSETS_def then_outcome_None)
  from preprocess_subset_None_dir[OF assms(1) s1]
  have "wf_fs s1" and "is_dir s1 (out_path cfg @ [TRAIN_DEST])" by simp_all
  from preprocess_all_dirs[OF this, of cfg "[(TEST_DEST, ''scans_test'')]"] rest
  have "wf_fs fs1" and "is_dir fs1 (out_path cfg @ [TRAIN_DEST])" by simp_all
  with wf_is_dir_parent[OF this] show ?thesis by simp
qed

subsection \<open>Listings after the loop\<close>

text \<open>A file processed to the end has written its output path and nothing
  else.\<close>

lemma process_file_None_update:
  assumes "process_file cfg phase_out f fs = (None, fs1)"
  shows "\<exists>e. fs1 = AList.update (phase_out @ [out_name f]) e fs"
proof (cases "build_record cfg phase_out fs f")
  case (Inl e)
  with assms show ?thesis by (simp add: process_file_build_error)
next
  case (Inr r)
  then obtain out_f processed xyz where b: "build_record cfg phase_out fs f = Inr (out_f, processed, xyz)"
    by (cases r) auto
  from build_record_Inr[OF b] have o: "out_f = phase_out @ [out_name f]" by blast
  with b assms show ?thesis
    by (auto simp: process_file_built save_point_cloud_def write_file_eq_Inr split: sum.splits)
qed

text \<open>After a loop that ended normally the output directory lists the output
  names in order of their first write after the names it listed before; every
  other directory lists what it listed before.\<close>

lemma process_files_children:
  assumes "process_files cfg phase_out files fs = (None, fs')"
  shows "children fs' phase_out =
           fold (\<lambda>n cs. if n \<in> set cs then cs else cs @ [n]) (map out_name files) (children fs phase_out) \<and>
         (\<forall>d. d \<noteq> phase_out \<longrightarrow> children fs' d = children fs d)"
  using assms
proof (induction files arbitrary: fs)
  case Nil
  then show ?case by simp
next
  case (Cons f files)
  from Cons.prems obtain fs1 where p1: "process_file cfg phase_out f fs = (None, fs1)"
    and rest: "process_files cfg phase_out files fs1 = (None, fs')"
    by (auto simp: then_outcome_None)
  from process_file_None_update[OF p1] obtain e where fs1: "fs1 = AList.update (phase_out @ [out_name f]) e fs"
    by blast
  from Cons.IH[OF rest] show ?case
    by (simp add: fs1 children_update_child children_update)
qed

subsection \<open>Properties of the scan loop\<close>

text \<open>Under \<^verbatim>\<open>-O\<close>, the loop over buildable scans writes each record in turn.\<close>

lemma process_files_outputs:
  assumes "\<not> asserts cfg" and "wf_fs fs" and "is_dir fs phase_out"
    and "\<forall>f \<in> set files. \<not> prefix phase_out f \<and> \<not> prefix phase_out (label_path f) \<and>
           \<not> isl (build_record cfg phase_out fs f) \<and> \<not> is_dir fs (phase_out @ [out_name f])"
  shows "\<exists>fs'. process_files cfg phase_out files fs = (None, fs') \<and> wf_fs fs' \<and>
               map_of fs' = outputs_spec cfg phase_out fs files"
  using assms(2-4)
proof (induction files arbitrary: fs)
  case Nil
  then show ?case by (simp add: outputs_spec_def outputs_upd_def)
next
  case (Cons f fls)
  from Cons.prems(3) have fa: "\<not> prefix phase_out f" "\<not> prefix phase_out (label_path f)"
    "\<not> isl (build_record cfg phase_out fs f)" "\<not> is_dir fs (phase_out @ [out_name f])"
    by auto
  from fa(3) obtain r where "build_record cfg phase_out fs f = Inr r"
    by (cases "build_record cfg phase_out fs f") auto
  with build_record_out obtain processed xyz where
    b: "build_record cfg phase_out fs f = Inr (phase_out @ [out_name f], processed, xyz)"
    by blast
  let ?fs1 = "AList.update (phase_out @ [out_name f]) (PlyFile True processed) fs"
  have p1: "process_file cfg phase_out f fs = (None, ?fs1)"
    by (rule process_file_writes[OF assms(1) Cons.prems(1,2) b fa(4)])
  have wf1: "wf_fs ?fs1"
    using wf_fs_process_file[OF Cons.prems(1), of cfg phase_out f] p1 by simp
  have d1: "is_dir ?fs1 phase_out" using Cons.prems(2) by simp
  have same: "build_record cfg phase_out ?fs1 g = build_record cfg phase_out fs g" if "g \<in> set fls" for g
    using Cons.prems(3) that by (auto intro: build_record_update)
  have "\<forall>g \<in> set fls. \<not> prefix phase_out g \<and> \<not> prefix phase_out (label_path g) \<and>
          \<not> isl (build_record cfg phase_out ?fs1 g) \<and> \<not> is_dir ?fs1 (phase_out @ [out_name g])"
    using Cons.prems(3) same by (simp add: is_dir_update_file)
  from Cons.IH[OF wf1 d1 this] obtain fs' where
    r: "process_files cfg phase_out fls ?fs1 = (None, fs')" "wf_fs fs'"
      "map_of fs' = outputs_spec cfg phase_out ?fs1 fls"
    by blast
  have "outputs_spec cfg phase_out ?fs1 fls = outputs_spec cfg phase_out fs (f # fls)"
    unfolding outputs_spec_def outputs_upd_def by (simp add: b update_conv') (rule fold_cong, simp_all add: same)
  with p1 r show ?case by simp
qed

text \<open>
  C20: Refinement. Under \<^verbatim>\<open>python -O\<close>, on a well-formed tree whose output
  directory exists, when no scan or label file lies inside the output
  directory, every scan's record can be built and no output name is a
  directory, the loop of line 26 ends normally, keeps the tree well formed,
  and leaves exactly the map of the abstract specification: the tree before
  the loop updated, scan by scan, with each built record under its output name.
\<close>

theorem process_files_refines:
  assumes "\<not> asserts cfg" and "wf_fs fs" and "is_dir fs phase_out"
    and "\<forall>f \<in> set files. \<not> prefix phase_out f \<and> \<not> prefix phase_out (label_path f) \<and>
           \<not> isl (build_record cfg phase_out fs f) \<and> \<not> is_dir fs (phase_out @ [out_name f])"
  shows "\<exists>fs'. process_files cfg phase_out files fs = (None, fs') \<and> wf_fs fs' \<and>
               map_of fs' = outputs_spec cfg phase_out fs files"
  using assms by (rule process_files_outputs)

theorem process_files_refines_witness:
  "\<exists>fs'. process_files (scannet_config\<lparr>asserts := False\<rparr>) (SCANNET_OUT_PATH @ [TRAIN_DEST]) [ex_scan] ex_fs_ready
           = (None, fs') \<and> wf_fs fs' \<and>
         map_of fs' = outputs_spec (scannet_config\<lparr>asserts := False\<rparr>) (SCANNET_OUT_PATH @ [TRAIN_DEST])
                        ex_fs_ready [ex_scan]"
  by (rule process_files_refines) (simp_all add: sample_eval builder_eval wf_fs_def)

text \<open>
  C21: Shape of a record. From a well-formed cloud of \<open>k\<close> columns and \<open>N\<close>
  rows the builder produces a well-formed output table of \<open>min 6 k + 1\<close>
  columns and \<open>N\<close> rows (seven columns for a cloud with at least six), and
  coordinates \<^verbatim>\<open>xyz\<close> of \<open>min 3 k\<close> columns and \<open>N\<close> rows.
\<close>

theorem build_record_shape:
  assumes "read_plyfile fs f = Inr pc" and "wf_table pc"
    and "build_record cfg phase_out fs f = Inr (out_f, processed, xyz)"
  shows "wf_table processed \<and> ncols processed = min 6 (ncols pc) + 1 \<and> nrows processed = nrows pc \<and>
         wf_table xyz \<and> ncols xyz = min 3 (ncols pc) \<and> nrows xyz = nrows pc"
proof -
  from assms(1,3) obtain lab where
    h: "hstack (cols_take 6 pc) (column_vec lab) = Inr processed" and xyz: "xyz = cols_take 3 pc"
    by (auto simp: build_record_def ebind_eq_Inr Let_def)
  have "wf_table processed" by (rule wf_hstack[OF wf_cols_take[OF assms(2)] wf_column_vec h])
  moreover from h have "ncols processed = min 6 (ncols pc) + 1"
    by (auto simp: hstack_eq_Inr cols_take_def column_vec_def)
  moreover from nrows_hstack[OF h] have "nrows processed = nrows pc" by simp
  ultimately show ?thesis
    using wf_cols_take[OF assms(2)] by (simp add: xyz cols_take_def nrows_def)
qed

theorem build_record_shape_witness:
  "wf_table \<lparr>ncols = 7, rows = [[0, 0, 0, 255, 0, 0, 5], [1, 1, 1, 0, 255, 0, 7 :: real]]\<rparr> \<and>
   ncols \<lparr>ncols = 7, rows = [[0, 0, 0, 255, 0, 0, 5], [1, 1, 1, 0, 255, 0, 7 :: real]]\<rparr> = min 6 (ncols ex_pc) + 1 \<and>
   nrows \<lparr>ncols = 7, rows = [[0, 0, 0, 255, 0, 0, 5], [1, 1, 1, 0, 255, 0, 7 :: real]]\<rparr> = nrows ex_pc \<and>
   wf_table \<lparr>ncols = 3, rows = [[0, 0, 0], [1, 1, 1 :: real]]\<rparr> \<and>
   ncols \<lparr>ncols = 3, rows = [[0, 0, 0], [1, 1, 1 :: real]]\<rparr> = min 3 (ncols ex_pc) \<and>
   nrows \<lparr>ncols = 3, rows = [[0, 0, 0], [1, 1, 1 :: real]]\<rparr> = nrows ex_pc"
proof -
  have r: "read_plyfile ex_fs ex_scan = Inr ex_pc" and w: "wf_table ex_pc"
    and b: "build_record scannet_config [''o''] ex_fs ex_scan =
              Inr ([''o'', ''scene0000_00.ply''],
                   \<lparr>ncols = 7, rows = [[0, 0, 0, 255, 0, 0, 5], [1, 1, 1, 0, 255, 0, 7]]\<rparr>,
                   \<lparr>ncols = 3, rows = [[0, 0, 0], [1, 1, 1]]\<rparr>)"
    by (simp_all add: sample_eval builder_eval wf_table_iff)
  from build_record_shape[OF r w b] show ?thesis .
qed

end
