(* ===== verification/Preprocess_Spec.thy ===== *)
theory Preprocess_Spec
  imports Output_Spec
begin

text \<open>
  The whole preprocessing pass of \<^verbatim>\<open>scannet.py\<close> (lines 22--48) against its
  abstract contract \<open>preprocess_spec\<close>: for each entry of \<^verbatim>\<open>SUBSETS\<close> in order,
  the output directory and its missing ancestors become directories
  (\<open>mkdirs_spec\<close>), then every scan the glob finds in the raw tree is stored
  under its output name (\<open>outputs_upd\<close>), all records built from the raw tree
  as it was before the pass. The refinement theorem gives the conditions under
  which the pass ends normally under \<^verbatim>\<open>python -O\<close>: the raw root and the output
  root lie outside each other, no file stands on the way to an output
  directory, every scan's record can be built and no output name is taken by
  a directory.
\<close>

definition preprocess_spec :: "config \<Rightarrow> fs \<Rightarrow> path \<rightharpoonup> fentry" where
  "preprocess_spec cfg fs =
     fold (\<lambda>(dest, src) m.
             outputs_upd cfg (out_path cfg @ [dest]) fs
               (glob_star_dir fs (raw_path cfg @ [src]) POINTCLOUD_FILE)
               (mkdirs_spec (out_path cfg @ [dest]) m))
          SUBSETS (map_of fs)"

subsection \<open>Disjoint roots\<close>

lemma disjoint_roots:
  assumes "\<not> prefix a b" and "\<not> prefix b a"
  shows "\<not> prefix (a @ xs) (b @ ys)"
proof
  assume "prefix (a @ xs) (b @ ys)"
  then have "prefix a (b @ ys)" by (rule append_prefixD)
  moreover have "prefix b (b @ ys)" by simp
  ultimately have "prefix a b \<or> prefix b a" by (rule prefix_same_cases)
  with assms show False by blast
qed

lemma glob_star_dir_shape: "f \<in> set (glob_star_dir fs base s) \<Longrightarrow> \<exists>d n. f = base @ [d, n]"
  by (auto simp: glob_star_dir_def)

lemma label_path_shape: "label_path (base @ [d, n]) = base @ [d, path_stem n @ ''.labels'' @ path_suffix n]"
  by (simp add: label_path_def parent_def name_def butlast_append)

subsection \<open>Frames\<close>

lemma read_plyfile_map_of:
  "map_of fs' p = map_of fs p \<Longrightarrow> map_of fs p \<noteq> None \<Longrightarrow> read_plyfile fs' p = read_plyfile fs p"
  by (auto simp: read_plyfile_def)

text \<open>A record that can be built depends only on the entries of the scan and
  of its label file.\<close>

lemma build_record_map_of:
  assumes "map_of fs' f = map_of fs f" and "map_of fs' (label_path f) = map_of fs (label_path f)"
    and "\<not> isl (build_record cfg phase_out fs f)"
  shows "build_record cfg phase_out fs' f = build_record cfg phase_out fs f"
proof -
  from assms(3) obtain pc where "read_plyfile fs f = Inr pc"
    by (cases "read_plyfile fs f") (simp_all add: build_record_def)
  then have "map_of fs f \<noteq> None" by (auto dest: read_plyfile_Inr)
  with assms(1) have r: "read_plyfile fs' f = read_plyfile fs f" by (rule read_plyfile_map_of)
  have i: "is_file fs' (label_path f) = is_file fs (label_path f)"
    by (simp add: is_file_def assms(2))
  have l: "read_plyfile fs' (label_path f) = read_plyfile fs (label_path f)" if "is_file fs (label_path f)"
    using that assms(2) by (intro read_plyfile_map_of) (auto simp: is_file_def split: option.splits)
  have "load_label cfg fs' f pc = load_label cfg fs f pc" for pc
    by (cases "is_file fs (label_path f)") (simp_all add: load_label_def Let_def i l)
  then show ?thesis by (simp add: build_record_def r)
qed

text \<open>Scans of other output names leave an output entry alone.\<close>

lemma outputs_upd_other_name:
  "\<forall>g \<in> set files. out_name g \<noteq> n \<Longrightarrow>
     outputs_upd cfg phase_out fs files m (phase_out @ [n]) = m (phase_out @ [n])"
proof (induction files arbitrary: m)
  case Nil
  then show ?case by (simp add: outputs_upd_def)
next
  case (Cons g files)
  show ?case
  proof (cases "build_record cfg phase_out fs g")
    case (Inr r)
    with build_record_out obtain processed xyz where "r = (phase_out @ [out_name g], processed, xyz)"
      by blast
    with Inr Cons show ?thesis by (auto simp: outputs_upd_def)
  qed (use Cons in \<open>simp add: outputs_upd_def\<close>)
qed

lemma outputs_upd_other:
  "(\<forall>n. q \<noteq> phase_out @ [n]) \<Longrightarrow> outputs_upd cfg phase_out fs files m q = m q"
proof (induction files arbitrary: m)
  case Nil
  then show ?case by (simp add: outputs_upd_def)
next
  case (Cons f files)
  show ?case
  proof (cases "build_record cfg phase_out fs f")
    case (Inl e)
    with Cons show ?thesis by (simp add: outputs_upd_def)
  next
    case (Inr r)
    with build_record_out obtain processed xyz where
      "build_record cfg phase_out fs f = Inr (phase_out @ [out_name f], processed, xyz)" by blast
    with Cons show ?thesis by (simp add: outputs_upd_def)
  qed
qed

lemma mkdirs_spec_other: "\<not> prefix q p \<Longrightarrow> mkdirs_spec p m q = m q"
  by (simp add: mkdirs_spec_def)

lemma process_files_keeps_glob:
  assumes "\<not> prefix base phase_out" and "\<not> prefix phase_out base"
  shows "glob_star_dir (snd (process_files cfg phase_out files fs)) base s = glob_star_dir fs base s"
proof (induction files arbitrary: fs)
  case Nil
  then show ?case by simp
next
  case (Cons f files)
  show ?case unfolding process_files.simps
    by (rule snd_then_outcome_pres[where P = "\<lambda>t. glob_star_dir t base s = glob_star_dir fs base s"])
      (simp_all add: Cons process_file_keeps_glob[OF assms])
qed

text \<open>Directories appended outside a subtree do not change its listing.\<close>

lemma glob_star_dir_append:
  assumes "\<forall>(k, e) \<in> set new. \<not> strict_prefix base k"
  shows "glob_star_dir (fs @ new) base s = glob_star_dir fs base s"
proof -
  have nochild: "children new (base @ ds) = []" for ds
  proof -
    have "\<not> (k \<noteq> [] \<and> butlast k = base @ ds)" if "(k, e) \<in> set new" for k e
    proof
      assume "k \<noteq> [] \<and> butlast k = base @ ds"
      then have k: "k = base @ (ds @ [last k])" by (metis append_butlast_last_id append_assoc)
      have "strict_prefix base (base @ (ds @ [last k]))" by (simp add: strict_prefix_def)
      with k assms that show False by auto
    qed
    then show ?thesis by (auto simp: children_def filter_empty_conv)
  qed
  have "map_of new (base @ [d]) = None" for d
  proof -
    have "strict_prefix base (base @ [d])" by (simp add: strict_prefix_def)
    with assms show ?thesis by (force simp: map_of_eq_None_iff)
  qed
  then have "is_dir (fs @ new) (base @ [d]) = is_dir fs (base @ [d])" for d
    by (auto simp: is_dir_def map_add_def split: option.split)
  moreover have "children (fs @ new) (base @ ds) = children fs (base @ ds)" for ds
    using nochild[of ds] by (simp add: children_def)
  moreover have "children (fs @ new) base = children fs base"
    using nochild[of "[]"] by (simp add: children_def)
  ultimately show ?thesis by (simp add: glob_star_dir_def)
qed

text \<open>Creating the output directory does not change the raw listing.\<close>

lemma mkdir_keeps_raw_glob:
  assumes "wf_fs fs" and "mkdir_parents fs (out_path cfg @ [dest]) = Inr fs1"
    and "\<not> prefix (out_path cfg) (raw_path cfg)" and "\<not> prefix (raw_path cfg) (out_path cfg)"
  shows "glob_star_dir fs1 (raw_path cfg @ [b]) s = glob_star_dir fs (raw_path cfg @ [b]) s"
proof -
  from mkdir_parents_Inr[OF assms(1,2)] obtain new where
    fs1: "fs1 = fs @ new" and new: "\<forall>(k, e) \<in> set new. e = Dir \<and> prefix k (out_path cfg @ [dest])"
    by blast
  have "\<not> strict_prefix (raw_path cfg @ [b]) k" if "(k, e) \<in> set new" for k e
  proof
    assume "strict_prefix (raw_path cfg @ [b]) k"
    with new that have "prefix (raw_path cfg @ [b]) (out_path cfg @ [dest])"
      by (auto simp: strict_prefix_def intro: prefix_order.trans)
    with disjoint_roots[OF assms(4,3)] show False by blast
  qed
  then have "\<forall>(k, e) \<in> set new. \<not> strict_prefix (raw_path cfg @ [b]) k" by blast
  then show ?thesis unfolding fs1 by (rule glob_star_dir_append)
qed

text \<open>The directories \<open>mkdir\<close> appends are not listed in the target, nor in
  any directory off its path.\<close>

lemma children_mkdir_new:
  assumes "\<forall>(k, e) \<in> set new. prefix k p" and "d = p \<or> \<not> prefix d p"
  shows "children new d = []"
proof -
  have "\<not> (k \<noteq> [] \<and> butlast k = d)" if "(k, e) \<in> set new" for k e
  proof
    assume k: "k \<noteq> [] \<and> butlast k = d"
    from assms(1) that have kp: "prefix k p" by auto
    have "prefix d k" using k by auto
    then have "prefix d p" using kp by (rule prefix_order.trans)
    with assms(2) have "d = p" by blast
    with k kp have "prefix k (butlast k)" by simp
    with k show False using not_prefix_butlast by blast
  qed
  then show ?thesis by (auto simp: children_def filter_empty_conv)
qed

subsection \<open>One subset\<close>

text \<open>The loop of line 26 against a reference tree \<open>fs0\<close> that agrees with the
  current tree on every scan and label file.\<close>

lemma process_files_upd:
  assumes "\<not> asserts cfg" and "wf_fs fs" and "is_dir fs phase_out"
    and "\<forall>f \<in> set files. \<not> prefix phase_out f \<and> \<not> prefix phase_out (label_path f) \<and>
           map_of fs f = map_of fs0 f \<and> map_of fs (label_path f) = map_of fs0 (label_path f) \<and>
           \<not> isl (build_record cfg phase_out fs0 f) \<and> \<not> is_dir fs (phase_out @ [out_name f])"
  shows "\<exists>fs'. process_files cfg phase_out files fs = (None, fs') \<and> wf_fs fs' \<and>
               map_of fs' = outputs_upd cfg phase_out fs0 files (map_of fs)"
  using assms(2-4)
proof (induction files arbitrary: fs)
  case Nil
  then show ?case by (simp add: outputs_upd_def)
next
  case (Cons f fls)
  from Cons.prems(3) have fa: "\<not> prefix phase_out f" "\<not> prefix phase_out (label_path f)"
    "map_of fs f = map_of fs0 f" "map_of fs (label_path f) = map_of fs0 (label_path f)"
    "\<not> isl (build_record cfg phase_out fs0 f)" "\<not> is_dir fs (phase_out @ [out_name f])"
    by auto
  have same: "build_record cfg phase_out fs f = build_record cfg phase_out fs0 f"
    using fa(3-5) by (rule build_record_map_of)
  from fa(5) obtain r where "build_record cfg phase_out fs0 f = Inr r"
    by (cases "build_record cfg phase_out fs0 f") auto
  with build_record_out obtain processed xyz where
    b0: "build_record cfg phase_out fs0 f = Inr (phase_out @ [out_name f], processed, xyz)"
    by blast
  let ?k = "phase_out @ [out_name f]"
  let ?fs1 = "AList.update ?k (PlyFile True processed) fs"
  have p1: "process_file cfg phase_out f fs = (None, ?fs1)"
    using same b0 by (intro process_file_writes[OF assms(1) Cons.prems(1,2)]) (simp_all add: fa(6))
  have wf1: "wf_fs ?fs1"
    using wf_fs_process_file[OF Cons.prems(1), of cfg phase_out f] p1 by simp
  have d1: "is_dir ?fs1 phase_out" using Cons.prems(2) by simp
  have "\<forall>g \<in> set fls. \<not> prefix phase_out g \<and> \<not> prefix phase_out (label_path g) \<and>
          map_of ?fs1 g = map_of fs0 g \<and> map_of ?fs1 (label_path g) = map_of fs0 (label_path g) \<and>
          \<not> isl (build_record cfg phase_out fs0 g) \<and> \<not> is_dir ?fs1 (phase_out @ [out_name g])"
    using Cons.prems(3) by (auto simp: update_conv' is_dir_update_file)
  from Cons.IH[OF wf1 d1 this] obtain fs' where
    r: "process_files cfg phase_out fls ?fs1 = (None, fs')" "wf_fs fs'"
      "map_of fs' = outputs_upd cfg phase_out fs0 fls (map_of ?fs1)"
    by blast
  have "outputs_upd cfg phase_out fs0 fls (map_of ?fs1) = outputs_upd cfg phase_out fs0 (f # fls) (map_of fs)"
    by (simp add: outputs_upd_def b0 update_conv')
  with p1 r show ?case by simp
qed

text \<open>Lines 24--26 for one entry of \<^verbatim>\<open>SUBSETS\<close>, started on a tree \<open>fs\<close> whose
  raw subtree and raw listing are those of the reference tree \<open>fs0\<close>.\<close>

lemma preprocess_subset_upd:
  assumes noO: "\<not> asserts cfg" and wf: "wf_fs fs"
    and dj: "\<not> prefix (out_path cfg) (raw_path cfg)" "\<not> prefix (raw_path cfg) (out_path cfg)"
    and path: "\<forall>q. prefix q (out_path cfg @ [dest]) \<longrightarrow> q \<noteq> [] \<longrightarrow> map_of fs q = None \<or> map_of fs q = Some Dir"
    and glob: "glob_star_dir fs (raw_path cfg @ [src]) POINTCLOUD_FILE
                 = glob_star_dir fs0 (raw_path cfg @ [src]) POINTCLOUD_FILE"
    and raw: "\<forall>ys. map_of fs (raw_path cfg @ ys) = map_of fs0 (raw_path cfg @ ys)"
    and files: "\<forall>f \<in> set (glob_star_dir fs0 (raw_path cfg @ [src]) POINTCLOUD_FILE).
                  \<not> isl (build_record cfg (out_path cfg @ [dest]) fs0 f) \<and>
                  map_of fs (out_path cfg @ [dest, out_name f]) \<noteq> Some Dir"
  shows "\<exists>fs'. preprocess_subset cfg (dest, src) fs = (None, fs') \<and> wf_fs fs' \<and>
           map_of fs' = outputs_upd cfg (out_path cfg @ [dest]) fs0
                          (glob_star_dir fs0 (raw_path cfg @ [src]) POINTCLOUD_FILE)
                          (mkdirs_spec (out_path cfg @ [dest]) (map_of fs)) \<and>
           (\<forall>b s. glob_star_dir fs' (raw_path cfg @ [b]) s = glob_star_dir fs (raw_path cfg @ [b]) s)"
proof -
  let ?po = "out_path cfg @ [dest]"
  let ?F = "glob_star_dir fs0 (raw_path cfg @ [src]) POINTCLOUD_FILE"
  from mkdir_parents_no_file[OF wf path] obtain fs1 where m: "mkdir_parents fs ?po = Inr fs1" by blast
  from mkdir_parents_Inr[OF wf m] have wf1: "wf_fs fs1" and d1: "is_dir fs1 ?po" by blast+
  have map1: "map_of fs1 = mkdirs_spec ?po (map_of fs)" by (rule mkdir_parents_map_of[OF wf m path])
  have g1: "glob_star_dir fs1 (raw_path cfg @ [b]) s = glob_star_dir fs (raw_path cfg @ [b]) s" for b s
    by (rule mkdir_keeps_raw_glob[OF wf m dj])
  have "\<forall>f \<in> set ?F. \<not> prefix ?po f \<and> \<not> prefix ?po (label_path f) \<and>
          map_of fs1 f = map_of fs0 f \<and> map_of fs1 (label_path f) = map_of fs0 (label_path f) \<and>
          \<not> isl (build_record cfg ?po fs0 f) \<and> \<not> is_dir fs1 (?po @ [out_name f])"
  proof
    fix f assume f: "f \<in> set ?F"
    then obtain d n where fdn: "f = (raw_path cfg @ [src]) @ [d, n]" by (blast dest: glob_star_dir_shape)
    have np: "\<not> prefix ?po (raw_path cfg @ ys)" "\<not> prefix (raw_path cfg @ ys) ?po" for ys
      using disjoint_roots[OF dj] disjoint_roots[OF dj(2,1)] by blast+
    have lp: "label_path f = raw_path cfg @ [src, d, path_stem n @ ''.labels'' @ path_suffix n]"
      using label_path_shape[of "raw_path cfg @ [src]" d n] fdn by simp
    have "\<not> prefix ?po f" using np(1) by (simp add: fdn)
    moreover have "\<not> prefix ?po (label_path f)" unfolding lp by (rule np(1))
    moreover have "map_of fs1 f = map_of fs0 f"
      using np(2) raw by (simp add: map1 mkdirs_spec_other fdn)
    moreover have "map_of fs1 (label_path f) = map_of fs0 (label_path f)"
      unfolding lp using np(2) raw by (simp add: map1 mkdirs_spec_other)
    moreover have "map_of fs1 (?po @ [out_name f]) = map_of fs (?po @ [out_name f])"
      by (simp add: map1 mkdirs_spec_other)
    with files f have "\<not> is_dir fs1 (?po @ [out_name f])" by (simp add: is_dir_def)
    ultimately show "\<not> prefix ?po f \<and> \<not> prefix ?po (label_path f) \<and>
          map_of fs1 f = map_of fs0 f \<and> map_of fs1 (label_path f) = map_of fs0 (label_path f) \<and>
          \<not> isl (build_record cfg ?po fs0 f) \<and> \<not> is_dir fs1 (?po @ [out_name f])"
      using files f by simp
  qed
  from process_files_upd[OF noO wf1 d1 this] obtain fs' where
    p: "process_files cfg ?po ?F fs1 = (None, fs')" and wf': "wf_fs fs'"
    and map': "map_of fs' = outputs_upd cfg ?po fs0 ?F (map_of fs1)"
    by blast
  have run: "preprocess_subset cfg (dest, src) fs = (None, fs')"
    using m p glob g1[of src POINTCLOUD_FILE] by (simp add: preprocess_subset_def)
  have "glob_star_dir fs' (raw_path cfg @ [b]) s = glob_star_dir fs (raw_path cfg @ [b]) s" for b s
  proof -
    have "\<not> prefix (raw_path cfg @ [b]) ?po" and "\<not> prefix ?po (raw_path cfg @ [b])"
      using disjoint_roots[OF dj] disjoint_roots[OF dj(2,1)] by blast+
    from process_files_keeps_glob[OF this, of cfg ?F fs1 s] p g1 show ?thesis by simp
  qed
  with run wf' map' map1 show ?thesis by auto
qed

subsection \<open>The whole pass\<close>

lemma prefix_two_one: "\<not> prefix (xs @ [a, b]) (xs @ [c])"
  by (auto dest: prefix_length_le)

lemma preprocess_upd:
  assumes noO: "\<not> asserts cfg" and wf: "wf_fs fs"
    and dj: "\<not> prefix (out_path cfg) (raw_path cfg)" "\<not> prefix (raw_path cfg) (out_path cfg)"
    and outp: "\<forall>q. prefix q (out_path cfg) \<longrightarrow> q \<noteq> [] \<longrightarrow> map_of fs q = None \<or> map_of fs q = Some Dir"
    and subs: "\<forall>(dest, src) \<in> set SUBSETS.
                 (map_of fs (out_path cfg @ [dest]) = None \<or> map_of fs (out_path cfg @ [dest]) = Some Dir) \<and>
                 (\<forall>f \<in> set (glob_star_dir fs (raw_path cfg @ [src]) POINTCLOUD_FILE).
                    \<not> isl (build_record cfg (out_path cfg @ [dest]) fs f) \<and>
                    map_of fs (out_path cfg @ [dest, out_name f]) \<noteq> Some Dir)"
  shows "\<exists>fs'. preprocess cfg fs = (None, fs') \<and> wf_fs fs' \<and> map_of fs' = preprocess_spec cfg fs"
proof -
  let ?out = "out_path cfg" and ?raw = "raw_path cfg"
  let ?G = "\<lambda>src. glob_star_dir fs (?raw @ [src]) POINTCLOUD_FILE"
  from subs have tr: "map_of fs (?out @ [TRAIN_DEST]) = None \<or> map_of fs (?out @ [TRAIN_DEST]) = Some Dir"
      "\<forall>f \<in> set (?G ''scans''). \<not> isl (build_record cfg (?out @ [TRAIN_DEST]) fs f) \<and>
         map_of fs (?out @ [TRAIN_DEST, out_name f]) \<noteq> Some Dir"
    and te: "map_of fs (?out @ [TEST_DEST]) = None \<or> map_of fs (?out @ [TEST_DEST]) = Some Dir"
      "\<forall>f \<in> set (?G ''scans_test''). \<not> isl (build_record cfg (?out @ [TEST_DEST]) fs f) \<and>
         map_of fs (?out @ [TEST_DEST, out_name f]) \<noteq> Some Dir"
    by (simp_all add: SUBSETS_def)
  have path: "\<forall>q. prefix q (?out @ [dest]) \<longrightarrow> q \<noteq> [] \<longrightarrow> map_of fs q = None \<or> map_of fs q = Some Dir"
    if "map_of fs (?out @ [dest]) = None \<or> map_of fs (?out @ [dest]) = Some Dir" for dest
    using outp that by (auto simp: prefix_snoc)
  have td: "TRAIN_DEST \<noteq> TEST_DEST" by (simp add: TRAIN_DEST_def TEST_DEST_def)
  have "\<exists>fs2. preprocess_subset cfg (TRAIN_DEST, ''scans'') fs = (None, fs2) \<and> wf_fs fs2 \<and>
          map_of fs2 = outputs_upd cfg (?out @ [TRAIN_DEST]) fs (?G ''scans'')
                         (mkdirs_spec (?out @ [TRAIN_DEST]) (map_of fs)) \<and>
          (\<forall>b s. glob_star_dir fs2 (?raw @ [b]) s = glob_star_dir fs (?raw @ [b]) s)"
    by (rule preprocess_subset_upd[OF noO wf dj path[OF tr(1)] _ _ tr(2)]) simp_all
  then obtain fs2 where s1: "preprocess_subset cfg (TRAIN_DEST, ''scans'') fs = (None, fs2)"
    and wf2: "wf_fs fs2"
    and map2: "map_of fs2 = outputs_upd cfg (?out @ [TRAIN_DEST]) fs (?G ''scans'')
                              (mkdirs_spec (?out @ [TRAIN_DEST]) (map_of fs))"
    and g2: "\<forall>b s. glob_star_dir fs2 (?raw @ [b]) s = glob_star_dir fs (?raw @ [b]) s"
    by blast
  have frame2: "map_of fs2 q = map_of fs q"
    if "\<forall>n. q \<noteq> ?out @ [TRAIN_DEST, n]" and "\<not> prefix q (?out @ [TRAIN_DEST])" for q
    using that by (simp add: map2 outputs_upd_other mkdirs_spec_other)
  have path2: "\<forall>q. prefix q (?out @ [TEST_DEST]) \<longrightarrow> q \<noteq> [] \<longrightarrow>
                 map_of fs2 q = None \<or> map_of fs2 q = Some Dir"
  proof (intro allI impI)
    fix q assume q: "prefix q (?out @ [TEST_DEST])" "q \<noteq> []"
    have "\<forall>n. q \<noteq> ?out @ [TRAIN_DEST, n]"
      using q(1) prefix_two_one[of ?out TRAIN_DEST _ TEST_DEST] by auto
    then have "map_of fs2 q = mkdirs_spec (?out @ [TRAIN_DEST]) (map_of fs) q"
      by (simp add: map2 outputs_upd_other)
    with q path[OF te(1)] show "map_of fs2 q = None \<or> map_of fs2 q = Some Dir"
      by (auto simp: mkdirs_spec_def)
  qed
  have raw2: "\<forall>ys. map_of fs2 (?raw @ ys) = map_of fs (?raw @ ys)"
  proof
    fix ys
    have "\<not> prefix (?out @ [TRAIN_DEST, n]) (?raw @ ys)" for n
      using disjoint_roots[OF dj] by blast
    then have "\<forall>n. ?raw @ ys \<noteq> ?out @ [TRAIN_DEST, n]" by (metis prefix_order.refl)
    moreover have "\<not> prefix (?raw @ ys) (?out @ [TRAIN_DEST])"
      using disjoint_roots[OF dj(2,1)] by blast
    ultimately show "map_of fs2 (?raw @ ys) = map_of fs (?raw @ ys)" by (rule frame2)
  qed
  have files2: "\<forall>f \<in> set (?G ''scans_test''). \<not> isl (build_record cfg (?out @ [TEST_DEST]) fs f) \<and>
                  map_of fs2 (?out @ [TEST_DEST, out_name f]) \<noteq> Some Dir"
  proof
    fix f assume f: "f \<in> set (?G ''scans_test'')"
    have "map_of fs2 (?out @ [TEST_DEST, out_name f]) = map_of fs (?out @ [TEST_DEST, out_name f])"
      using td by (intro frame2) (auto dest: prefix_length_le)
    with te(2) f show "\<not> isl (build_record cfg (?out @ [TEST_DEST]) fs f) \<and>
                  map_of fs2 (?out @ [TEST_DEST, out_name f]) \<noteq> Some Dir" by simp
  qed
  have "\<exists>fs3. preprocess_subset cfg (TEST_DEST, ''scans_test'') fs2 = (None, fs3) \<and> wf_fs fs3 \<and>
          map_of fs3 = outputs_upd cfg (?out @ [TEST_DEST]) fs (?G ''scans_test'')
                         (mkdirs_spec (?out @ [TEST_DEST]) (map_of fs2)) \<and>
          (\<forall>b s. glob_star_dir fs3 (?raw @ [b]) s = glob_star_dir fs2 (?raw @ [b]) s)"
    using g2 raw2 by (intro preprocess_subset_upd[OF noO wf2 dj path2 _ _ files2]) simp_all
  then obtain fs3 where s2: "preprocess_subset cfg (TEST_DEST, ''scans_test'') fs2 = (None, fs3)"
    and wf3: "wf_fs fs3"
    and map3: "map_of fs3 = outputs_upd cfg (?out @ [TEST_DEST]) fs (?G ''scans_test'')
                              (mkdirs_spec (?out @ [TEST_DEST]) (map_of fs2))"
    by blast
  have "preprocess cfg fs = (None, fs3)" by (simp add: preprocess_def SUBSETS_def s1 s2)
  moreover have "map_of fs3 = preprocess_spec cfg fs"
    by (simp add: preprocess_spec_def SUBSETS_def map3 map2)
  ultimately show ?thesis using wf3 by blast
qed

text \<open>Listings after one subset: the output directory gains the output names in
  discovery order, first write first; directories off its path are unchanged;
  so is the raw listing.\<close>

lemma preprocess_subset_children:
  assumes wf: "wf_fs fs"
    and dj: "\<not> prefix (out_path cfg) (raw_path cfg)" "\<not> prefix (raw_path cfg) (out_path cfg)"
    and run: "preprocess_subset cfg (dest, src) fs = (None, fs')"
  shows "children fs' (out_path cfg @ [dest]) =
           fold (\<lambda>n cs. if n \<in> set cs then cs else cs @ [n])
             (map out_name (glob_star_dir fs (raw_path cfg @ [src]) POINTCLOUD_FILE))
             (children fs (out_path cfg @ [dest])) \<and>
         (\<forall>d. \<not> prefix d (out_path cfg @ [dest]) \<longrightarrow> children fs' d = children fs d) \<and>
         (\<forall>b s. glob_star_dir fs' (raw_path cfg @ [b]) s = glob_star_dir fs (raw_path cfg @ [b]) s)"
proof -
  let ?po = "out_path cfg @ [dest]"
  from run obtain fs1 where m: "mkdir_parents fs ?po = Inr fs1"
    and p: "process_files cfg ?po (glob_star_dir fs1 (raw_path cfg @ [src]) POINTCLOUD_FILE) fs1 = (None, fs')"
    by (auto simp: preprocess_subset_def Let_def then_outcome_None lift_outcome_def split: sum.splits)
  from mkdir_parents_Inr[OF wf m] obtain new where
    fs1: "fs1 = fs @ new" and new: "\<forall>(k, e) \<in> set new. e = Dir \<and> prefix k ?po"
    by blast
  from new have newp: "\<forall>(k, e) \<in> set new. prefix k ?po" by auto
  have g1: "glob_star_dir fs1 (raw_path cfg @ [b]) s = glob_star_dir fs (raw_path cfg @ [b]) s" for b s
    by (rule mkdir_keeps_raw_glob[OF wf m dj])
  have c1: "children fs1 d = children fs d" if "d = ?po \<or> \<not> prefix d ?po" for d
    using children_mkdir_new[OF newp that] by (simp add: fs1 children_append)
  from process_files_children[OF p] c1 g1
  have "children fs' ?po =
          fold (\<lambda>n cs. if n \<in> set cs then cs else cs @ [n])
            (map out_name (glob_star_dir fs (raw_path cfg @ [src]) POINTCLOUD_FILE)) (children fs ?po) \<and>
        (\<forall>d. \<not> prefix d ?po \<longrightarrow> children fs' d = children fs d)"
    by auto
  moreover have "glob_star_dir fs' (raw_path cfg @ [b]) s = glob_star_dir fs (raw_path cfg @ [b]) s" for b s
  proof -
    have "\<not> prefix (raw_path cfg @ [b]) ?po" and "\<not> prefix ?po (raw_path cfg @ [b])"
      using disjoint_roots[OF dj] disjoint_roots[OF dj(2,1)] by blast+
    from process_files_keeps_glob[OF this, of cfg _ fs1 s] p g1 show ?thesis by (metis snd_conv)
  qed
  ultimately show ?thesis by blast
qed

text \<open>Listings after the whole pass.\<close>

lemma preprocess_children:
  assumes wf: "wf_fs fs"
    and dj: "\<not> prefix (out_path cfg) (raw_path cfg)" "\<not> prefix (raw_path cfg) (out_path cfg)"
    and run: "preprocess cfg fs = (None, fs')"
  shows "children fs' (out_path cfg @ [TRAIN_DEST]) =
           fold (\<lambda>n cs. if n \<in> set cs then cs else cs @ [n])
             (map out_name (glob_star_dir fs (raw_path cfg @ [''scans'']) POINTCLOUD_FILE))
             (children fs (out_path cfg @ [TRAIN_DEST])) \<and>
         children fs' (out_path cfg @ [TEST_DEST]) =
           fold (\<lambda>n cs. if n \<in> set cs then cs else cs @ [n])
             (map out_name (glob_star_dir fs (raw_path cfg @ [''scans_test'']) POINTCLOUD_FILE))
             (children fs (out_path cfg @ [TEST_DEST]))"
proof -
  from run obtain fs2 where s1: "preprocess_subset cfg (TRAIN_DEST, ''scans'') fs = (None, fs2)"
    and s2: "preprocess_subset cfg (TEST_DEST, ''scans_test'') fs2 = (None, fs')"
    by (auto simp: preprocess_def SUBSETS_def then_outcome_None)
  from preprocess_subset_None_dir[OF wf s1] have wf2: "wf_fs fs2" by simp
  have td: "\<not> prefix (out_path cfg @ [TEST_DEST]) (out_path cfg @ [TRAIN_DEST])"
    and dt: "\<not> prefix (out_path cfg @ [TRAIN_DEST]) (out_path cfg @ [TEST_DEST])"
    by (simp_all add: TRAIN_DEST_def TEST_DEST_def)
  from preprocess_subset_children[OF wf dj s1] preprocess_subset_children[OF wf2 dj s2] td dt
  show ?thesis by simp
qed

text \<open>The pass changes only the output directories, their ancestors and the
  entries directly inside them.\<close>

lemma preprocess_spec_other:
  assumes "\<forall>(dest, src) \<in> set SUBSETS. \<not> prefix q (out_path cfg @ [dest]) \<and> (\<forall>n. q \<noteq> out_path cfg @ [dest, n])"
  shows "preprocess_spec cfg fs q = map_of fs q"
  using assms by (simp add: preprocess_spec_def SUBSETS_def outputs_upd_other mkdirs_spec_other)

lemma preprocess_spec_out_entry:
  "m \<noteq> TRAIN_DEST \<Longrightarrow> m \<noteq> TEST_DEST \<Longrightarrow>
     preprocess_spec cfg fs (out_path cfg @ [m]) = map_of fs (out_path cfg @ [m])"
  by (intro preprocess_spec_other) (auto simp: SUBSETS_def)

text \<open>With no scan under either raw subset the pass only creates the output
  directories, so whether asserts run does not matter, and every entry below
  an output subdirectory is left as it was.\<close>

lemma preprocess_no_scans:
  assumes wf: "wf_fs fs"
    and dj: "\<not> prefix (out_path cfg) (raw_path cfg)" "\<not> prefix (raw_path cfg) (out_path cfg)"
    and none: "\<forall>(dest, src) \<in> set SUBSETS. glob_star_dir fs (raw_path cfg @ [src]) POINTCLOUD_FILE = []"
  shows "preprocess cfg fs = preprocess (cfg\<lparr>asserts := False\<rparr>) fs"
proof -
  let ?c0 = "cfg\<lparr>asserts := False\<rparr>"
  have step: "preprocess_subset c (dest, src) fs' = lift_outcome (mkdir_parents fs' (out_path cfg @ [dest])) fs'"
    if "wf_fs fs'" "glob_star_dir fs' (raw_path cfg @ [src]) POINTCLOUD_FILE = []"
       "out_path c = out_path cfg" "raw_path c = raw_path cfg" for c dest src fs'
  proof (cases "mkdir_parents fs' (out_path cfg @ [dest])")
    case (Inr fs1)
    with mkdir_keeps_raw_glob[OF that(1) Inr dj] that(2-4) show ?thesis
      by (simp add: preprocess_subset_def)
  qed (simp add: preprocess_subset_def that(3))
  have g: "glob_star_dir fs (raw_path cfg @ [''scans'']) POINTCLOUD_FILE = []"
    "glob_star_dir fs (raw_path cfg @ [''scans_test'']) POINTCLOUD_FILE = []"
    using none by (simp_all add: SUBSETS_def)
  show ?thesis
  proof (cases "mkdir_parents fs (out_path cfg @ [TRAIN_DEST])")
    case (Inr fs1)
    from mkdir_parents_Inr[OF wf Inr] have wf1: "wf_fs fs1" by simp
    have g1: "glob_star_dir fs1 (raw_path cfg @ [''scans_test'']) POINTCLOUD_FILE = []"
      using mkdir_keeps_raw_glob[OF wf Inr dj] g(2) by simp
    have e: "preprocess_all c [] = Pair None" for c by (rule ext) simp
    show ?thesis
      using Inr step[OF wf g(1)] step[OF wf1 g1]
      by (simp add: preprocess_def SUBSETS_def e)
  qed (simp add: preprocess_def SUBSETS_def step[OF wf g(1)])
qed

lemma preprocess_spec_no_scans:
  assumes "\<forall>(dest, src) \<in> set SUBSETS. glob_star_dir fs (raw_path cfg @ [src]) POINTCLOUD_FILE = []"
  shows "preprocess_spec cfg fs (out_path cfg @ [d, n]) = map_of fs (out_path cfg @ [d, n])"
  using assms by (simp add: preprocess_spec_def SUBSETS_def outputs_upd_def mkdirs_spec_other)

text \<open>
  C25: Refinement and liveness of the preprocessing pass (lines 22--48) under
  \<^verbatim>\<open>python -O\<close>. On a well-formed tree in which the raw root and the output
  root lie outside each other, no file stands on the way to the output
  directories, every scan the two globs find can be built into a record and no
  output name is taken by a directory, the pass ends normally, keeps the tree
  well formed, and leaves exactly the map of its contract \<open>preprocess_spec\<close>.
\<close>

theorem preprocess_refines:
  assumes noO: "\<not> asserts cfg" and wf: "wf_fs fs"
    and dj: "\<not> prefix (out_path cfg) (raw_path cfg)" "\<not> prefix (raw_path cfg) (out_path cfg)"
    and outp: "\<forall>q. prefix q (out_path cfg) \<longrightarrow> q \<noteq> [] \<longrightarrow> map_of fs q = None \<or> map_of fs q = Some Dir"
    and subs: "\<forall>(dest, src) \<in> set SUBSETS.
                 (map_of fs (out_path cfg @ [dest]) = None \<or> map_of fs (out_path cfg @ [dest]) = Some Dir) \<and>
                 (\<forall>f \<in> set (glob_star_dir fs (raw_path cfg @ [src]) POINTCLOUD_FILE).
                    \<not> isl (build_record cfg (out_path cfg @ [dest]) fs f) \<and>
                    map_of fs (out_path cfg @ [dest, out_name f]) \<noteq> Some Dir)"
  shows "\<exists>fs'. preprocess cfg fs = (None, fs') \<and> wf_fs fs' \<and> map_of fs' = preprocess_spec cfg fs"
  using preprocess_upd[OF assms] .

theorem preprocess_refines_witness:
  "\<exists>fs'. preprocess (scannet_config\<lparr>asserts := False\<rparr>) ex_fs = (None, fs') \<and> wf_fs fs' \<and>
         map_of fs' = preprocess_spec (scannet_config\<lparr>asserts := False\<rparr>) ex_fs"
proof (rule preprocess_refines)
  let ?c = "scannet_config\<lparr>asserts := False\<rparr>"
  show "\<not> asserts ?c" by simp
  show "wf_fs ex_fs" by (simp add: sample_eval builder_eval wf_fs_def)
  show "\<not> prefix (out_path ?c) (raw_path ?c)" and "\<not> prefix (raw_path ?c) (out_path ?c)"
    by (simp_all add: scannet_config_def SCANNET_OUT_PATH_def SCANNET_RAW_PATH_def)
  show "\<forall>q. prefix q (out_path ?c) \<longrightarrow> q \<noteq> [] \<longrightarrow> map_of ex_fs q = None \<or> map_of ex_fs q = Some Dir"
    by (auto simp: scannet_config_def SCANNET_OUT_PATH_def prefix_Cons sample_eval builder_eval)
  show "\<forall>(dest, src) \<in> set SUBSETS.
          (map_of ex_fs (out_path ?c @ [dest]) = None \<or> map_of ex_fs (out_path ?c @ [dest]) = Some Dir) \<and>
          (\<forall>f \<in> set (glob_star_dir ex_fs (raw_path ?c @ [src]) POINTCLOUD_FILE).
             \<not> isl (build_record ?c (out_path ?c @ [dest]) ex_fs f) \<and>
             map_of ex_fs (out_path ?c @ [dest, out_name f]) \<noteq> Some Dir)"
    by (simp add: sample_eval builder_eval)
qed

end
