(* ===== verification/Spec2Isabelle.thy ===== *)
theory Spec2Isabelle
  imports Manifest_Writer Label_Fix Preprocess_Spec
begin

text \<open>
  \<^bold>\<open>ScanNet preprocessing: a verification development.\<close>

  The program is the script \<^verbatim>\<open>src/lib/datasets/preprocessing/scannet.py\<close>
  (83 lines, run once, top to bottom). It converts raw ScanNet scans into a
  processed dataset tree and writes train/val/test file lists. Its parts run in
  sequence and share only the file system:
  \<^enum> File discovery (lines 23--26): for each entry of \<^verbatim>\<open>SUBSETS\<close>, create the
    output directory and glob the raw subset for \<^verbatim>\<open>*/*_vh_clean_2.ply\<close>.
  \<^enum> Record builder (lines 27--48): per scan, read it, assert a constant alpha
    column, read the \<^verbatim>\<open>.labels\<close> companion (assert equal vertex count and close
    coordinates) or use zeros, stack six geometry columns and the label column,
    save, then assert crop coverage.
  \<^enum> Scene partitioner (lines 50--60): scene ids of the processed training
    files, shuffled, split at \<^verbatim>\<open>num_train\<close>, files selected by substring.
  \<^enum> Manifest writer (lines 61--75): test list, four sanity asserts, three
    manifests.
  \<^enum> Label bug-fix pass (lines 15--19 and 77--84): for each pattern of
    \<^verbatim>\<open>BUGS\<close>, relabel the matched output files. The loop is commented out,
    so it never runs; it is modelled as it would run if enabled and is not
    part of \<open>run\<close>.

  \<^bold>\<open>Theories.\<close>
  \<^item> \<open>Prelude\<close>: paths, the exception datatype \<open>error\<close> (one
    \<open>AssertionError\<close> per assert site), \<open>ebind\<close> for exception propagation,
    \<open>py_assert\<close> (the \<^verbatim>\<open>assert\<close> statement, skipped with its test under
    \<^verbatim>\<open>python -O\<close>), the outcome of an effectful step (\<open>error option\<close> and the
    state left behind, so writes before an exception persist), and Python's
    substring test \<open>py_in\<close>, proved equal to \<open>sublist\<close>.
  \<^item> \<open>Numpy_Table\<close>: numpy 2-D arrays as \<open>table\<close> (width and rows, floats as
    reals) with the slicing, \<open>zeros_like\<close>, \<open>hstack\<close>, \<open>unique\<close> and
    \<open>allclose\<close> (numpy tolerances and broadcasting) the script calls, and the
    shape lemmas.
  \<^item> \<open>Pathlib_FS\<close>: the file system as an association list of paths to
    directories, point-cloud files and text files, with \<open>wf_fs\<close> (no duplicate
    path, every parent a directory); pathlib's \<open>name\<close>, \<open>stem\<close>,
    \<open>suffix\<close>, \<open>is_file\<close>, the two globs, \<open>mkdir(parents=True,
    exist_ok=True)\<close> (a \<^theory_text>\<open>function\<close> terminating by the path length), opening
    for writing, and the codec \<open>read_plyfile\<close>/\<open>save_point_cloud\<close> of
    \<^verbatim>\<open>lib/pc_utils\<close> (not under \<^verbatim>\<open>src/\<close>, modelled from the spec's
    contract). Lemmas: writes and \<open>mkdir\<close> keep \<open>wf_fs\<close>; every ancestor of a
    directory is a directory; frame lemmas for one update; the glob unchanged
    by writes outside its root; the contract \<open>mkdirs_spec\<close> of \<open>mkdir\<close> with
    its refinement (C23) and its error path (C24);
    \<open>children\<close> gives distinct names in a well-formed tree.
  \<^item> \<open>Pathlib_Glob\<close>: pathlib's general \<open>glob\<close> (pattern split into
    components, each matched by \<open>fnmatch\<close>, directories only before the last),
    with the lemmas that a wildcard followed by a literal selects by suffix.
  \<^item> \<open>Record_Builder\<close>: the constants, \<open>config\<close> (roots and whether asserts
    run), \<open>label_path\<close>, \<open>out_name\<close>, \<open>alpha_check\<close>, \<open>load_label\<close>,
    \<open>build_record\<close> (lines 28--44), \<open>crop_check\<close>, \<open>process_file\<close> (lines
    27--48), the loops \<open>process_files\<close>, \<open>preprocess_subset\<close>,
    \<open>preprocess_all\<close>, \<open>preprocess\<close>, and a sample tree (the spec's two-point
    example). Properties C1--C9.
  \<^item> \<open>Scene_Partition\<close>: \<open>scene_id\<close>, \<open>trainval_files\<close>,
    \<open>trainval_scenes\<close>, \<open>split_scenes\<close>, \<open>select_files\<close>,
    \<open>partition_files\<close>; the unseeded shuffle is an argument, any permutation.
    Properties C10 and C11, and the lemma \<open>substring_split_overlaps\<close>
    (substring selection is not disjoint for a fractional split).
  \<^item> \<open>Manifest_Writer\<close>: \<open>test_files\<close>, pathlib's string join \<open>join_str\<close>,
    \<open>sanity_checks\<close>, \<open>manifest_text\<close>, \<open>write_manifests\<close>, and the reader
    \<open>read_manifest\<close>; the lemmas giving the manifests after three successful
    writes and after a failing second write. Properties C12 and C15.
  \<^item> \<open>Label_Fix\<close>: \<open>BUGS\<close>, \<open>fix_label\<close> (lines 81--83),
    \<open>fix_file\<close>, \<open>fix_files\<close>, \<open>fix_bugs_all\<close>, \<open>fix_bugs\<close> (lines
    77--84). Properties C18 and C19.
  \<^item> \<open>Output_Spec\<close>: the abstract contract of the scan loop, \<open>outputs_spec\<close>
    (the file system as a map, each scan one update), the frame lemmas of the
    builder, the lemmas that directories survive the pass, the helper
    \<open>process_files_outputs\<close>, and properties C20 and C21.
  \<^item> \<open>Preprocess_Spec\<close>: the contract \<open>preprocess_spec\<close> of the whole
    preprocessing pass (each subset's directories, then its records, all built
    from the tree as it was), the frames that let one subset's writes leave the
    next subset's inputs alone, the listings of the two output directories
    after the pass, the pass on a tree with no scan (only directories are
    created, so asserts do not matter), and the refinement theorem C25.
  \<^item> This theory: \<open>run\<close>, the whole script, and the properties that span the
    components, C13, C14, C16, C17, C22, C26 and C27--C29, and the lemmas
    \<open>process_files_keep_discovery\<close> (writes never change the raw-tree
    discovery, which justifies the model's snapshot of the lazy glob of line
    26) and \<open>script_globs_are_pathlib_globs\<close> (the directly modelled globs of
    lines 26 and 51 equal pathlib's general glob). The helpers
    \<open>run_unchecked_eq\<close> (the \<^verbatim>\<open>-O\<close> run after a normal pass is the split
    and the three writes), \<open>preprocess_ready\<close>, \<open>manifests_writable\<close> and
    \<open>run_listing_shape\<close> (the run as three writes of the two output
    listings, named by the abbreviation \<open>listing_after_pass\<close>) carry the
    whole-run proofs. Sample trees: two scene directories holding scans of the
    same name; an output file left by an earlier run; a \<^verbatim>\<open>val.txt\<close> that
    is a directory beside an old \<^verbatim>\<open>test.txt\<close>; empty raw subsets with a
    directory named like a processed file.

  \<^bold>\<open>What is shown.\<close>
  Record builder: the output rows for labelled (C1) and unlabelled (C2) scans;
  each integrity check raises before anything is written (C3--C5); with
  assertions on, every file raises (C6), after its output was written (C7);
  the \<^verbatim>\<open>-O\<close> behaviour (C8); the label
  and output file names (C9).
  Partition: all scenes go to training and validation is empty (C10); the
  training list is every processed file (C11).
  Manifests: read-back round trip (C12); the \<open>is_file\<close> assert of line 65
  passes exactly when every \<^verbatim>\<open>*.ply\<close> entry of \<^verbatim>\<open>out/train\<close> is a file
  (C15).
  Whole run: with assertions on, the run's outcome is the first scan's
  exception and no manifest is written (C13); the assert of line 64 never
  fires (C14); under \<^verbatim>\<open>-O\<close> the output file of a name holds the record of
  the last scan of that name, earlier scans of the name in other scene
  directories being overwritten (C16); after a normal end the three manifests hold exactly the
  processed training files, nothing, and the test files (C17); under
  \<^verbatim>\<open>-O\<close>, after a normal preprocessing pass the run ends normally exactly when
  no manifest name is a directory (C22); under \<^verbatim>\<open>-O\<close> the whole script runs
  to its end on every tree meeting the conditions of C25 with no manifest
  name a directory (C26); on such a tree, for any permuting shuffle, the
  manifests list every \<^verbatim>\<open>.ply\<close> name of the two output directories in
  listing order, files of an earlier run included, and \<^verbatim>\<open>val.txt\<close> is
  empty (C27); the three writes are not atomic: a \<^verbatim>\<open>val.txt\<close> directory
  raises after \<^verbatim>\<open>train.txt\<close> was replaced and leaves \<^verbatim>\<open>test.txt\<close> as it
  was (C28); with assertions on, the sanity asserts are reached only without
  scans, and then the assert of line 65 fires exactly when a
  \<^verbatim>\<open>*.ply\<close> entry of the training output is not a file, writing no manifest
  (C29).
  Directory creation: line 25 refines its contract when no file is on the
  way (C23) and raises the right \<^verbatim>\<open>OSError\<close> otherwise (C24).
  Preprocessing pass: under \<^verbatim>\<open>-O\<close> it refines \<open>preprocess_spec\<close> and ends
  normally (C25).
  Scan loop: under \<^verbatim>\<open>-O\<close> the loop refines the abstract contract and
  ends normally (C20); output tables
  are well formed with \<open>min 6 k + 1\<close> columns and one row per point (C21).
  Bug-fix pass: the relabelling on every branch (C18), and that no pattern
  matches the names this script produces, so the pass would change nothing
  (C19).

  \<^bold>\<open>Bounds, fuel, choices.\<close> Every loop of the script runs over a finite list
  (glob results, \<^verbatim>\<open>SUBSETS\<close>, manifest entries), so each is a structural
  \<^theory_text>\<open>fun\<close> and no fuel is needed; \<open>mkdir_parents\<close> recurses on a shorter
  path (the termination proof of the function package). Python integers and
  numpy floats are unbounded values here
  (\<open>nat\<close>, \<open>real\<close>); no width matters to the claims. Directory listing
  order is the creation order of the association list, one order the OS may
  return: a write to an existing name keeps its place, a new name goes last.
  The shuffle of line 53 is an argument of \<open>run\<close>; C27 assumes only that it
  permutes its input.

  \<^bold>\<open>Not modelled.\<close> NaN and infinities in point clouds; the PLY byte format and
  the float32/uint8 quantisation of the codec; file permissions, symlinks and
  concurrent modification of the tree; the \<^verbatim>\<open>print\<close> of line 82;
  character classes in glob patterns (none of the script's patterns has one);
  the imports of lines 1--6.

  The codec of \<^verbatim>\<open>lib/pc_utils\<close> is a contract only (the component stays
  partly modelled): its internals are outside \<^verbatim>\<open>src/\<close>.

  The asserts of lines 66 and 67 are modelled in \<open>sanity_checks\<close>. Line 66
  never fires, since the validation list is always empty (C10). The only
  branch of line 67 that C29 does not state is a test-output directory
  named like a processed file. The unmapped lines of the script are its
  imports (lines 1--6); everything else is mapped to a definition.
\<close>

subsection \<open>The whole script\<close>

text \<open>
  Lines 22--75 as one run: preprocess both subsets, list and split the
  training files (\<open>shuffle\<close> is the permutation \<^verbatim>\<open>random.shuffle\<close> drew),
  list the test files, run the sanity asserts and write the manifests.
\<close>

definition run :: "config \<Rightarrow> (string list \<Rightarrow> string list) \<Rightarrow> fs \<Rightarrow> fs outcome" where
  "run cfg shuffle fs =
     then_outcome (preprocess cfg fs) (\<lambda>fs1.
       (let tv = trainval_files cfg fs1;
            (train, val) = partition_files (shuffle (trainval_scenes tv)) tv;
            test = test_files cfg fs1
        in then_outcome (lift_outcome (ebind (sanity_checks cfg fs1 train val test) (\<lambda>_. Inr fs1)) fs1)
             (write_manifests cfg train val test)))"

subsection \<open>A tree with a name clash\<close>

text \<open>Two scene directories that both hold a scan named
  \<^verbatim>\<open>x_vh_clean_2.ply\<close>, neither with a label file.\<close>

definition ex_pc_b :: table where
  "ex_pc_b = \<lparr>ncols = 7, rows = [[5, 5, 5, 9, 9, 9, 255]]\<rparr>"

definition ex_clash_a :: path where
  "ex_clash_a = SCANNET_RAW_PATH @ [''scans'', ''sA'', ''x_vh_clean_2.ply'']"

definition ex_clash_b :: path where
  "ex_clash_b = SCANNET_RAW_PATH @ [''scans'', ''sB'', ''x_vh_clean_2.ply'']"

definition ex_clash_fs :: fs where
  "ex_clash_fs = ex_fs_ready @
     [(SCANNET_RAW_PATH @ [''scans'', ''sA''], Dir), (ex_clash_a, PlyFile False ex_pc),
      (SCANNET_RAW_PATH @ [''scans'', ''sB''], Dir), (ex_clash_b, PlyFile False ex_pc_b)]"

text \<open>A tree in which an earlier run left a processed file in the training
  output directory.\<close>

definition ex_stale_fs :: fs where
  "ex_stale_fs = ex_fs_ready @ [(SCANNET_OUT_PATH @ [TRAIN_DEST, ''scene0999_00.ply''], PlyFile False ex_pc)]"

text \<open>A tree in which \<^verbatim>\<open>val.txt\<close> is a directory and an earlier run left a
  \<^verbatim>\<open>test.txt\<close>.\<close>

definition ex_val_dir_fs :: fs where
  "ex_val_dir_fs = ex_fs_ready @
     [(SCANNET_OUT_PATH @ [''val.txt''], Dir), (SCANNET_OUT_PATH @ [''test.txt''], TextFile ''test/old.ply\<newline>'')]"

text \<open>A tree with empty raw subsets and a directory named like a processed
  file in the training output directory.\<close>

definition ex_noscan_fs :: fs where
  "ex_noscan_fs =
     [([''data''], Dir), ([''data'', ''chrischoy''], Dir),
      ([''data'', ''chrischoy'', ''datasets''], Dir), (SCANNET_RAW_PATH, Dir),
      (SCANNET_RAW_PATH @ [''scans''], Dir), (SCANNET_RAW_PATH @ [''scans_test''], Dir),
      (SCANNET_OUT_PATH, Dir), (SCANNET_OUT_PATH @ [TRAIN_DEST], Dir),
      (SCANNET_OUT_PATH @ [TRAIN_DEST, ''scene0000_00.ply''], Dir)]"

text \<open>The \<^verbatim>\<open>.ply\<close> names of output directory \<open>dest\<close> once the pass has
  written the outputs of the scans of raw subset \<open>src\<close>: the names already
  there, then the new ones, in listing order.\<close>

abbreviation listing_after_pass :: "config \<Rightarrow> fs \<Rightarrow> string \<Rightarrow> string \<Rightarrow> string list" where
  "listing_after_pass cfg fs dest src \<equiv>
     filter (suffix ''.ply'') (rev (remdups (rev (children fs (out_path cfg @ [dest]) @
       map out_name (glob_star_dir fs (raw_path cfg @ [src]) POINTCLOUD_FILE)))))"

subsection \<open>Properties of the whole run\<close>

lemmas run_eval = builder_eval sample_eval mkdir_parents.simps preprocess_subset_def preprocess_def
  trainval_files_def trainval_scenes_def scene_id_def partition_files_def split_scenes_def
  select_files_def test_files_def sanity_checks_def all_listed_def join_str_def path_parts_def
  manifest_text_def write_manifests_def run_def ex_pc_b_def ex_clash_a_def ex_clash_b_def
  ex_clash_fs_def

text \<open>Under \<^verbatim>\<open>-O\<close>, after a normal preprocessing pass, the script is the split
  followed by the three writes.\<close>

lemma run_unchecked_eq:
  assumes "\<not> asserts cfg" and "preprocess cfg fs = (None, fs1)"
  shows "\<exists>train val.
           partition_files (shuffle (trainval_scenes (trainval_files cfg fs1))) (trainval_files cfg fs1) = (train, val) \<and>
           run cfg shuffle fs = write_manifests cfg train val (test_files cfg fs1) fs1"
proof -
  obtain train val where
    part: "partition_files (shuffle (trainval_scenes (trainval_files cfg fs1))) (trainval_files cfg fs1) = (train, val)"
    by fastforce
  have "run cfg shuffle fs = write_manifests cfg train val (test_files cfg fs1) fs1"
    using assms by (simp add: run_def Let_def part sanity_checks_def)
  with part show ?thesis by blast
qed

text \<open>Under \<^verbatim>\<open>-O\<close>, on a tree meeting the conditions of the preprocessing
  refinement, the pass ends normally in a well-formed tree with the output
  directory in place and every other name of the output directory untouched.\<close>

lemma preprocess_ready:
  assumes noO: "\<not> asserts cfg" and wf: "wf_fs fs"
    and dj: "\<not> prefix (out_path cfg) (raw_path cfg)" "\<not> prefix (raw_path cfg) (out_path cfg)"
    and outp: "\<forall>q. prefix q (out_path cfg) \<longrightarrow> q \<noteq> [] \<longrightarrow> map_of fs q = None \<or> map_of fs q = Some Dir"
    and subs: "\<forall>(dest, src) \<in> set SUBSETS.
                 (map_of fs (out_path cfg @ [dest]) = None \<or> map_of fs (out_path cfg @ [dest]) = Some Dir) \<and>
                 (\<forall>f \<in> set (glob_star_dir fs (raw_path cfg @ [src]) POINTCLOUD_FILE).
                    \<not> isl (build_record cfg (out_path cfg @ [dest]) fs f) \<and>
                    map_of fs (out_path cfg @ [dest, out_name f]) \<noteq> Some Dir)"
  shows "\<exists>fs1. preprocess cfg fs = (None, fs1) \<and> wf_fs fs1 \<and> is_dir fs1 (out_path cfg) \<and>
           (\<forall>m. m \<noteq> TRAIN_DEST \<longrightarrow> m \<noteq> TEST_DEST \<longrightarrow>
                map_of fs1 (out_path cfg @ [m]) = map_of fs (out_path cfg @ [m]))"
proof -
  from preprocess_upd[OF noO wf dj outp subs] obtain fs1 where pre: "preprocess cfg fs = (None, fs1)"
    and map1: "map_of fs1 = preprocess_spec cfg fs" by blast
  from preprocess_None_out_dir[OF wf pre] have "wf_fs fs1" and "is_dir fs1 (out_path cfg)"
    by simp_all
  with pre map1 show ?thesis by (simp add: preprocess_spec_out_entry)
qed

text \<open>With moreover no manifest name a directory, the three writes cannot
  fail.\<close>

lemma manifests_writable:
  assumes noO: "\<not> asserts cfg" and wf: "wf_fs fs"
    and dj: "\<not> prefix (out_path cfg) (raw_path cfg)" "\<not> prefix (raw_path cfg) (out_path cfg)"
    and outp: "\<forall>q. prefix q (out_path cfg) \<longrightarrow> q \<noteq> [] \<longrightarrow> map_of fs q = None \<or> map_of fs q = Some Dir"
    and subs: "\<forall>(dest, src) \<in> set SUBSETS.
                 (map_of fs (out_path cfg @ [dest]) = None \<or> map_of fs (out_path cfg @ [dest]) = Some Dir) \<and>
                 (\<forall>f \<in> set (glob_star_dir fs (raw_path cfg @ [src]) POINTCLOUD_FILE).
                    \<not> isl (build_record cfg (out_path cfg @ [dest]) fs f) \<and>
                    map_of fs (out_path cfg @ [dest, out_name f]) \<noteq> Some Dir)"
    and man: "map_of fs (out_path cfg @ [''train.txt'']) \<noteq> Some Dir"
      "map_of fs (out_path cfg @ [''val.txt'']) \<noteq> Some Dir"
      "map_of fs (out_path cfg @ [''test.txt'']) \<noteq> Some Dir"
  shows "\<exists>fs1. preprocess cfg fs = (None, fs1) \<and> wf_fs fs1 \<and>
           (\<forall>train val test. fst (write_manifests cfg train val test fs1) = None)"
proof -
  from preprocess_ready[OF noO wf dj outp subs] obtain fs1 where pre: "preprocess cfg fs = (None, fs1)"
    and wf1: "wf_fs fs1" and d: "is_dir fs1 (out_path cfg)"
    and keep: "\<forall>m. m \<noteq> TRAIN_DEST \<longrightarrow> m \<noteq> TEST_DEST \<longrightarrow>
                 map_of fs1 (out_path cfg @ [m]) = map_of fs (out_path cfg @ [m])" by blast
  have "\<not> is_dir fs1 (out_path cfg @ [''train.txt''])" "\<not> is_dir fs1 (out_path cfg @ [''val.txt''])"
    "\<not> is_dir fs1 (out_path cfg @ [''test.txt''])"
    using man keep by (simp_all add: is_dir_def TRAIN_DEST_def TEST_DEST_def)
  with write_manifests_ok_iff[OF wf1 d] pre wf1 show ?thesis by blast
qed

text \<open>Under the same conditions, for a shuffle that permutes, the script
  after the pass is the three writes of the listings of the two output
  directories, with an empty validation list.\<close>

lemma run_listing_shape:
  assumes noO: "\<not> asserts cfg" and wf: "wf_fs fs"
    and dj: "\<not> prefix (out_path cfg) (raw_path cfg)" "\<not> prefix (raw_path cfg) (out_path cfg)"
    and outp: "\<forall>q. prefix q (out_path cfg) \<longrightarrow> q \<noteq> [] \<longrightarrow> map_of fs q = None \<or> map_of fs q = Some Dir"
    and subs: "\<forall>(dest, src) \<in> set SUBSETS.
                 (map_of fs (out_path cfg @ [dest]) = None \<or> map_of fs (out_path cfg @ [dest]) = Some Dir) \<and>
                 (\<forall>f \<in> set (glob_star_dir fs (raw_path cfg @ [src]) POINTCLOUD_FILE).
                    \<not> isl (build_record cfg (out_path cfg @ [dest]) fs f) \<and>
                    map_of fs (out_path cfg @ [dest, out_name f]) \<noteq> Some Dir)"
    and perm: "\<forall>xs. mset (shuffle xs) = mset xs"
  shows "\<exists>fs1. preprocess cfg fs = (None, fs1) \<and> wf_fs fs1 \<and> is_dir fs1 (out_path cfg) \<and>
           (\<forall>m. m \<noteq> TRAIN_DEST \<longrightarrow> m \<noteq> TEST_DEST \<longrightarrow>
                map_of fs1 (out_path cfg @ [m]) = map_of fs (out_path cfg @ [m])) \<and>
           run cfg shuffle fs =
             write_manifests cfg (map (\<lambda>n. TRAIN_DEST @ ''/'' @ n) (listing_after_pass cfg fs TRAIN_DEST ''scans'')) []
               (map (\<lambda>n. TEST_DEST @ ''/'' @ n) (listing_after_pass cfg fs TEST_DEST ''scans_test'')) fs1"
proof -
  from preprocess_ready[OF noO wf dj outp subs] obtain fs1 where pre: "preprocess cfg fs = (None, fs1)"
    and rest: "wf_fs fs1" "is_dir fs1 (out_path cfg)"
      "\<forall>m. m \<noteq> TRAIN_DEST \<longrightarrow> m \<noteq> TEST_DEST \<longrightarrow>
                 map_of fs1 (out_path cfg @ [m]) = map_of fs (out_path cfg @ [m])" by blast
  note ch = preprocess_children[OF wf dj pre]
  have tv: "trainval_files cfg fs1 = listing_after_pass cfg fs TRAIN_DEST ''scans''"
    using ch by (simp add: trainval_files_eq fold_add_name distinct_children[OF wf])
  have te: "test_files cfg fs1 = map (\<lambda>n. TEST_DEST @ ''/'' @ n) (listing_after_pass cfg fs TEST_DEST ''scans_test'')"
    using ch by (simp add: test_files_def glob_flat_def name_def comp_def fold_add_name distinct_children[OF wf])
  have part: "partition_files (shuffle (trainval_scenes (trainval_files cfg fs1))) (trainval_files cfg fs1) =
                (map (\<lambda>n. TRAIN_DEST @ ''/'' @ n) (trainval_files cfg fs1), [])"
    using select_files_perm perm by (simp add: partition_files_def split_scenes_all)
  from run_unchecked_eq[where shuffle = shuffle, OF noO pre] part have
    "run cfg shuffle fs = write_manifests cfg (map (\<lambda>n. TRAIN_DEST @ ''/'' @ n) (trainval_files cfg fs1)) []
           (test_files cfg fs1) fs1" by auto
  with pre rest show ?thesis by (simp only: tv te) blast
qed

text \<open>With assertions on and no scan discovered, the pass only creates the
  output directories and the run is the sanity asserts, then the writes.\<close>

lemma run_no_scans_shape:
  assumes on: "asserts cfg" and wf: "wf_fs fs"
    and dj: "\<not> prefix (out_path cfg) (raw_path cfg)" "\<not> prefix (raw_path cfg) (out_path cfg)"
    and outp: "\<forall>q. prefix q (out_path cfg) \<longrightarrow> q \<noteq> [] \<longrightarrow> map_of fs q = None \<or> map_of fs q = Some Dir"
    and subs: "\<forall>(dest, src) \<in> set SUBSETS.
                 (map_of fs (out_path cfg @ [dest]) = None \<or> map_of fs (out_path cfg @ [dest]) = Some Dir) \<and>
                 glob_star_dir fs (raw_path cfg @ [src]) POINTCLOUD_FILE = []"
    and names: "\<forall>n \<in> set (children fs (out_path cfg @ [TRAIN_DEST])). CHR ''/'' \<notin> set n"
    and perm: "\<forall>xs. mset (shuffle xs) = mset xs"
  shows "\<exists>fs1. (\<forall>m. m \<noteq> TRAIN_DEST \<longrightarrow> m \<noteq> TEST_DEST \<longrightarrow>
                  map_of fs1 (out_path cfg @ [m]) = map_of fs (out_path cfg @ [m])) \<and>
           run cfg shuffle fs =
             (if \<exists>n \<in> set (children fs (out_path cfg @ [TRAIN_DEST])).
                   suffix ''.ply'' n \<and> \<not> is_file fs (out_path cfg @ [TRAIN_DEST, n])
              then (Some (AssertionError TrainListed), fs1)
              else if all_listed cfg fs1 (test_files cfg fs1)
              then write_manifests cfg (map (\<lambda>n. TRAIN_DEST @ ''/'' @ n)
                     (filter (suffix ''.ply'') (children fs (out_path cfg @ [TRAIN_DEST])))) [] (test_files cfg fs1) fs1
              else (Some (AssertionError TestListed), fs1))"
proof -
  let ?c0 = "cfg\<lparr>asserts := False\<rparr>"
  let ?L = "filter (suffix ''.ply'') (children fs (out_path cfg @ [TRAIN_DEST]))"
  let ?T = "map (\<lambda>n. TRAIN_DEST @ ''/'' @ n) ?L"
  have none: "\<forall>(dest, src) \<in> set SUBSETS. glob_star_dir fs (raw_path cfg @ [src]) POINTCLOUD_FILE = []"
    using subs by auto
  have "\<exists>fs1. preprocess ?c0 fs = (None, fs1) \<and> wf_fs fs1 \<and> map_of fs1 = preprocess_spec ?c0 fs"
    using subs by (intro preprocess_upd) (use wf dj outp in auto)
  then obtain fs1 where pre0: "preprocess ?c0 fs = (None, fs1)" and map1: "map_of fs1 = preprocess_spec ?c0 fs"
    by blast
  have pre: "preprocess cfg fs = (None, fs1)"
    using preprocess_no_scans[OF wf dj none] pre0 by simp
  have tv: "trainval_files cfg fs1 = ?L"
    using preprocess_children[OF wf dj pre] none
    by (simp add: trainval_files_eq SUBSETS_def)
  have isf: "is_file fs1 (out_path cfg @ [TRAIN_DEST, n]) = is_file fs (out_path cfg @ [TRAIN_DEST, n])" for n
    using preprocess_spec_no_scans[of fs ?c0 TRAIN_DEST n] none by (simp add: is_file_def map1)
  have keep: "map_of fs1 (out_path cfg @ [m]) = map_of fs (out_path cfg @ [m])"
    if "m \<noteq> TRAIN_DEST" "m \<noteq> TEST_DEST" for m
    using preprocess_spec_out_entry[OF that, of ?c0 fs] by (simp add: map1)
  have listed: "all_listed cfg fs1 ?T \<longleftrightarrow>
      \<not> (\<exists>n \<in> set (children fs (out_path cfg @ [TRAIN_DEST])).
            suffix ''.ply'' n \<and> \<not> is_file fs (out_path cfg @ [TRAIN_DEST, n]))"
  proof -
    have j: "join_str (out_path cfg) (TRAIN_DEST @ CHR ''/'' # n) = out_path cfg @ [TRAIN_DEST, n]"
      if "n \<in> set (children fs (out_path cfg @ [TRAIN_DEST]))" "suffix ''.ply'' n" for n
      using join_train_entry[of n "out_path cfg"] names that by simp
    show ?thesis by (auto simp: all_listed_def list_all_iff j isf)
  qed
  have part: "partition_files (shuffle (trainval_scenes ?L)) ?L = (?T, [])"
    using select_files_perm perm by (simp add: partition_files_def split_scenes_all)
  have r: "run cfg shuffle fs =
      (if all_listed cfg fs1 ?T
       then (if all_listed cfg fs1 (test_files cfg fs1) then write_manifests cfg ?T [] (test_files cfg fs1) fs1
             else (Some (AssertionError TestListed), fs1))
       else (Some (AssertionError TrainListed), fs1))"
    using on by (simp add: run_def Let_def pre tv part sanity_checks_def all_listed_def)
  from keep r listed show ?thesis by auto
qed

text \<open>
  C13: With assertions on, once the training output directory exists and the
  raw training root holds a scan, the outcome of the whole script is the
  outcome of processing that first scan (which by C6 is an exception), and
  none of the three manifests is written or changed.
\<close>

theorem run_stops_at_first_scan:
  assumes "asserts cfg" and "wf_fs fs"
    and "mkdir_parents fs (out_path cfg @ [TRAIN_DEST]) = Inr fs1"
    and "glob_star_dir fs1 (raw_path cfg @ [''scans'']) POINTCLOUD_FILE = f # fls"
  shows "run cfg shuffle fs = process_file cfg (out_path cfg @ [TRAIN_DEST]) f fs1 \<and>
         (\<forall>m \<in> {''train.txt'', ''val.txt'', ''test.txt''}.
            map_of (snd (run cfg shuffle fs)) (out_path cfg @ [m]) = map_of fs (out_path cfg @ [m]))"
proof
  have "preprocess_subset cfg (TRAIN_DEST, ''scans'') fs = process_file cfg (out_path cfg @ [TRAIN_DEST]) f fs1"
    using assms(3,4) by (simp add: preprocess_subset_def process_file_stops[OF assms(1)])
  then show eq: "run cfg shuffle fs = process_file cfg (out_path cfg @ [TRAIN_DEST]) f fs1"
    by (simp add: run_def preprocess_def SUBSETS_def process_file_stops[OF assms(1)])
  show "\<forall>m \<in> {''train.txt'', ''val.txt'', ''test.txt''}.
          map_of (snd (run cfg shuffle fs)) (out_path cfg @ [m]) = map_of fs (out_path cfg @ [m])"
  proof
    fix m :: string assume m: "m \<in> {''train.txt'', ''val.txt'', ''test.txt''}"
    then have "\<forall>n. out_path cfg @ [m] \<noteq> (out_path cfg @ [TRAIN_DEST]) @ [n]" by auto
    then have "map_of (snd (run cfg shuffle fs)) (out_path cfg @ [m]) = map_of fs1 (out_path cfg @ [m])"
      by (simp add: eq process_file_frame)
    also have "\<dots> = map_of fs (out_path cfg @ [m])"
      using m by (intro mkdir_parents_frame[OF assms(2,3)]) (auto simp: TRAIN_DEST_def)
    finally show "map_of (snd (run cfg shuffle fs)) (out_path cfg @ [m]) = map_of fs (out_path cfg @ [m])" .
  qed
qed

theorem run_stops_at_first_scan_witness:
  "run scannet_config (\<lambda>xs. xs) ex_fs
     = process_file scannet_config (out_path scannet_config @ [TRAIN_DEST]) ex_scan ex_fs_ready \<and>
   map_of (snd (run scannet_config (\<lambda>xs. xs) ex_fs)) (out_path scannet_config @ [''train.txt''])
     = map_of ex_fs (out_path scannet_config @ [''train.txt'']) \<and>
   map_of (snd (run scannet_config (\<lambda>xs. xs) ex_fs)) (out_path scannet_config @ [''val.txt''])
     = map_of ex_fs (out_path scannet_config @ [''val.txt'']) \<and>
   map_of (snd (run scannet_config (\<lambda>xs. xs) ex_fs)) (out_path scannet_config @ [''test.txt''])
     = map_of ex_fs (out_path scannet_config @ [''test.txt''])"
proof -
  have a: "asserts scannet_config" and w: "wf_fs ex_fs"
    and m: "mkdir_parents ex_fs (out_path scannet_config @ [TRAIN_DEST]) = Inr ex_fs_ready"
    and g: "glob_star_dir ex_fs_ready (raw_path scannet_config @ [''scans'']) POINTCLOUD_FILE = [ex_scan]"
    by (simp_all add: run_eval wf_fs_def)
  from run_stops_at_first_scan[OF a w m g, of "\<lambda>xs. xs"] show ?thesis
    by blast
qed

text \<open>
  The loop of line 26 consumes a lazy \<^verbatim>\<open>glob\<close> while it writes; as long
  as the raw root and the output directory lie outside each other, processing
  any sequence of scans leaves the discovery of the raw root unchanged, so the
  model's snapshot of the glob before the loop is what the loop sees.
\<close>

theorem process_files_keep_discovery:
  assumes "\<not> prefix base phase_out" and "\<not> prefix phase_out base"
  shows "glob_star_dir (snd (process_files cfg phase_out fls fs)) base s = glob_star_dir fs base s"
proof (induction fls arbitrary: fs)
  case Nil
  then show ?case by simp
next
  case (Cons f fls)
  show ?case
  proof (cases "process_file cfg phase_out f fs")
    case (Pair r fs')
    have "glob_star_dir fs' base s = glob_star_dir fs base s"
      using process_file_keeps_glob[OF assms, of cfg f fs s] Pair by simp
    with Pair Cons.IH[of fs'] show ?thesis
      by (cases r) simp_all
  qed
qed

text \<open>
  C14: Whatever the file system and whatever order the shuffle draws, the
  script never fails the train/validation disjointness assert of line 64:
  the preprocessing pass raises other exceptions only, and with
  \<^verbatim>\<open>num_train\<close> equal to the number of scenes the validation list is empty.
\<close>

theorem run_never_fails_disjointness:
  "fst (run cfg shuffle fs) \<noteq> Some (AssertionError TrainValDisjoint)"
  unfolding run_def Let_def
proof (rule then_outcome_not)
  show "fst (preprocess cfg fs) \<noteq> Some (AssertionError TrainValDisjoint)"
    by (simp add: preprocess_def preprocess_all_not_TVD)
next
  fix fs1
  let ?tv = "trainval_files cfg fs1"
  have p: "partition_files (shuffle (trainval_scenes ?tv)) ?tv
             = (select_files (shuffle (trainval_scenes ?tv)) ?tv, [])"
    by (simp add: partition_files_def split_scenes_all)
  show "fst (case partition_files (shuffle (trainval_scenes ?tv)) ?tv of
               (train, val) \<Rightarrow>
                 then_outcome
                  (lift_outcome (ebind (sanity_checks cfg fs1 train val (test_files cfg fs1)) (\<lambda>_. Inr fs1)) fs1)
                  (write_manifests cfg train val (test_files cfg fs1)))
          \<noteq> Some (AssertionError TrainValDisjoint)"
    unfolding p prod.case
  proof (rule then_outcome_not)
    show "fst (lift_outcome (ebind (sanity_checks cfg fs1 (select_files (shuffle (trainval_scenes ?tv)) ?tv) []
                 (test_files cfg fs1)) (\<lambda>_. Inr fs1)) fs1) \<noteq> Some (AssertionError TrainValDisjoint)"
      by (rule fst_lift_outcome_not) (auto simp: ebind_eq_Inl sanity_checks_no_val_not_TVD)
  qed (rule write_manifests_not_assert)
qed

text \<open>
  C16: Output names keep only the file name (line 43), so scans of the same
  name in different scene directories are written to the same output file.
  Under \<^verbatim>\<open>-O\<close>, when the scan loop of line 26 processes buildable scans,
  the output file of a name holds the record of the last scan of that name:
  every earlier scan of the name is silently overwritten.
\<close>

theorem process_files_name_clash:
  assumes noO: "\<not> asserts cfg" and wf: "wf_fs fs" and d: "is_dir fs phase_out"
    and ok: "\<forall>g \<in> set (xs @ f # ys). \<not> prefix phase_out g \<and> \<not> prefix phase_out (label_path g) \<and>
               \<not> isl (build_record cfg phase_out fs g) \<and> \<not> is_dir fs (phase_out @ [out_name g])"
    and later: "\<forall>g \<in> set ys. out_name g \<noteq> out_name f"
    and b: "build_record cfg phase_out fs f = Inr (phase_out @ [out_name f], processed, xyz)"
  shows "\<exists>fs'. process_files cfg phase_out (xs @ f # ys) fs = (None, fs') \<and>
           map_of fs' (phase_out @ [out_name f]) = Some (PlyFile True processed)"
proof -
  from process_files_outputs[OF noO wf d ok] obtain fs' where
    r: "process_files cfg phase_out (xs @ f # ys) fs = (None, fs')"
    and m: "map_of fs' = outputs_spec cfg phase_out fs (xs @ f # ys)" by blast
  let ?m = "outputs_upd cfg phase_out fs (xs @ [f]) (map_of fs)"
  have split: "outputs_spec cfg phase_out fs (xs @ f # ys) = outputs_upd cfg phase_out fs ys ?m"
    by (simp add: outputs_spec_def outputs_upd_def)
  have "?m (phase_out @ [out_name f]) = Some (PlyFile True processed)"
    by (simp add: outputs_upd_def b)
  with r m split outputs_upd_other_name[OF later] show ?thesis by simp
qed

theorem process_files_name_clash_witness:
  "\<exists>fs'. process_files (scannet_config\<lparr>asserts := False\<rparr>) (SCANNET_OUT_PATH @ [TRAIN_DEST])
           ([ex_clash_a] @ ex_clash_b # []) ex_clash_fs = (None, fs') \<and>
         map_of fs' (SCANNET_OUT_PATH @ [TRAIN_DEST] @ [out_name ex_clash_b]) =
           Some (PlyFile True \<lparr>ncols = 7, rows = [[5, 5, 5, 9, 9, 9, 0]]\<rparr>)"
proof -
  let ?c = "scannet_config\<lparr>asserts := False\<rparr>" and ?p = "SCANNET_OUT_PATH @ [TRAIN_DEST]"
  have h1: "\<not> asserts ?c" by simp
  have h2: "wf_fs ex_clash_fs" and h3: "is_dir ex_clash_fs ?p"
    by (simp_all add: run_eval wf_fs_def ex_clash_fs_def)
  have h4: "\<forall>g \<in> set ([ex_clash_a] @ ex_clash_b # []). \<not> prefix ?p g \<and> \<not> prefix ?p (label_path g) \<and>
               \<not> isl (build_record ?c ?p ex_clash_fs g) \<and> \<not> is_dir ex_clash_fs (?p @ [out_name g])"
    by (simp add: run_eval ex_clash_fs_def)
  have h5: "\<forall>g \<in> set ([]::path list). out_name g \<noteq> out_name ex_clash_b" by simp
  have h6: "build_record ?c ?p ex_clash_fs ex_clash_b =
              Inr (?p @ [out_name ex_clash_b], \<lparr>ncols = 7, rows = [[5, 5, 5, 9, 9, 9, 0]]\<rparr>,
                   \<lparr>ncols = 3, rows = [[5, 5, 5]]\<rparr>)"
    by (simp add: run_eval ex_clash_fs_def)
  from process_files_name_clash[OF h1 h2 h3 h4 h5 h6] show ?thesis by simp
qed

text \<open>
  C17: When the script ends normally, for any permutation the shuffle drew,
  \<^verbatim>\<open>train.txt\<close> lists every processed training file as \<^verbatim>\<open>train/name\<close>,
  \<^verbatim>\<open>val.txt\<close> is empty and \<^verbatim>\<open>test.txt\<close> lists the test files, one per line.
\<close>

theorem run_manifests_on_normal_end:
  assumes "run cfg shuffle fs = (None, fs')"
    and "mset (shuffle (trainval_scenes (trainval_files cfg (snd (preprocess cfg fs)))))
           = mset (trainval_scenes (trainval_files cfg (snd (preprocess cfg fs))))"
  shows "map_of fs' (out_path cfg @ [''train.txt''])
           = Some (TextFile (manifest_text (map (\<lambda>f. TRAIN_DEST @ ''/'' @ f)
                                             (trainval_files cfg (snd (preprocess cfg fs)))))) \<and>
         map_of fs' (out_path cfg @ [''val.txt'']) = Some (TextFile []) \<and>
         map_of fs' (out_path cfg @ [''test.txt''])
           = Some (TextFile (manifest_text (test_files cfg (snd (preprocess cfg fs)))))"
proof -
  from assms(1) obtain fs1 where pre: "preprocess cfg fs = (None, fs1)" and
    rest: "(let tv = trainval_files cfg fs1;
                (train, val) = partition_files (shuffle (trainval_scenes tv)) tv;
                test = test_files cfg fs1
            in then_outcome (lift_outcome (ebind (sanity_checks cfg fs1 train val test) (\<lambda>_. Inr fs1)) fs1)
                 (write_manifests cfg train val test)) = (None, fs')"
    by (auto simp: run_def then_outcome_None)
  let ?tv = "trainval_files cfg fs1"
  have part: "partition_files (shuffle (trainval_scenes ?tv)) ?tv = (map (\<lambda>f. TRAIN_DEST @ ''/'' @ f) ?tv, [])"
    using select_files_perm assms(2) pre by (simp add: partition_files_def split_scenes_all)
  from rest have "write_manifests cfg (map (\<lambda>f. TRAIN_DEST @ ''/'' @ f) ?tv) [] (test_files cfg fs1) fs1
                    = (None, fs')"
    by (auto simp: part Let_def then_outcome_None lift_outcome_def ebind_def split: sum.splits)
  from write_manifests_None[OF this] pre show ?thesis
    by (simp add: manifest_text_def)
qed

theorem run_manifests_on_normal_end_witness:
  "map_of (snd (run (scannet_config\<lparr>asserts := False\<rparr>) (\<lambda>xs. xs) ex_fs)) (SCANNET_OUT_PATH @ [''train.txt''])
     = Some (TextFile (manifest_text (map (\<lambda>f. TRAIN_DEST @ ''/'' @ f)
         (trainval_files (scannet_config\<lparr>asserts := False\<rparr>)
            (snd (preprocess (scannet_config\<lparr>asserts := False\<rparr>) ex_fs)))))) \<and>
   map_of (snd (run (scannet_config\<lparr>asserts := False\<rparr>) (\<lambda>xs. xs) ex_fs)) (SCANNET_OUT_PATH @ [''val.txt''])
     = Some (TextFile []) \<and>
   map_of (snd (run (scannet_config\<lparr>asserts := False\<rparr>) (\<lambda>xs. xs) ex_fs)) (SCANNET_OUT_PATH @ [''test.txt''])
     = Some (TextFile (manifest_text (test_files (scannet_config\<lparr>asserts := False\<rparr>)
         (snd (preprocess (scannet_config\<lparr>asserts := False\<rparr>) ex_fs)))))"
proof -
  let ?c = "scannet_config\<lparr>asserts := False\<rparr>"
  have ok: "fst (run ?c (\<lambda>xs. xs) ex_fs) = None" by (simp add: run_eval)
  have "run ?c (\<lambda>xs. xs) ex_fs = (None, snd (run ?c (\<lambda>xs. xs) ex_fs))"
    using ok by (cases "run ?c (\<lambda>xs. xs) ex_fs") simp
  from run_manifests_on_normal_end[OF this] show ?thesis
    by (simp add: scannet_config_def)
qed

text \<open>
  The two globs of the script, modelled directly (\<open>glob_star_dir\<close> for
  line 26, \<open>glob_flat\<close> for lines 51 and 61), are \<^verbatim>\<open>pathlib\<close>'s general glob
  on the script's own patterns \<^verbatim>\<open>'*/*' + POINTCLOUD_FILE\<close> and
  \<^verbatim>\<open>'*.ply'\<close>: the same paths in the same order, for every file system.
\<close>

theorem script_globs_are_pathlib_globs:
  "glob fs d (''*/*'' @ POINTCLOUD_FILE) = glob_star_dir fs d POINTCLOUD_FILE \<and>
   glob fs d ''*.ply'' = glob_flat fs d ''.ply''"
proof -
  have "literal POINTCLOUD_FILE" and "CHR ''/'' \<notin> set POINTCLOUD_FILE"
    and "literal ''.ply''" and "CHR ''/'' \<notin> set ''.ply''"
    by (simp_all add: literal_def POINTCLOUD_FILE_def)
  with glob_instances show ?thesis by simp
qed

text \<open>
  C22: Liveness of the manifest stage. Under \<^verbatim>\<open>python -O\<close>, once the
  preprocessing pass has ended normally on a well-formed tree, the script runs
  to its end exactly when none of \<^verbatim>\<open>train.txt\<close>, \<^verbatim>\<open>val.txt\<close>,
  \<^verbatim>\<open>test.txt\<close> in the output root is a directory: the split and the
  disabled sanity checks cannot fail, and the output root exists.
\<close>

theorem run_ends_normally_iff:
  assumes "\<not> asserts cfg" and "wf_fs fs" and "preprocess cfg fs = (None, fs1)"
  shows "fst (run cfg shuffle fs) = None \<longleftrightarrow>
           \<not> is_dir fs1 (out_path cfg @ [''train.txt'']) \<and> \<not> is_dir fs1 (out_path cfg @ [''val.txt'']) \<and>
           \<not> is_dir fs1 (out_path cfg @ [''test.txt''])"
proof -
  from preprocess_None_out_dir[OF assms(2,3)] have wf1: "wf_fs fs1" and d: "is_dir fs1 (out_path cfg)"
    by simp_all
  from run_unchecked_eq[OF assms(1,3)] obtain train val where
    "run cfg shuffle fs = write_manifests cfg train val (test_files cfg fs1) fs1" by blast
  with write_manifests_ok_iff[OF wf1 d] show ?thesis by simp
qed

theorem run_ends_normally_iff_witness:
  "fst (run (scannet_config\<lparr>asserts := False\<rparr>) (\<lambda>xs. xs) ex_fs) = None \<longleftrightarrow>
     \<not> is_dir (snd (preprocess (scannet_config\<lparr>asserts := False\<rparr>) ex_fs)) (SCANNET_OUT_PATH @ [''train.txt'']) \<and>
     \<not> is_dir (snd (preprocess (scannet_config\<lparr>asserts := False\<rparr>) ex_fs)) (SCANNET_OUT_PATH @ [''val.txt'']) \<and>
     \<not> is_dir (snd (preprocess (scannet_config\<lparr>asserts := False\<rparr>) ex_fs)) (SCANNET_OUT_PATH @ [''test.txt''])"
proof -
  let ?c = "scannet_config\<lparr>asserts := False\<rparr>"
  have ok: "fst (preprocess ?c ex_fs) = None" by (simp add: run_eval)
  have "preprocess ?c ex_fs = (None, snd (preprocess ?c ex_fs))"
    using ok by (cases "preprocess ?c ex_fs") simp
  moreover have "wf_fs ex_fs" by (simp add: sample_eval builder_eval wf_fs_def)
  ultimately show ?thesis
    using run_ends_normally_iff[of ?c ex_fs "snd (preprocess ?c ex_fs)" "\<lambda>xs. xs"]
    by (simp add: scannet_config_def)
qed

text \<open>
  C26: Liveness of the whole script under \<^verbatim>\<open>python -O\<close>. On a well-formed
  tree satisfying the conditions of C25 (disjoint roots, no file on the way to
  the output directories, every scan buildable, no output name a directory),
  in which none of \<^verbatim>\<open>train.txt\<close>, \<^verbatim>\<open>val.txt\<close>, \<^verbatim>\<open>test.txt\<close> is a
  directory, the script runs to its end for every shuffle order and leaves a
  well-formed tree.
\<close>

theorem run_completes:
  assumes noO: "\<not> asserts cfg" and wf: "wf_fs fs"
    and dj: "\<not> prefix (out_path cfg) (raw_path cfg)" "\<not> prefix (raw_path cfg) (out_path cfg)"
    and outp: "\<forall>q. prefix q (out_path cfg) \<longrightarrow> q \<noteq> [] \<longrightarrow> map_of fs q = None \<or> map_of fs q = Some Dir"
    and subs: "\<forall>(dest, src) \<in> set SUBSETS.
                 (map_of fs (out_path cfg @ [dest]) = None \<or> map_of fs (out_path cfg @ [dest]) = Some Dir) \<and>
                 (\<forall>f \<in> set (glob_star_dir fs (raw_path cfg @ [src]) POINTCLOUD_FILE).
                    \<not> isl (build_record cfg (out_path cfg @ [dest]) fs f) \<and>
                    map_of fs (out_path cfg @ [dest, out_name f]) \<noteq> Some Dir)"
    and man: "map_of fs (out_path cfg @ [''train.txt'']) \<noteq> Some Dir"
      "map_of fs (out_path cfg @ [''val.txt'']) \<noteq> Some Dir"
      "map_of fs (out_path cfg @ [''test.txt'']) \<noteq> Some Dir"
  shows "\<exists>fs'. run cfg shuffle fs = (None, fs') \<and> wf_fs fs'"
proof -
  from manifests_writable[OF assms] obtain fs1 where pre: "preprocess cfg fs = (None, fs1)"
    and wf1: "wf_fs fs1" and ok: "\<forall>train val test. fst (write_manifests cfg train val test fs1) = None"
    by blast
  from run_unchecked_eq[OF noO pre] obtain train val where
    r: "run cfg shuffle fs = write_manifests cfg train val (test_files cfg fs1) fs1" by blast
  have "wf_fs (snd (write_manifests cfg train val (test_files cfg fs1) fs1))"
    by (rule wf_fs_write_manifests[OF wf1])
  with ok show ?thesis by (simp add: r) (metis prod.collapse)
qed

theorem run_completes_witness:
  "\<exists>fs'. run (scannet_config\<lparr>asserts := False\<rparr>) (\<lambda>xs. rev xs) ex_fs = (None, fs') \<and> wf_fs fs'"
proof (rule run_completes)
  let ?c = "scannet_config\<lparr>asserts := False\<rparr>"
  show "\<not> asserts ?c" by simp
  show "wf_fs ex_fs" by (simp add: sample_eval builder_eval wf_fs_def)
  show "\<not> prefix (out_path ?c) (raw_path ?c)" and "\<not> prefix (raw_path ?c) (out_path ?c)"
    by (simp_all add: scannet_config_def SCANNET_OUT_PATH_def SCANNET_RAW_PATH_def)
  show "\<forall>q. prefix q (out_path ?c) \<longrightarrow> q \<noteq> [] \<longrightarrow> map_of ex_fs q = None \<or> map_of ex_fs q = Some Dir"
    by (auto simp: scannet_config_def SCANNET_OUT_PATH_def prefix_Cons sample_eval builder_eval)
  show "\<forall>(dest, src) \<in> set SUBSETS.
          (map_of ex_fs (out_path ?c @ [dest]) = None \<or> map_of ex_fs (out_path ?c @ [dest]) = Some Dir) \<and>
          (\<forall>f \<in> set (glob_star_dir ex_fs (raw_path ?c @ [src]) POINTCLOUD_FILE).
             \<not> isl (build_record ?c (out_path ?c @ [dest]) ex_fs f) \<and>
             map_of ex_fs (out_path ?c @ [dest, out_name f]) \<noteq> Some Dir)"
    by (simp add: sample_eval builder_eval)
  show "map_of ex_fs (out_path ?c @ [''train.txt'']) \<noteq> Some Dir"
    and "map_of ex_fs (out_path ?c @ [''val.txt'']) \<noteq> Some Dir"
    and "map_of ex_fs (out_path ?c @ [''test.txt'']) \<noteq> Some Dir"
    by (simp_all add: sample_eval builder_eval)
qed

text \<open>
  C27: Manifest contents after a complete \<^verbatim>\<open>python -O\<close> run. Under the
  conditions of C26 and for any shuffle that permutes the scene ids,
  \<^verbatim>\<open>train.txt\<close> lists, under \<^verbatim>\<open>train/\<close>, every \<^verbatim>\<open>.ply\<close> name of
  the training output directory in listing order: the names already there,
  then the outputs of the scans of \<^verbatim>\<open>scans/\<close> not already present, in
  glob order. \<^verbatim>\<open>val.txt\<close> is empty and \<^verbatim>\<open>test.txt\<close> is built the
  same way from \<^verbatim>\<open>test/\<close> and \<^verbatim>\<open>scans_test/\<close>. Files left by an
  earlier run are listed too.
\<close>

theorem run_manifests_listing:
  assumes noO: "\<not> asserts cfg" and wf: "wf_fs fs"
    and dj: "\<not> prefix (out_path cfg) (raw_path cfg)" "\<not> prefix (raw_path cfg) (out_path cfg)"
    and outp: "\<forall>q. prefix q (out_path cfg) \<longrightarrow> q \<noteq> [] \<longrightarrow> map_of fs q = None \<or> map_of fs q = Some Dir"
    and subs: "\<forall>(dest, src) \<in> set SUBSETS.
                 (map_of fs (out_path cfg @ [dest]) = None \<or> map_of fs (out_path cfg @ [dest]) = Some Dir) \<and>
                 (\<forall>f \<in> set (glob_star_dir fs (raw_path cfg @ [src]) POINTCLOUD_FILE).
                    \<not> isl (build_record cfg (out_path cfg @ [dest]) fs f) \<and>
                    map_of fs (out_path cfg @ [dest, out_name f]) \<noteq> Some Dir)"
    and man: "map_of fs (out_path cfg @ [''train.txt'']) \<noteq> Some Dir"
      "map_of fs (out_path cfg @ [''val.txt'']) \<noteq> Some Dir"
      "map_of fs (out_path cfg @ [''test.txt'']) \<noteq> Some Dir"
    and perm: "\<forall>xs. mset (shuffle xs) = mset xs"
  shows "\<exists>fs'. run cfg shuffle fs = (None, fs') \<and>
           map_of fs' (out_path cfg @ [''train.txt'']) =
             Some (TextFile (manifest_text (map (\<lambda>n. TRAIN_DEST @ ''/'' @ n)
               (filter (suffix ''.ply'') (rev (remdups (rev (children fs (out_path cfg @ [TRAIN_DEST]) @
                  map out_name (glob_star_dir fs (raw_path cfg @ [''scans'']) POINTCLOUD_FILE))))))))) \<and>
           map_of fs' (out_path cfg @ [''val.txt'']) = Some (TextFile []) \<and>
           map_of fs' (out_path cfg @ [''test.txt'']) =
             Some (TextFile (manifest_text (map (\<lambda>n. TEST_DEST @ ''/'' @ n)
               (filter (suffix ''.ply'') (rev (remdups (rev (children fs (out_path cfg @ [TEST_DEST]) @
                  map out_name (glob_star_dir fs (raw_path cfg @ [''scans_test'']) POINTCLOUD_FILE)))))))))"
proof -
  from run_listing_shape[OF noO wf dj outp subs perm] obtain fs1 where
    wf1: "wf_fs fs1" and d: "is_dir fs1 (out_path cfg)"
    and keep: "\<forall>m. m \<noteq> TRAIN_DEST \<longrightarrow> m \<noteq> TEST_DEST \<longrightarrow>
                 map_of fs1 (out_path cfg @ [m]) = map_of fs (out_path cfg @ [m])"
    and r: "run cfg shuffle fs =
             write_manifests cfg (map (\<lambda>n. TRAIN_DEST @ ''/'' @ n) (listing_after_pass cfg fs TRAIN_DEST ''scans'')) []
               (map (\<lambda>n. TEST_DEST @ ''/'' @ n) (listing_after_pass cfg fs TEST_DEST ''scans_test'')) fs1"
    by blast
  have "\<not> is_dir fs1 (out_path cfg @ [''train.txt''])" "\<not> is_dir fs1 (out_path cfg @ [''val.txt''])"
    "\<not> is_dir fs1 (out_path cfg @ [''test.txt''])"
    using man keep by (simp_all add: is_dir_def TRAIN_DEST_def TEST_DEST_def)
  with write_manifests_ok_iff[OF wf1 d] r obtain fs' where
    w: "run cfg shuffle fs = (None, fs')" by (metis prod.collapse)
  with write_manifests_None[OF w[unfolded r]] show ?thesis by (simp add: manifest_text_def)
qed

theorem run_manifests_listing_witness:
  "\<exists>fs'. run (scannet_config\<lparr>asserts := False\<rparr>) (\<lambda>xs. rev xs) ex_stale_fs = (None, fs') \<and>
     map_of fs' (SCANNET_OUT_PATH @ [''train.txt'']) =
       Some (TextFile ''train/scene0999_00.ply\<newline>train/scene0000_00.ply\<newline>'') \<and>
     map_of fs' (SCANNET_OUT_PATH @ [''val.txt'']) = Some (TextFile []) \<and>
     map_of fs' (SCANNET_OUT_PATH @ [''test.txt'']) = Some (TextFile ''test/scene0707_00.ply\<newline>'')"
proof -
  let ?c = "scannet_config\<lparr>asserts := False\<rparr>"
  have o: "out_path ?c = SCANNET_OUT_PATH" and r: "raw_path ?c = SCANNET_RAW_PATH"
    by (simp_all add: scannet_config_def)
  have h1: "\<not> asserts ?c" by simp
  have h2: "wf_fs ex_stale_fs" by (simp add: ex_stale_fs_def sample_eval builder_eval wf_fs_def)
  have h3: "\<not> prefix (out_path ?c) (raw_path ?c)" and h4: "\<not> prefix (raw_path ?c) (out_path ?c)"
    by (simp_all add: o r SCANNET_OUT_PATH_def SCANNET_RAW_PATH_def)
  have h5: "\<forall>q. prefix q (out_path ?c) \<longrightarrow> q \<noteq> [] \<longrightarrow> map_of ex_stale_fs q = None \<or> map_of ex_stale_fs q = Some Dir"
    by (auto simp: o SCANNET_OUT_PATH_def prefix_Cons ex_stale_fs_def sample_eval builder_eval)
  have h6: "\<forall>(dest, src) \<in> set SUBSETS.
          (map_of ex_stale_fs (out_path ?c @ [dest]) = None \<or> map_of ex_stale_fs (out_path ?c @ [dest]) = Some Dir) \<and>
          (\<forall>f \<in> set (glob_star_dir ex_stale_fs (raw_path ?c @ [src]) POINTCLOUD_FILE).
             \<not> isl (build_record ?c (out_path ?c @ [dest]) ex_stale_fs f) \<and>
             map_of ex_stale_fs (out_path ?c @ [dest, out_name f]) \<noteq> Some Dir)"
    by (simp add: ex_stale_fs_def sample_eval builder_eval)
  have h7: "map_of ex_stale_fs (out_path ?c @ [''train.txt'']) \<noteq> Some Dir"
    and h8: "map_of ex_stale_fs (out_path ?c @ [''val.txt'']) \<noteq> Some Dir"
    and h9: "map_of ex_stale_fs (out_path ?c @ [''test.txt'']) \<noteq> Some Dir"
    by (simp_all add: o ex_stale_fs_def sample_eval builder_eval)
  have h10: "\<forall>xs. mset (rev xs) = mset xs" by simp
  have c1: "children ex_stale_fs (out_path ?c @ [TRAIN_DEST]) = [''scene0999_00.ply'']"
    and c2: "children ex_stale_fs (out_path ?c @ [TEST_DEST]) = []"
    by (simp_all add: o ex_stale_fs_def sample_eval builder_eval)
  have g1: "map out_name (glob_star_dir ex_stale_fs (raw_path ?c @ [''scans'']) POINTCLOUD_FILE) = [''scene0000_00.ply'']"
    and g2: "map out_name (glob_star_dir ex_stale_fs (raw_path ?c @ [''scans_test'']) POINTCLOUD_FILE) = [''scene0707_00.ply'']"
    by (simp_all add: r ex_stale_fs_def sample_eval builder_eval)
  note L = run_manifests_listing[OF h1 h2 h3 h4 h5 h6 h7 h8 h9 h10]
  show ?thesis using L[unfolded c1 c2 g1 g2, unfolded o]
    by (simp add: manifest_text_def TRAIN_DEST_def TEST_DEST_def suffix_to_prefix)
qed

text \<open>
  C28: The three manifest writes of lines 69--75 are not atomic. Under the
  conditions of C25, for any permuting shuffle, if \<^verbatim>\<open>train.txt\<close> is not a
  directory but \<^verbatim>\<open>val.txt\<close> is, the script raises
  \<^verbatim>\<open>IsADirectoryError\<close> at line 72 after \<^verbatim>\<open>train.txt\<close> has been written
  with the full training list, and \<^verbatim>\<open>test.txt\<close> keeps whatever it held
  before the run.
\<close>

theorem run_val_manifest_dir:
  assumes noO: "\<not> asserts cfg" and wf: "wf_fs fs"
    and dj: "\<not> prefix (out_path cfg) (raw_path cfg)" "\<not> prefix (raw_path cfg) (out_path cfg)"
    and outp: "\<forall>q. prefix q (out_path cfg) \<longrightarrow> q \<noteq> [] \<longrightarrow> map_of fs q = None \<or> map_of fs q = Some Dir"
    and subs: "\<forall>(dest, src) \<in> set SUBSETS.
                 (map_of fs (out_path cfg @ [dest]) = None \<or> map_of fs (out_path cfg @ [dest]) = Some Dir) \<and>
                 (\<forall>f \<in> set (glob_star_dir fs (raw_path cfg @ [src]) POINTCLOUD_FILE).
                    \<not> isl (build_record cfg (out_path cfg @ [dest]) fs f) \<and>
                    map_of fs (out_path cfg @ [dest, out_name f]) \<noteq> Some Dir)"
    and perm: "\<forall>xs. mset (shuffle xs) = mset xs"
    and tr: "map_of fs (out_path cfg @ [''train.txt'']) \<noteq> Some Dir"
    and va: "map_of fs (out_path cfg @ [''val.txt'']) = Some Dir"
  shows "\<exists>fs'. run cfg shuffle fs = (Some (IsADirectoryError (out_path cfg @ [''val.txt''])), fs') \<and>
           map_of fs' (out_path cfg @ [''train.txt'']) =
             Some (TextFile (manifest_text (map (\<lambda>n. TRAIN_DEST @ ''/'' @ n)
               (listing_after_pass cfg fs TRAIN_DEST ''scans'')))) \<and>
           map_of fs' (out_path cfg @ [''test.txt'']) = map_of fs (out_path cfg @ [''test.txt''])"
proof -
  from run_listing_shape[OF noO wf dj outp subs perm] obtain fs1 where
    wf1: "wf_fs fs1" and d: "is_dir fs1 (out_path cfg)"
    and keep: "\<forall>m. m \<noteq> TRAIN_DEST \<longrightarrow> m \<noteq> TEST_DEST \<longrightarrow>
                 map_of fs1 (out_path cfg @ [m]) = map_of fs (out_path cfg @ [m])"
    and r: "run cfg shuffle fs =
             write_manifests cfg (map (\<lambda>n. TRAIN_DEST @ ''/'' @ n) (listing_after_pass cfg fs TRAIN_DEST ''scans'')) []
               (map (\<lambda>n. TEST_DEST @ ''/'' @ n) (listing_after_pass cfg fs TEST_DEST ''scans_test'')) fs1"
    by blast
  have k: "map_of fs1 (out_path cfg @ [''train.txt'']) = map_of fs (out_path cfg @ [''train.txt''])"
    "map_of fs1 (out_path cfg @ [''val.txt'']) = map_of fs (out_path cfg @ [''val.txt''])"
    "map_of fs1 (out_path cfg @ [''test.txt'']) = map_of fs (out_path cfg @ [''test.txt''])"
    using keep by (simp_all add: TRAIN_DEST_def TEST_DEST_def)
  have "\<not> is_dir fs1 (out_path cfg @ [''train.txt''])" and "is_dir fs1 (out_path cfg @ [''val.txt''])"
    using tr va by (simp_all add: is_dir_def k)
  from write_manifests_val_dir[OF wf1 d this] r k(3) show ?thesis
    by (simp add: update_conv')
qed

theorem run_val_manifest_dir_witness:
  "\<exists>fs'. run (scannet_config\<lparr>asserts := False\<rparr>) (\<lambda>xs. rev xs) ex_val_dir_fs =
           (Some (IsADirectoryError (SCANNET_OUT_PATH @ [''val.txt''])), fs') \<and>
     map_of fs' (SCANNET_OUT_PATH @ [''train.txt'']) = Some (TextFile ''train/scene0000_00.ply\<newline>'') \<and>
     map_of fs' (SCANNET_OUT_PATH @ [''test.txt'']) = Some (TextFile ''test/old.ply\<newline>'')"
proof -
  let ?c = "scannet_config\<lparr>asserts := False\<rparr>"
  have o: "out_path ?c = SCANNET_OUT_PATH" and r: "raw_path ?c = SCANNET_RAW_PATH"
    by (simp_all add: scannet_config_def)
  have h1: "\<not> asserts ?c" by simp
  have h2: "wf_fs ex_val_dir_fs" by (simp add: ex_val_dir_fs_def sample_eval builder_eval wf_fs_def)
  have h3: "\<not> prefix (out_path ?c) (raw_path ?c)" and h4: "\<not> prefix (raw_path ?c) (out_path ?c)"
    by (simp_all add: o r SCANNET_OUT_PATH_def SCANNET_RAW_PATH_def)
  have h5: "\<forall>q. prefix q (out_path ?c) \<longrightarrow> q \<noteq> [] \<longrightarrow> map_of ex_val_dir_fs q = None \<or> map_of ex_val_dir_fs q = Some Dir"
    by (auto simp: o SCANNET_OUT_PATH_def prefix_Cons ex_val_dir_fs_def sample_eval builder_eval)
  have h6: "\<forall>(dest, src) \<in> set SUBSETS.
          (map_of ex_val_dir_fs (out_path ?c @ [dest]) = None \<or> map_of ex_val_dir_fs (out_path ?c @ [dest]) = Some Dir) \<and>
          (\<forall>f \<in> set (glob_star_dir ex_val_dir_fs (raw_path ?c @ [src]) POINTCLOUD_FILE).
             \<not> isl (build_record ?c (out_path ?c @ [dest]) ex_val_dir_fs f) \<and>
             map_of ex_val_dir_fs (out_path ?c @ [dest, out_name f]) \<noteq> Some Dir)"
    by (simp add: ex_val_dir_fs_def sample_eval builder_eval)
  have h7: "\<forall>xs. mset (rev xs) = mset xs" by simp
  have h8: "map_of ex_val_dir_fs (out_path ?c @ [''train.txt'']) \<noteq> Some Dir"
    and h9: "map_of ex_val_dir_fs (out_path ?c @ [''val.txt'']) = Some Dir"
    and t: "map_of ex_val_dir_fs (out_path ?c @ [''test.txt'']) = Some (TextFile ''test/old.ply\<newline>'')"
    by (simp_all add: o ex_val_dir_fs_def sample_eval builder_eval)
  have c1: "children ex_val_dir_fs (out_path ?c @ [TRAIN_DEST]) = []"
    by (simp add: o ex_val_dir_fs_def sample_eval builder_eval)
  have g1: "map out_name (glob_star_dir ex_val_dir_fs (raw_path ?c @ [''scans'']) POINTCLOUD_FILE) = [''scene0000_00.ply'']"
    by (simp add: r ex_val_dir_fs_def sample_eval builder_eval)
  note L = run_val_manifest_dir[OF h1 h2 h3 h4 h5 h6 h7 h8 h9]
  show ?thesis using L[unfolded c1 g1 t, unfolded o]
    by (simp add: manifest_text_def TRAIN_DEST_def suffix_to_prefix)
qed

text \<open>
  C29: With assertions on, the sanity asserts of lines 63--67 are reached only
  when no scan is discovered (C6: every scan raises at line 48). On such a
  tree, for any permuting shuffle, the assert of line 65 fires exactly when
  some \<^verbatim>\<open>*.ply\<close> entry of the training output directory is not a file, and
  then nothing at the output root changes: no manifest is written.
\<close>

theorem run_asserts_no_scans:
  assumes on: "asserts cfg" and wf: "wf_fs fs"
    and dj: "\<not> prefix (out_path cfg) (raw_path cfg)" "\<not> prefix (raw_path cfg) (out_path cfg)"
    and outp: "\<forall>q. prefix q (out_path cfg) \<longrightarrow> q \<noteq> [] \<longrightarrow> map_of fs q = None \<or> map_of fs q = Some Dir"
    and subs: "\<forall>(dest, src) \<in> set SUBSETS.
                 (map_of fs (out_path cfg @ [dest]) = None \<or> map_of fs (out_path cfg @ [dest]) = Some Dir) \<and>
                 glob_star_dir fs (raw_path cfg @ [src]) POINTCLOUD_FILE = []"
    and names: "\<forall>n \<in> set (children fs (out_path cfg @ [TRAIN_DEST])). CHR ''/'' \<notin> set n"
    and perm: "\<forall>xs. mset (shuffle xs) = mset xs"
  shows "(fst (run cfg shuffle fs) = Some (AssertionError TrainListed) \<longleftrightarrow>
            (\<exists>n \<in> set (children fs (out_path cfg @ [TRAIN_DEST])).
               suffix ''.ply'' n \<and> \<not> is_file fs (out_path cfg @ [TRAIN_DEST, n]))) \<and>
         (fst (run cfg shuffle fs) = Some (AssertionError TrainListed) \<longrightarrow>
            (\<forall>m. m \<noteq> TRAIN_DEST \<longrightarrow> m \<noteq> TEST_DEST \<longrightarrow>
                 map_of (snd (run cfg shuffle fs)) (out_path cfg @ [m]) = map_of fs (out_path cfg @ [m])))"
proof -
  from run_no_scans_shape[OF on wf dj outp subs names perm] obtain fs1 where
    keep: "\<forall>m. m \<noteq> TRAIN_DEST \<longrightarrow> m \<noteq> TEST_DEST \<longrightarrow>
             map_of fs1 (out_path cfg @ [m]) = map_of fs (out_path cfg @ [m])"
    and r: "run cfg shuffle fs =
             (if \<exists>n \<in> set (children fs (out_path cfg @ [TRAIN_DEST])).
                   suffix ''.ply'' n \<and> \<not> is_file fs (out_path cfg @ [TRAIN_DEST, n])
              then (Some (AssertionError TrainListed), fs1)
              else if all_listed cfg fs1 (test_files cfg fs1)
              then write_manifests cfg (map (\<lambda>n. TRAIN_DEST @ ''/'' @ n)
                     (filter (suffix ''.ply'') (children fs (out_path cfg @ [TRAIN_DEST])))) [] (test_files cfg fs1) fs1
              else (Some (AssertionError TestListed), fs1))"
    by blast
  show ?thesis
    using write_manifests_not_assert[where s = TrainListed] by (simp only: r) (auto simp: keep)
qed

theorem run_asserts_no_scans_witness:
  "fst (run scannet_config (\<lambda>xs. rev xs) ex_noscan_fs) = Some (AssertionError TrainListed) \<and>
   map_of (snd (run scannet_config (\<lambda>xs. rev xs) ex_noscan_fs)) (SCANNET_OUT_PATH @ [''train.txt'']) = None"
proof -
  have h1: "asserts scannet_config" by (simp add: scannet_config_def)
  have h2: "wf_fs ex_noscan_fs" by (simp add: ex_noscan_fs_def builder_eval wf_fs_def)
  have h3: "\<not> prefix (out_path scannet_config) (raw_path scannet_config)"
    and h4: "\<not> prefix (raw_path scannet_config) (out_path scannet_config)"
    by (simp_all add: builder_eval)
  have h5: "\<forall>q. prefix q (out_path scannet_config) \<longrightarrow> q \<noteq> [] \<longrightarrow>
              map_of ex_noscan_fs q = None \<or> map_of ex_noscan_fs q = Some Dir"
    by (auto simp: builder_eval prefix_Cons ex_noscan_fs_def)
  have h6: "\<forall>(dest, src) \<in> set SUBSETS.
          (map_of ex_noscan_fs (out_path scannet_config @ [dest]) = None \<or>
           map_of ex_noscan_fs (out_path scannet_config @ [dest]) = Some Dir) \<and>
          glob_star_dir ex_noscan_fs (raw_path scannet_config @ [src]) POINTCLOUD_FILE = []"
    by (simp add: ex_noscan_fs_def builder_eval)
  have h7: "\<forall>n \<in> set (children ex_noscan_fs (out_path scannet_config @ [TRAIN_DEST])). CHR ''/'' \<notin> set n"
    by (simp add: ex_noscan_fs_def builder_eval)
  have h8: "\<forall>xs. mset (rev xs) = mset xs" by simp
  have e: "\<exists>n \<in> set (children ex_noscan_fs (out_path scannet_config @ [TRAIN_DEST])).
             suffix ''.ply'' n \<and> \<not> is_file ex_noscan_fs (out_path scannet_config @ [TRAIN_DEST, n])"
    by (simp add: ex_noscan_fs_def builder_eval)
  have t: "map_of ex_noscan_fs (out_path scannet_config @ [''train.txt'']) = None"
    by (simp add: ex_noscan_fs_def builder_eval)
  from run_asserts_no_scans[OF h1 h2 h3 h4 h5 h6 h7 h8] e t show ?thesis
    by (simp add: TRAIN_DEST_def TEST_DEST_def scannet_config_def)
qed

end
